(* ===== verification/Prelude.thy ===== *)
theory Prelude
  imports
    Main
    "HOL-Library.Product_Lexorder"
    "HOL-Library.List_Lexorder"
    "HOL-Library.Char_ord"
    "HOL-Library.Sublist"
    "HOL-Library.Multiset"
begin

text \<open>
  What every component of the model shares: the error monad of the fallible operations
  (\<open>'e + 'a\<close>, with \<open>Inl\<close> for a raised exception), the traversals that stop at the first
  exception, and the facts about Python's stable \<open>sorted(..., key=...)\<close>, which is
  \<^const>\<open>sort_key\<close> here.  The imported orders make tuples, strings and lists of them
  compare the way Python compares tuples and \<open>str\<close> (lexicographically, by code point).
\<close>

named_theorems err_simps \<open>unfolding of the error monad\<close>
named_theorems guard_simps \<open>definitions of the boolean guards of the code\<close>

section \<open>The error monad\<close>

fun bindE :: "'e + 'a \<Rightarrow> ('a \<Rightarrow> 'e + 'b) \<Rightarrow> 'e + 'b" where
  "bindE (Inl e) f = Inl e"
| "bindE (Inr x) f = f x"

definition raise_if :: "bool \<Rightarrow> 'e \<Rightarrow> 'e + unit" where
  "raise_if b e = (if b then Inl e else Inr ())"

fun traverseE :: "('a \<Rightarrow> 'e + 'b) \<Rightarrow> 'a list \<Rightarrow> 'e + 'b list" where
  "traverseE f [] = Inr []"
| "traverseE f (x # xs) =
     bindE (f x) (\<lambda>y. bindE (traverseE f xs) (\<lambda>ys. Inr (y # ys)))"

lemma bindE_eq_Inr [simp]: "bindE m f = Inr y \<longleftrightarrow> (\<exists>x. m = Inr x \<and> f x = Inr y)"
  by (cases m) auto

lemma bindE_eq_Inl: "bindE m f = Inl e \<longleftrightarrow> m = Inl e \<or> (\<exists>x. m = Inr x \<and> f x = Inl e)"
  by (cases m) auto

lemma raise_if_Inr [simp]: "raise_if b e = Inr u \<longleftrightarrow> \<not> b"
  by (simp add: raise_if_def)

lemma raise_if_Inl [simp]: "raise_if b e = Inl e' \<longleftrightarrow> b \<and> e' = e"
  by (auto simp: raise_if_def)

lemma bindE_raise_if: "bindE (raise_if b e) f = (if b then Inl e else f ())"
  by (simp add: raise_if_def)

lemma traverseE_Inr:
  "traverseE f xs = Inr ys \<longleftrightarrow> list_all2 (\<lambda>x y. f x = Inr y) xs ys"
  by (induction xs arbitrary: ys) (auto simp: list_all2_Cons1)

lemma traverseE_Inl: "traverseE f xs = Inl e \<Longrightarrow> \<exists>x \<in> set xs. f x = Inl e"
  by (induction xs) (auto simp: bindE_eq_Inl)

lemma traverseE_length: "traverseE f xs = Inr ys \<Longrightarrow> length ys = length xs"
  by (auto simp: traverseE_Inr dest: list_all2_lengthD)

lemma traverseE_total:
  "(\<And>x. x \<in> set xs \<Longrightarrow> f x = Inr (g x)) \<Longrightarrow> traverseE f xs = Inr (map g xs)"
  by (induction xs) auto

declare bindE_raise_if [err_simps]

section \<open>Stable sorting\<close>

lemma sort_key_id: "sorted (map k xs) \<Longrightarrow> sort_key k xs = xs"
  by (induction xs) (auto simp: insort_is_Cons)

lemma sorted_by_iff: "sort_key k xs = xs \<longleftrightarrow> sorted (map k xs)"
  by (metis sort_key_id sorted_sort_key)

lemma sort_key_idem [simp]: "sort_key k (sort_key k xs) = sort_key k xs"
  by (simp add: sort_key_id)

lemma distinct_sort_key [simp]: "distinct (sort_key k xs) = distinct xs"
  by (rule mset_eq_imp_distinct_iff) simp

text \<open>
  A sort key that separates the valid elements makes the sorted order a function of the
  multiset alone: the contract behind every "stable order" of the code.
\<close>

locale canonical_order =
  fixes key :: "'a \<Rightarrow> 'k::linorder"
    and valid :: "'a \<Rightarrow> bool"
  assumes key_inj: "valid x \<Longrightarrow> valid y \<Longrightarrow> key x = key y \<Longrightarrow> x = y"
begin

lemma sorted_unique:
  assumes "mset xs = mset ys" and "\<forall>x \<in> set xs. valid x"
  shows "sort_key key xs = sort_key key ys"
proof (rule properties_for_sort_key [symmetric])
  have same: "set ys = set xs"
    using assms(1) by (metis set_mset_mset)
  show "mset (sort_key key xs) = mset ys"
    using assms by simp
  show "filter (\<lambda>x. key k = key x) (sort_key key xs) = filter (\<lambda>x. key k = key x) ys"
    if "k \<in> set (sort_key key xs)" for k
  proof -
    have k: "valid k"
      using that assms(2) by simp
    have "filter (\<lambda>x. key k = key x) zs = replicate (count (mset zs) k) k"
      if "set zs \<subseteq> set xs" for zs
      using that
    proof (induction zs)
      case (Cons z zs)
      then have "key k = key z \<longleftrightarrow> k = z"
        using key_inj [OF k, of z] assms(2) by auto
      with Cons show ?case by auto
    qed simp
    from this [of "sort_key key xs"] this [of ys] show ?thesis
      using assms(1) same by simp
  qed
qed simp

lemma strict_sorted:
  assumes "sorted (map key xs)" and "distinct xs" and "\<forall>x \<in> set xs. valid x"
  shows "sorted_wrt (<) (map key xs)"
proof -
  have "distinct (map key xs)"
    using assms(2,3) key_inj by (auto simp: distinct_map inj_on_def)
  with assms(1) show ?thesis
    by (simp add: strict_sorted_iff)
qed

lemma set_determines_order:
  assumes "sorted (map key xs)" "distinct xs" "sorted (map key ys)" "distinct ys"
    and "set xs = set ys" and "\<forall>x \<in> set xs. valid x"
  shows "xs = ys"
proof -
  have "mset xs = mset ys"
    using assms(2,4,5) by (simp add: set_eq_iff_mset_eq_distinct)
  then have "sort_key key xs = sort_key key ys"
    using assms(6) by (rule sorted_unique)
  with assms(1,3) show ?thesis
    by (simp add: sort_key_id)
qed

end

end
