(* ===== verification/PyText.thy ===== *)
theory PyText
  imports Prelude "HOL-Library.Word"
begin

text \<open>
  The part of Python's \<open>str\<close>, \<open>bytes\<close> and \<open>pathlib\<close> that the code uses.

  A \<open>str\<close> that holds a path, an identifier, a dotted name, a chunk, a query or an enum
  value is a \<^typ>\<open>string\<close>, its characters read as the code points below 256.
  \<open>casefold\<close> is \<open>str.casefold\<close> on these code points: the capitals A-Z, U+00C0-U+00D6 and
  U+00D8-U+00DE become the letters 32 above them and U+00DF (sharp s) becomes \<open>ss\<close>.  One
  folding leaves the range: U+00B5 (the micro sign) becomes U+03BC, which no string of the
  model contains otherwise; U+00B5 stands for its own folding.  \<open>lower_char\<close> is the ASCII
  part, which \<open>re.IGNORECASE\<close> uses between ASCII letters.  Where the code normalizes a
  whole name as well (\<open>unicodedata.normalize("NFKC", s).casefold()\<close>), that function is an
  argument of the definitions concerned.

  Source text is a list of Unicode code points (\<^typ>\<open>nat list\<close>) decoded from a list of
  bytes (\<^typ>\<open>8 word list\<close>).
\<close>

type_synonym byte = "8 word"
type_synonym source_text = "nat list"

section \<open>Characters and \<open>str\<close> methods\<close>

definition lower_char :: "char \<Rightarrow> char" where
  "lower_char c =
     (if CHR ''A'' \<le> c \<and> c \<le> CHR ''Z'' then char_of (of_char c + 32 :: nat) else c)"

definition is_capital :: "char \<Rightarrow> bool" where
  "is_capital c \<longleftrightarrow>
     (CHR ''A'' \<le> c \<and> c \<le> CHR ''Z'') \<or> (CHR 0xC0 \<le> c \<and> c \<le> CHR 0xDE \<and> c \<noteq> CHR 0xD7)"

definition fold_char :: "char \<Rightarrow> string" where
  "fold_char c =
     (if c = CHR 0xDF then ''ss''
      else if is_capital c then [char_of (of_char c + 32 :: nat)] else [c])"

definition upper_char :: "char \<Rightarrow> char" where
  "upper_char c =
     (if CHR ''a'' \<le> c \<and> c \<le> CHR ''z'' then char_of (of_char c - 32 :: nat) else c)"

definition casefold :: "string \<Rightarrow> string" where
  "casefold s = concat (map fold_char s)"

definition upper :: "string \<Rightarrow> string" where
  "upper s = map upper_char s"

definition is_ascii_letter :: "char \<Rightarrow> bool" where
  "is_ascii_letter c \<longleftrightarrow>
     (CHR ''A'' \<le> c \<and> c \<le> CHR ''Z'') \<or> (CHR ''a'' \<le> c \<and> c \<le> CHR ''z'')"

text \<open>
  \<open>re\<close>'s \<open>[^\W_]\<close>, that is \<open>str.isalnum()\<close>: letters, digits, and from U+0080 on the
  ordinals, the micro sign, the superscript digits, the fractions and the Latin letters.
\<close>

definition is_word :: "char \<Rightarrow> bool" where
  "is_word c \<longleftrightarrow>
     is_ascii_letter c \<or> (CHR ''0'' \<le> c \<and> c \<le> CHR ''9'')
     \<or> c \<in> {CHR 0xAA, CHR 0xB2, CHR 0xB3, CHR 0xB5, CHR 0xB9, CHR 0xBA, CHR 0xBC, CHR 0xBD,
            CHR 0xBE}
     \<or> (CHR 0xC0 \<le> c \<and> c \<noteq> CHR 0xD7 \<and> c \<noteq> CHR 0xF7)"

text \<open>The same functions on the bits of a character, for evaluation.\<close>

lemma is_capital_bits [code]:
  "is_capital (Char b0 b1 b2 b3 b4 b5 b6 b7) \<longleftrightarrow>
     b6 \<and> \<not> b5 \<and> (if b7 then \<not> (b4 \<and> b2 \<and> b1 \<and> b0)
                 else (b0 \<or> b1 \<or> b2 \<or> b3 \<or> b4) \<and> \<not> (b4 \<and> b3 \<and> (b2 \<or> (b1 \<and> b0))))"
  by (cases b7; cases b6; cases b5; cases b4; cases b3; cases b2; cases b1; cases b0)
    (simp_all add: is_capital_def less_eq_char_def)

lemma capital_up:
  "is_capital (Char b0 b1 b2 b3 b4 b5 b6 b7) \<Longrightarrow>
   char_of (of_char (Char b0 b1 b2 b3 b4 b5 b6 b7) + 32 :: nat) = Char b0 b1 b2 b3 b4 True b6 b7"
  by (cases b7; cases b6; cases b5; cases b4; cases b3; cases b2; cases b1; cases b0)
    (simp_all add: is_capital_bits char_of_def bit_0)

lemma fold_char_bits [code]:
  "fold_char (Char b0 b1 b2 b3 b4 b5 b6 b7) =
     (let c = Char b0 b1 b2 b3 b4 b5 b6 b7
      in if is_capital c then [Char b0 b1 b2 b3 b4 True b6 b7]
         else if b7 \<and> b6 \<and> \<not> b5 \<and> b4 \<and> b3 \<and> b2 \<and> b1 \<and> b0 then ''ss'' else [c])"
  using capital_up [of b0 b1 b2 b3 b4 b5 b6 b7]
  by (auto simp: fold_char_def Let_def is_capital_bits)

lemma lower_char_bits [code]:
  "lower_char (Char b0 b1 b2 b3 b4 b5 b6 b7) =
     (let c = Char b0 b1 b2 b3 b4 b5 b6 b7
      in if \<not> b7 \<and> is_capital c then Char b0 b1 b2 b3 b4 True b6 b7 else c)"
  by (cases b7; cases b6; cases b5; cases b4; cases b3; cases b2; cases b1; cases b0)
    (simp_all add: lower_char_def is_capital_bits less_eq_char_def char_of_def bit_0 Let_def)

lemma is_word_bits [code]:
  "is_word (Char b0 b1 b2 b3 b4 b5 b6 b7) \<longleftrightarrow>
     (if b7
      then (if b6 then \<not> (b4 \<and> \<not> b3 \<and> b2 \<and> b1 \<and> b0)
            else b5 \<and> (if b4 then (\<not> b3 \<and> \<not> b2 \<and> b1) \<or> (\<not> b3 \<and> b2 \<and> \<not> b1 \<and> b0)
                            \<or> (b3 \<and> \<not> b2 \<and> (b0 \<noteq> b1)) \<or> (b3 \<and> b2 \<and> \<not> (b1 \<and> b0))
                       else b3 \<and> \<not> b2 \<and> b1 \<and> \<not> b0))
      else if b6 then (b0 \<or> b1 \<or> b2 \<or> b3 \<or> b4) \<and> \<not> (b4 \<and> b3 \<and> (b2 \<or> (b1 \<and> b0)))
      else b5 \<and> b4 \<and> \<not> (b3 \<and> (b2 \<or> b1)))"
  by (cases b7; cases b6; cases b5; cases b4; cases b3; cases b2; cases b1; cases b0)
    (simp_all add: is_word_def is_ascii_letter_def less_eq_char_def)

lemma fold_char_word:
  "is_word c \<Longrightarrow> d \<in> set (fold_char c) \<Longrightarrow> is_word d \<and> fold_char d = [d]"
  by (cases c)
    (auto simp: fold_char_bits is_capital_bits is_word_bits Let_def split: if_splits)

lemma fold_char_other: "\<not> is_word c \<Longrightarrow> fold_char c = [c]"
  by (cases c) (auto simp: fold_char_bits is_capital_bits is_word_bits Let_def)

lemma fold_char_nonempty [simp]: "fold_char c \<noteq> []"
  by (simp add: fold_char_def)

lemma casefold_simps [simp]:
  "casefold [] = []" "casefold (c # s) = fold_char c @ casefold s"
  "casefold (s @ t) = casefold s @ casefold t"
  by (simp_all add: casefold_def)

lemma casefold_idem [simp]: "casefold (casefold s) = casefold s"
proof (induction s)
  case (Cons c s)
  have "fold_char d = [d]" if "d \<in> set (fold_char c)" for d
    using that fold_char_word [of c d] fold_char_other [of c] by (cases "is_word c") auto
  then have "casefold w = w" if "set w \<subseteq> set (fold_char c)" for w
    using that by (induction w) auto
  with Cons show ?case by simp
qed simp

text \<open>\<open>s.split(d)\<close> for a one-character separator and \<open>d.join(parts)\<close>.\<close>

fun split_on :: "char \<Rightarrow> string \<Rightarrow> string list" where
  "split_on d [] = [[]]"
| "split_on d (c # cs) =
     (if c = d then [] # split_on d cs
      else (case split_on d cs of [] \<Rightarrow> [[c]] | w # ws \<Rightarrow> (c # w) # ws))"

fun join :: "string \<Rightarrow> string list \<Rightarrow> string" where
  "join sep [] = []"
| "join sep [x] = x"
| "join sep (x # y # zs) = x @ sep @ join sep (y # zs)"

text \<open>\<open>s.partition(d)[0]\<close>, \<open>s.rstrip(d)\<close>, \<open>s.strip()\<close> (ASCII white space).\<close>

definition before :: "char \<Rightarrow> string \<Rightarrow> string" where
  "before d s = takeWhile (\<lambda>c. c \<noteq> d) s"

definition rstrip_char :: "char \<Rightarrow> string \<Rightarrow> string" where
  "rstrip_char d s = rev (dropWhile (\<lambda>c. c = d) (rev s))"

definition is_space :: "char \<Rightarrow> bool" where
  "is_space c \<longleftrightarrow> c \<in> {CHR '' '', CHR 0x09, CHR 0x0A, CHR 0x0B, CHR 0x0C, CHR 0x0D,
                      CHR 0x1C, CHR 0x1D, CHR 0x1E, CHR 0x1F, CHR 0x85, CHR 0xA0}"

definition strip :: "string \<Rightarrow> string" where
  "strip s = rev (dropWhile is_space (rev (dropWhile is_space s)))"

text \<open>\<open>s.rpartition(d)\<close>: the part before the last \<open>d\<close>, whether there is one, the rest.\<close>

definition rpartition :: "char \<Rightarrow> string \<Rightarrow> string \<times> bool \<times> string" where
  "rpartition d s =
     (let tail = rev (takeWhile (\<lambda>c. c \<noteq> d) (rev s))
      in if d \<in> set s then (take (length s - length tail - 1) s, True, tail)
         else ([], False, s))"

lemma split_on_nonempty [simp]: "split_on d s \<noteq> []"
  by (induction s) (auto split: list.splits)

lemma split_on_no_sep: "w \<in> set (split_on d s) \<Longrightarrow> d \<notin> set w"
proof (induction s arbitrary: w)
  case Nil
  then show ?case by simp
next
  case (Cons c cs)
  then show ?case
    by (cases "split_on d cs") (auto split: if_splits)
qed

lemma split_on_chars: "w \<in> set (split_on d s) \<Longrightarrow> set w \<subseteq> set s"
proof (induction s arbitrary: w)
  case Nil
  then show ?case by simp
next
  case (Cons c cs)
  obtain v vs where vs: "split_on d cs = v # vs"
    by (cases "split_on d cs") auto
  then have "set u \<subseteq> set cs" if "u = v \<or> u \<in> set vs" for u
    using that Cons.IH by auto
  with Cons.prems vs show ?case
    by (fastforce split: if_splits)
qed

lemma join_split_on: "join [d] (split_on d s) = s"
proof (induction s)
  case Nil
  then show ?case by simp
next
  case (Cons c cs)
  then show ?case
    by (cases "split_on d cs"; cases "tl (split_on d cs)") (auto split: if_splits)
qed

lemma split_on_word: "d \<notin> set w \<Longrightarrow> split_on d w = [w]"
  by (induction w) auto

lemma split_on_append: "d \<notin> set w \<Longrightarrow> split_on d (w @ d # s) = w # split_on d s"
  by (induction w) auto

lemma split_on_join:
  assumes "ws \<noteq> []" and "\<forall>w \<in> set ws. d \<notin> set w"
  shows "split_on d (join [d] ws) = ws"
  using assms
  by (induction "[d]" ws rule: join.induct) (auto simp: split_on_word split_on_append)

lemma join_chars: "set (join sep ws) \<subseteq> set sep \<union> \<Union> (set ` set ws)"
  by (induction sep ws rule: join.induct) auto

lemma join_inj:
  assumes "join [d] xs = join [d] ys" "xs \<noteq> []" "ys \<noteq> []"
    and "\<forall>w \<in> set xs. d \<notin> set w" "\<forall>w \<in> set ys. d \<notin> set w"
  shows "xs = ys"
  using assms split_on_join by metis

section \<open>\<open>PurePosixPath\<close>\<close>

text \<open>
  A pure POSIX path is its root (\<open>""\<close>, \<open>"/"\<close>, or \<open>"//"\<close> for exactly two leading
  slashes) and its components, none empty and none \<open>"."\<close>.
\<close>

record posix_path =
  path_root :: string
  path_parts :: "string list"

definition posix_root :: "string \<Rightarrow> string" where
  "posix_root s =
     (let n = length (takeWhile (\<lambda>c. c = CHR ''/'') s)
      in if n = 0 then [] else if n = 2 then ''//'' else ''/'')"

definition keep_part :: "string \<Rightarrow> bool" where
  "keep_part p \<longleftrightarrow> p \<noteq> [] \<and> p \<noteq> ''.''"

definition pure_posix_path :: "string \<Rightarrow> posix_path" where
  "pure_posix_path s =
     \<lparr>path_root = posix_root s, path_parts = filter keep_part (split_on CHR ''/'' s)\<rparr>"

definition is_absolute :: "posix_path \<Rightarrow> bool" where
  "is_absolute p \<longleftrightarrow> path_root p \<noteq> []"

definition as_posix :: "posix_path \<Rightarrow> string" where
  "as_posix p =
     (if path_root p = [] \<and> path_parts p = [] then ''.''
      else path_root p @ join ''/'' (path_parts p))"

definition path_name :: "string list \<Rightarrow> string" where
  "path_name parts = (if parts = [] then [] else last parts)"

text \<open>\<open>PurePath.suffix\<close>: from the last dot of the name, which must not be its first or
  last character.\<close>

definition path_suffix :: "string list \<Rightarrow> string" where
  "path_suffix parts =
     (let name = path_name parts;
          tail = takeWhile (\<lambda>c. c \<noteq> CHR ''.'') (rev name)
      in if CHR ''.'' \<in> set name \<and> tail \<noteq> [] \<and> length tail + 1 < length name
         then CHR ''.'' # rev tail else [])"

lemma pure_posix_path_join:
  assumes "parts \<noteq> []" and "\<forall>p \<in> set parts. keep_part p \<and> CHR ''/'' \<notin> set p"
  shows "pure_posix_path (join ''/'' parts) = \<lparr>path_root = [], path_parts = parts\<rparr>"
proof -
  have split: "split_on CHR ''/'' (join ''/'' parts) = parts"
    using assms by (intro split_on_join) auto
  obtain c cs ps where ps: "parts = (c # cs) # ps"
    using assms by (cases parts; cases "hd parts") (auto simp: keep_part_def)
  then have "c \<noteq> CHR ''/''" using assms by auto
  moreover have "\<exists>r. join ''/'' parts = c # r"
    unfolding ps by (cases ps) auto
  ultimately have "posix_root (join ''/'' parts) = []"
    by (auto simp: posix_root_def)
  moreover have "filter keep_part parts = parts"
    using assms(2) by (simp add: filter_id_conv)
  ultimately show ?thesis
    by (simp add: pure_posix_path_def split)
qed

lemma as_posix_relative:
  "parts \<noteq> [] \<Longrightarrow> as_posix \<lparr>path_root = [], path_parts = parts\<rparr> = join ''/'' parts"
  by (simp add: as_posix_def)

section \<open>UTF-8 and line splitting\<close>

text \<open>
  \<open>bytes.decode("utf-8", errors="strict")\<close>: \<^const>\<open>None\<close> is \<open>UnicodeDecodeError\<close>.
  Overlong forms, surrogates and values above \<open>0x10FFFF\<close> are refused, as CPython does.
\<close>

definition is_cont :: "byte \<Rightarrow> bool" where
  "is_cont b \<longleftrightarrow> 0x80 \<le> unat b \<and> unat b < 0xC0"

definition cont_bits :: "byte \<Rightarrow> nat" where
  "cont_bits b = unat b - 0x80"

fun utf8_decode :: "byte list \<Rightarrow> source_text option" where
  "utf8_decode [] = Some []"
| "utf8_decode (b # bs) =
     (let n = unat b in
      if n < 0x80 then map_option ((#) n) (utf8_decode bs)
      else if n < 0xC2 then None
      else if n < 0xE0 then
        (case bs of
           b1 # r \<Rightarrow>
             if is_cont b1
             then map_option ((#) ((n - 0xC0) * 64 + cont_bits b1)) (utf8_decode r)
             else None
         | _ \<Rightarrow> None)
      else if n < 0xF0 then
        (case bs of
           b1 # b2 # r \<Rightarrow>
             (let v = (n - 0xE0) * 4096 + cont_bits b1 * 64 + cont_bits b2
              in if is_cont b1 \<and> is_cont b2 \<and> 0x800 \<le> v \<and> \<not> (0xD800 \<le> v \<and> v < 0xE000)
                 then map_option ((#) v) (utf8_decode r) else None)
         | _ \<Rightarrow> None)
      else if n < 0xF5 then
        (case bs of
           b1 # b2 # b3 # r \<Rightarrow>
             (let v = (n - 0xF0) * 262144 + cont_bits b1 * 4096 + cont_bits b2 * 64
                      + cont_bits b3
              in if is_cont b1 \<and> is_cont b2 \<and> is_cont b3 \<and> 0x10000 \<le> v \<and> v < 0x110000
                 then map_option ((#) v) (utf8_decode r) else None)
         | _ \<Rightarrow> None)
      else None)"

text \<open>\<open>decode("utf-8-sig")\<close> drops one leading byte-order mark.\<close>

definition utf8_sig_decode :: "byte list \<Rightarrow> source_text option" where
  "utf8_sig_decode bs =
     (if take 3 bs = [0xEF, 0xBB, 0xBF] then utf8_decode (drop 3 bs) else utf8_decode bs)"

definition is_line_end :: "nat \<Rightarrow> bool" where
  "is_line_end c \<longleftrightarrow>
     c \<in> {0x0A, 0x0B, 0x0C, 0x0D, 0x1C, 0x1D, 0x1E, 0x85, 0x2028, 0x2029}"

text \<open>\<open>str.splitlines()\<close>: a trailing terminator starts no further line, and \<open>\r\n\<close> is one
  terminator.\<close>

fun splitlines_from :: "source_text \<Rightarrow> source_text \<Rightarrow> source_text list" where
  "splitlines_from cur [] = (if cur = [] then [] else [cur])"
| "splitlines_from cur (c # cs) =
     (if c = 0x0D then
        (case cs of
           d # ds \<Rightarrow> if d = 0x0A then cur # splitlines_from [] ds
                     else cur # splitlines_from [] cs
         | [] \<Rightarrow> [cur])
      else if is_line_end c then cur # splitlines_from [] cs
      else splitlines_from (cur @ [c]) cs)"

definition splitlines :: "source_text \<Rightarrow> source_text list" where
  "splitlines s = splitlines_from [] s"

lemma splitlines_from_length:
  "length (splitlines_from cur s) \<le> length s + (if cur = [] then 0 else 1)"
proof (induction cur s rule: splitlines_from.induct)
  case (1 cur)
  show ?case by simp
next
  case (2 cur c cs)
  consider "c = 0x0D" "cs = []" | d ds where "c = 0x0D" "cs = d # ds"
    | "c \<noteq> 0x0D" "is_line_end c" | "c \<noteq> 0x0D" "\<not> is_line_end c"
    by (cases cs) auto
  then show ?case
  proof cases
    case 2
    then show ?thesis
      using "2.IH"(1)[OF 2(1,2)] "2.IH"(2)[OF 2(1,2)] by (cases "d = 0x0A") auto
  next
    case 3
    then show ?thesis using "2.IH"(3) by simp
  next
    case 4
    then show ?thesis using "2.IH"(4) by simp
  qed simp
qed

lemma splitlines_length: "length (splitlines s) \<le> length s"
  using splitlines_from_length [of "[]" s] by (simp add: splitlines_def)

end
