(* ===== verification/ZipGuard.thy ===== *)
theory ZipGuard
  imports PyText
begin

unbundle bit_operations_syntax

text \<open>
  \<open>app/security/zip_guard.py\<close>: validation of every member of an untrusted ZIP before a
  single byte is written, and the controlled extraction of its Python files.

  The bytes of the archive are turned into member headers and member streams by Python's
  \<open>zipfile\<close>; that parser is an argument (\<open>open_archive\<close>), as are the SHA-256 digest (\<open>sha\<close>)
  and the Unicode folding of path components (\<open>nf\<close>).  Everything the guard itself decides
  from the headers and the streams is modelled.
\<close>

section \<open>Limits, errors and records\<close>

definition MAX_UPLOAD_BYTES :: nat where "MAX_UPLOAD_BYTES = 2 * 1024 * 1024"
definition MAX_ZIP_MEMBERS :: nat where "MAX_ZIP_MEMBERS = 200"
definition MAX_MEMBER_UNCOMPRESSED_BYTES :: nat where
  "MAX_MEMBER_UNCOMPRESSED_BYTES = 1024 * 1024"
definition MAX_TOTAL_UNCOMPRESSED_BYTES :: nat where
  "MAX_TOTAL_UNCOMPRESSED_BYTES = 10 * 1024 * 1024"
definition MAX_COMPRESSION_RATIO :: nat where "MAX_COMPRESSION_RATIO = 100"
definition MAX_PYTHON_FILES :: nat where "MAX_PYTHON_FILES = 200"
definition MAX_PYTHON_LOC :: nat where "MAX_PYTHON_LOC = 50000"

definition READ_CHUNK_BYTES :: nat where "READ_CHUNK_BYTES = 64 * 1024"
definition TASK_DIRECTORY_PREFIX :: string where
  "TASK_DIRECTORY_PREFIX = ''migrationlens-zip-''"
definition IGNORED_DIRECTORY_COMPONENTS :: "string list" where
  "IGNORED_DIRECTORY_COMPONENTS =
     [''.venv'', ''venv'', ''site-packages'', ''node_modules'', ''.git'']"
definition SUPPORTED_COMPRESSION_TYPES :: "nat list" where
  "SUPPORTED_COMPRESSION_TYPES = [0, 8, 12, 14]"

datatype zip_guard_error_type =
    ARCHIVE_READ_FAILED | ARCHIVE_TOO_LARGE | INVALID_ARCHIVE | TOO_MANY_MEMBERS
  | INVALID_MEMBER_PATH | UNSAFE_MEMBER_TYPE | ENCRYPTED_MEMBER | DUPLICATE_DESTINATION
  | FILE_DIRECTORY_CONFLICT | MEMBER_TOO_LARGE | TOTAL_TOO_LARGE
  | COMPRESSION_RATIO_EXCEEDED | TOO_MANY_PYTHON_FILES | NON_UTF8_PYTHON
  | PYTHON_LOC_EXCEEDED | EXTRACTION_FAILED | CLEANUP_FAILED

record zip_guard_limits =
  max_upload_bytes :: nat
  max_members :: nat
  max_member_uncompressed_bytes :: nat
  max_total_uncompressed_bytes :: nat
  max_compression_ratio :: nat
  max_python_files :: nat
  max_python_loc :: nat

definition default_limits :: zip_guard_limits where
  "default_limits =
     \<lparr>max_upload_bytes = MAX_UPLOAD_BYTES, max_members = MAX_ZIP_MEMBERS,
      max_member_uncompressed_bytes = MAX_MEMBER_UNCOMPRESSED_BYTES,
      max_total_uncompressed_bytes = MAX_TOTAL_UNCOMPRESSED_BYTES,
      max_compression_ratio = MAX_COMPRESSION_RATIO, max_python_files = MAX_PYTHON_FILES,
      max_python_loc = MAX_PYTHON_LOC\<rparr>"

text \<open>
  The pydantic constructor: each field must be positive (\<open>gt=0\<close>) and no field may exceed
  its hard maximum (\<open>prevent_relaxed_limits\<close>).  \<open>Inl ()\<close> is the \<open>ValidationError\<close>.
\<close>

definition make_limits :: "zip_guard_limits \<Rightarrow> unit + zip_guard_limits" where
  "make_limits l =
     (if 0 < max_upload_bytes l \<and> 0 < max_members l
         \<and> 0 < max_member_uncompressed_bytes l \<and> 0 < max_total_uncompressed_bytes l
         \<and> 0 < max_compression_ratio l \<and> 0 < max_python_files l \<and> 0 < max_python_loc l
         \<and> \<not> max_upload_bytes l > MAX_UPLOAD_BYTES
         \<and> \<not> max_members l > MAX_ZIP_MEMBERS
         \<and> \<not> max_member_uncompressed_bytes l > MAX_MEMBER_UNCOMPRESSED_BYTES
         \<and> \<not> max_total_uncompressed_bytes l > MAX_TOTAL_UNCOMPRESSED_BYTES
         \<and> \<not> max_compression_ratio l > MAX_COMPRESSION_RATIO
         \<and> \<not> max_python_files l > MAX_PYTHON_FILES
         \<and> \<not> max_python_loc l > MAX_PYTHON_LOC
      then Inr l else Inl ())"

text \<open>The fields of \<open>zipfile.ZipInfo\<close> the guard reads.\<close>

record zip_info =
  orig_filename :: string
  filename :: string
  flag_bits :: "16 word"
  compress_type :: nat
  external_attr :: "32 word"
  file_size :: int
  compress_size :: int

record member_plan =
  plan_info :: zip_info
  plan_path :: "string list"
  plan_key :: "string list"
  plan_is_directory :: bool
  plan_is_python :: bool
  plan_is_ignored_python :: bool

record python_payload =
  payload_path :: "string list"
  payload_bytes :: "byte list"
  payload_line_count :: nat
  payload_sha256 :: string

record validated_archive =
  va_payloads :: "python_payload list"
  va_member_count :: nat
  va_regular_file_count :: nat
  va_directory_count :: nat
  va_total_uncompressed_bytes :: nat
  va_python_total_lines :: nat
  va_ignored_python_file_count :: nat
  va_ignored_non_python_file_count :: nat

section \<open>Member paths\<close>

text \<open>
  \<open>PureWindowsPath(s).drive or .root\<close> is non-empty exactly when, slashes read as
  backslashes, the text starts with a backslash (a root, a UNC share or an extended prefix)
  or with an ASCII letter and a colon.
\<close>

definition portable_char :: "char \<Rightarrow> char" where
  "portable_char c = (if c = CHR 0x5C then CHR ''/'' else c)"

definition has_windows_anchor :: "string \<Rightarrow> bool" where
  "has_windows_anchor s =
     (case map portable_char s of
        [] \<Rightarrow> False
      | [c] \<Rightarrow> c = CHR ''/''
      | c # d # _ \<Rightarrow> c = CHR ''/'' \<or> (is_ascii_letter c \<and> d = CHR '':''))"

definition RESERVED_NAMES :: "string list" where
  "RESERVED_NAMES =
     [''CON'', ''PRN'', ''AUX'', ''NUL'', ''CONIN$'', ''CONOUT$'']
     @ map (\<lambda>c. ''COM'' @ [c]) (''123456789'' @ [CHR 0xB9, CHR 0xB2, CHR 0xB3])
     @ map (\<lambda>c. ''LPT'' @ [c]) (''123456789'' @ [CHR 0xB9, CHR 0xB2, CHR 0xB3])"

text \<open>\<open>PureWindowsPath(component).is_reserved()\<close> for a component without separators.\<close>

definition is_reserved :: "string \<Rightarrow> bool" where
  "is_reserved component \<longleftrightarrow>
     upper (rstrip_char CHR '' '' (before CHR '':'' (before CHR ''.'' component)))
       \<in> set RESERVED_NAMES"

definition is_portable_component :: "string \<Rightarrow> bool" where
  "is_portable_component component =
     (if CHR '':'' \<in> set component
         \<or> suffix '' '' component \<or> suffix ''.'' component then False
      else if (\<exists>c \<in> set component. of_char c < (32 :: nat)) then False
      else \<not> is_reserved component)"

fun member_parts :: "string list \<Rightarrow> zip_guard_error_type + string list" where
  "member_parts [] = Inr []"
| "member_parts (component # rest) =
     (if component = [] \<or> component = ''.'' then member_parts rest
      else if component = ''..'' \<or> \<not> is_portable_component component
      then Inl INVALID_MEMBER_PATH
      else bindE (member_parts rest) (\<lambda>parts. Inr (component # parts)))"

definition canonicalize_member_path ::
  "string \<Rightarrow> zip_guard_error_type + string list" where
  "canonicalize_member_path raw_name =
     (if raw_name = [] \<or> CHR 0x00 \<in> set raw_name then Inl INVALID_MEMBER_PATH
      else if has_windows_anchor raw_name then Inl INVALID_MEMBER_PATH
      else
        (let portable_name = map portable_char raw_name
         in if prefix ''/'' portable_name then Inl INVALID_MEMBER_PATH
            else bindE (member_parts (split_on CHR ''/'' portable_name))
                   (\<lambda>parts. if parts = [] then Inl INVALID_MEMBER_PATH else Inr parts)))"

text \<open>\<open>_collision_key\<close>: \<open>nf\<close> is \<open>unicodedata.normalize("NFKC", c).casefold()\<close>.\<close>

definition collision_key :: "(string \<Rightarrow> string) \<Rightarrow> string list \<Rightarrow> string list" where
  "collision_key nf relative_path = map nf relative_path"

section \<open>Member headers\<close>

definition S_IFMT :: "32 word \<Rightarrow> 32 word" where "S_IFMT mode = mode AND 0xF000"
definition S_IFREG :: "32 word" where "S_IFREG = 0x8000"
definition S_IFDIR :: "32 word" where "S_IFDIR = 0x4000"

definition classify_member :: "zip_info \<Rightarrow> string \<Rightarrow> zip_guard_error_type + bool" where
  "classify_member info raw_name =
     (if flag_bits info AND 0x41 \<noteq> 0 then Inl ENCRYPTED_MEMBER
      else if compress_type info \<notin> set SUPPORTED_COMPRESSION_TYPES
      then Inl UNSAFE_MEMBER_TYPE
      else
        (let mode = drop_bit 16 (external_attr info);
             member_type = S_IFMT mode;
             name_marks_directory = suffix ''/'' raw_name \<or> suffix [CHR 0x5C] raw_name;
             dos_attributes = external_attr info AND 0xFFFF;
             dos_marks_directory = (dos_attributes AND 0x10 \<noteq> 0)
         in if dos_attributes AND 0x08 \<noteq> 0 then Inl UNSAFE_MEMBER_TYPE
            else if member_type \<notin> {0, S_IFREG, S_IFDIR} then Inl UNSAFE_MEMBER_TYPE
            else if member_type = S_IFREG \<and> (name_marks_directory \<or> dos_marks_directory)
            then Inl UNSAFE_MEMBER_TYPE
            else if member_type = S_IFDIR \<and> \<not> (name_marks_directory \<or> dos_marks_directory)
            then Inl UNSAFE_MEMBER_TYPE
            else Inr (member_type = S_IFDIR \<or> name_marks_directory \<or> dos_marks_directory)))"

definition validate_member_sizes ::
  "zip_info \<Rightarrow> bool \<Rightarrow> zip_guard_limits \<Rightarrow> zip_guard_error_type + unit" where
  "validate_member_sizes info is_dir limits =
     (if file_size info < 0 \<or> compress_size info < 0 then Inl INVALID_ARCHIVE
      else if is_dir \<and> (file_size info \<noteq> 0 \<or> compress_size info \<noteq> 0)
      then Inl UNSAFE_MEMBER_TYPE
      else if file_size info > int (max_member_uncompressed_bytes limits)
      then Inl MEMBER_TOO_LARGE
      else if compress_size info = 0
      then (if file_size info > 0 then Inl COMPRESSION_RATIO_EXCEEDED else Inr ())
      else if file_size info > compress_size info * int (max_compression_ratio limits)
      then Inl COMPRESSION_RATIO_EXCEEDED
      else Inr ())"

definition has_ignored_directory :: "string list \<Rightarrow> bool" where
  "has_ignored_directory parts \<longleftrightarrow>
     (\<exists>c \<in> set (butlast (map casefold parts)). c \<in> set IGNORED_DIRECTORY_COMPONENTS)"

definition make_plan ::
  "(string \<Rightarrow> string) \<Rightarrow> zip_info \<Rightarrow> string list \<Rightarrow> bool \<Rightarrow> member_plan" where
  "make_plan nf info relative_path is_dir =
     (let ignored = has_ignored_directory relative_path;
          has_python_suffix = (\<not> is_dir \<and> casefold (path_suffix relative_path) = ''.py'')
      in \<lparr>plan_info = info, plan_path = relative_path,
          plan_key = collision_key nf relative_path, plan_is_directory = is_dir,
          plan_is_python = (has_python_suffix \<and> \<not> ignored),
          plan_is_ignored_python = (has_python_suffix \<and> ignored)\<rparr>)"

text \<open>The loop over \<open>archive.infolist()\<close> of \<open>_validate_all_metadata\<close>.\<close>

fun plan_members ::
  "(string \<Rightarrow> string) \<Rightarrow> zip_guard_limits \<Rightarrow> zip_info list \<Rightarrow> member_plan list \<Rightarrow> int
     \<Rightarrow> (string list \<rightharpoonup> bool) \<Rightarrow> zip_guard_error_type + (member_plan list \<times> int)" where
  "plan_members nf limits [] plans tot destinations = Inr (plans, tot)"
| "plan_members nf limits (info # infos) plans tot destinations =
     (if orig_filename info \<noteq> filename info then Inl INVALID_MEMBER_PATH
      else
        bindE (canonicalize_member_path (orig_filename info)) (\<lambda>relative_path.
        bindE (classify_member info (orig_filename info)) (\<lambda>is_dir.
        bindE (validate_member_sizes info is_dir limits) (\<lambda>_.
          (let tot' = tot + file_size info;
               key = collision_key nf relative_path
           in if tot' > int (max_total_uncompressed_bytes limits)
              then Inl TOTAL_TOO_LARGE
              else (case destinations key of
                  Some previous_kind \<Rightarrow>
                    Inl (if previous_kind = is_dir then DUPLICATE_DESTINATION
                         else FILE_DIRECTORY_CONFLICT)
                | None \<Rightarrow>
                    plan_members nf limits infos
                      (plans @ [make_plan nf info relative_path is_dir])
                      tot' (destinations(key \<mapsto> is_dir))))))))"

definition validate_file_directory_conflicts ::
  "member_plan list \<Rightarrow> zip_guard_error_type + unit" where
  "validate_file_directory_conflicts plans =
     (let file_keys = map plan_key (filter (\<lambda>p. \<not> plan_is_directory p) plans);
          all_keys = map plan_key plans
      in if (\<exists>file_key \<in> set file_keys. \<exists>other_key \<in> set all_keys.
               length other_key > length file_key
               \<and> take (length file_key) other_key = file_key)
         then Inl FILE_DIRECTORY_CONFLICT else Inr ())"

definition validate_all_metadata ::
  "(string \<Rightarrow> string) \<Rightarrow> zip_info list \<Rightarrow> zip_guard_limits
     \<Rightarrow> zip_guard_error_type + (member_plan list \<times> int)" where
  "validate_all_metadata nf infos limits =
     (if length infos > max_members limits then Inl TOO_MANY_MEMBERS
      else
        bindE (plan_members nf limits infos [] 0 Map.empty) (\<lambda>(plans, metadata_total).
        bindE (validate_file_directory_conflicts plans) (\<lambda>_.
          if length (filter plan_is_python plans) > max_python_files limits
          then Inl TOO_MANY_PYTHON_FILES
          else Inr (plans, metadata_total))))"


section \<open>Lemmas: member paths\<close>

definition safe_component :: "string \<Rightarrow> bool" where
  "safe_component p \<longleftrightarrow>
     p \<noteq> [] \<and> p \<noteq> ''.'' \<and> p \<noteq> ''..'' \<and> CHR ''/'' \<notin> set p \<and> CHR 0x5C \<notin> set p
     \<and> CHR 0x00 \<notin> set p \<and> is_portable_component p"

lemma portable_no_colon: "is_portable_component p \<Longrightarrow> CHR '':'' \<notin> set p"
  by (auto simp: is_portable_component_def split: if_splits)

lemma member_parts_Inr:
  "member_parts cs = Inr ps \<longleftrightarrow>
     ps = filter keep_part cs \<and> (\<forall>p \<in> set ps. p \<noteq> ''..'' \<and> is_portable_component p)"
  by (induction cs arbitrary: ps) (auto simp: keep_part_def)

lemma portable_char_not_backslash [simp]: "CHR 0x5C \<noteq> portable_char c"
  by (simp add: portable_char_def)

lemma map_portable_id: "CHR 0x5C \<notin> set s \<Longrightarrow> map portable_char s = s"
  by (induction s) (auto simp: portable_char_def)

lemma canonicalize_member_path_Inr:
  "canonicalize_member_path raw = Inr ps \<longleftrightarrow>
     raw \<noteq> [] \<and> CHR 0x00 \<notin> set raw \<and> \<not> has_windows_anchor raw
     \<and> \<not> prefix ''/'' (map portable_char raw)
     \<and> ps = filter keep_part (split_on CHR ''/'' (map portable_char raw)) \<and> ps \<noteq> []
     \<and> (\<forall>p \<in> set ps. p \<noteq> ''..'' \<and> is_portable_component p)"
proof (cases "raw = [] \<or> CHR 0x00 \<in> set raw \<or> has_windows_anchor raw
      \<or> prefix ''/'' (map portable_char raw)")
  case True
  then show ?thesis
    by (elim disjE) (simp_all add: canonicalize_member_path_def Let_def)
next
  case False
  then have "canonicalize_member_path raw = Inr ps \<longleftrightarrow>
      member_parts (split_on CHR ''/'' (map portable_char raw)) = Inr ps \<and> ps \<noteq> []"
    by (auto simp: canonicalize_member_path_def Let_def)
  then show ?thesis
    using False by (simp only: member_parts_Inr) blast
qed

lemma canonicalize_safe:
  assumes "canonicalize_member_path raw = Inr ps"
  shows "ps \<noteq> [] \<and> (\<forall>p \<in> set ps. safe_component p)"
proof -
  let ?s = "map portable_char raw"
  from assms [unfolded canonicalize_member_path_Inr]
  have nul: "CHR 0x00 \<notin> set raw" and ne: "ps \<noteq> []"
    and ps: "ps = filter keep_part (split_on CHR ''/'' ?s)"
    and ok: "\<forall>p \<in> set ps. p \<noteq> ''..'' \<and> is_portable_component p"
    by blast+
  have "safe_component p" if "p \<in> set ps" for p
  proof -
    from that ps have mem: "p \<in> set (split_on CHR ''/'' ?s)" and keep: "keep_part p"
      by auto
    have "set p \<subseteq> portable_char ` set raw"
      using split_on_chars [OF mem] by simp
    moreover have "CHR 0x00 \<notin> portable_char ` set raw"
      using nul by (auto simp: portable_char_def split: if_splits)
    moreover have "CHR 0x5C \<notin> portable_char ` set raw"
      by (metis imageE portable_char_not_backslash)
    ultimately show ?thesis
      using keep ok that split_on_no_sep [OF mem]
      unfolding safe_component_def keep_part_def by blast
  qed
  with ne show ?thesis by blast
qed

lemma join_safe_head:
  assumes "ps \<noteq> []" and "\<forall>p \<in> set ps. safe_component p"
  obtains c r where "join ''/'' ps = c # r" and "c \<noteq> CHR ''/''"
proof -
  from assms obtain c cs qs where "ps = (c # cs) # qs" and "c \<noteq> CHR ''/''"
    by (cases ps; cases "hd ps") (auto simp: safe_component_def)
  then show ?thesis
    by (cases qs) (auto intro: that)
qed

lemma canonicalize_join:
  assumes ne: "ps \<noteq> []" and safe: "\<forall>p \<in> set ps. safe_component p"
  shows "canonicalize_member_path (join ''/'' ps) = Inr ps"
proof -
  let ?j = "join ''/'' ps"
  have chars: "set ?j \<subseteq> {CHR ''/''} \<union> \<Union> (set ` set ps)"
    using join_chars [of "''/''" ps] by simp
  have colon: "CHR '':'' \<notin> set ?j" and nul: "CHR 0x00 \<notin> set ?j" and bs: "CHR 0x5C \<notin> set ?j"
    using chars safe by (auto simp: safe_component_def dest: portable_no_colon)
  obtain c r where j: "?j = c # r" and c: "c \<noteq> CHR ''/''"
    using ne safe by (rule join_safe_head)
  have port: "map portable_char ?j = ?j"
    using bs by (rule map_portable_id)
  have anchor: "\<not> has_windows_anchor ?j"
    unfolding has_windows_anchor_def port using j c colon by (cases r) auto
  have split: "split_on CHR ''/'' ?j = ps"
    using ne safe by (intro split_on_join) (auto simp: safe_component_def)
  have keep: "filter keep_part ps = ps"
    using safe by (auto simp: filter_id_conv safe_component_def keep_part_def)
  have "?j \<noteq> []" and "\<not> prefix ''/'' ?j"
    using j c by simp_all
  moreover have "\<forall>p \<in> set ps. p \<noteq> ''..'' \<and> is_portable_component p"
    using safe by (simp add: safe_component_def)
  ultimately show ?thesis
    unfolding canonicalize_member_path_Inr port split keep
    using ne anchor nul by blast
qed

lemma canonicalize_idem:
  "canonicalize_member_path raw = Inr ps \<Longrightarrow>
     canonicalize_member_path (join ''/'' ps) = Inr ps"
  using canonicalize_safe canonicalize_join by blast

section \<open>Lemmas: member headers\<close>

lemma classify_member_accepted:
  assumes "classify_member info raw = Inr d"
  shows "flag_bits info AND 0x41 = 0"
    and "S_IFMT (drop_bit 16 (external_attr info)) \<in> {0, S_IFREG, S_IFDIR}"
    and "S_IFMT (drop_bit 16 (external_attr info)) = S_IFREG \<Longrightarrow> \<not> d"
    and "S_IFMT (drop_bit 16 (external_attr info)) = S_IFDIR \<Longrightarrow> d"
  using assms by (auto simp: classify_member_def Let_def S_IFREG_def S_IFDIR_def split: if_splits)

lemma validate_member_sizes_accepted:
  assumes "validate_member_sizes info d limits = Inr u"
  shows "0 \<le> file_size info"
    and "file_size info \<le> int (max_member_uncompressed_bytes limits)"
    and "file_size info \<le> compress_size info * int (max_compression_ratio limits)"
    and "d \<Longrightarrow> file_size info = 0"
  using assms by (auto simp: validate_member_sizes_def split: if_splits)

text \<open>What one member contributes, apart from the totals and the collisions.\<close>

definition member_spec ::
  "(string \<Rightarrow> string) \<Rightarrow> zip_guard_limits \<Rightarrow> zip_info \<Rightarrow> zip_guard_error_type + member_plan" where
  "member_spec nf limits info =
     (if orig_filename info \<noteq> filename info then Inl INVALID_MEMBER_PATH
      else
        bindE (canonicalize_member_path (orig_filename info)) (\<lambda>relative_path.
        bindE (classify_member info (orig_filename info)) (\<lambda>is_dir.
        bindE (validate_member_sizes info is_dir limits) (\<lambda>_.
          Inr (make_plan nf info relative_path is_dir)))))"

lemma make_plan_sel [simp]:
  "plan_info (make_plan nf i p d) = i"
  "plan_path (make_plan nf i p d) = p"
  "plan_key (make_plan nf i p d) = collision_key nf p"
  "plan_is_directory (make_plan nf i p d) = d"
  by (simp_all add: make_plan_def Let_def)

lemma member_spec_Inr:
  "member_spec nf limits info = Inr plan \<longleftrightarrow>
     orig_filename info = filename info
     \<and> canonicalize_member_path (orig_filename info) = Inr (plan_path plan)
     \<and> classify_member info (orig_filename info) = Inr (plan_is_directory plan)
     \<and> validate_member_sizes info (plan_is_directory plan) limits = Inr ()
     \<and> plan = make_plan nf info (plan_path plan) (plan_is_directory plan)"
  by (auto simp: member_spec_def)

lemma member_spec_size:
  "member_spec nf limits info = Inr plan \<Longrightarrow>
     0 \<le> file_size info \<and> file_size info \<le> int (max_member_uncompressed_bytes limits)"
  using validate_member_sizes_accepted unfolding member_spec_Inr by blast

text \<open>
  The loop accepts exactly when every member is acceptable by itself, the running total
  stays within the limit and no two members have the same collision key.
\<close>

lemma plan_members_Inr:
  assumes "tot \<le> int (max_total_uncompressed_bytes limits)"
  shows "plan_members nf limits infos plans tot dests = Inr (plans', tot') \<longleftrightarrow>
     (\<exists>new. traverseE (member_spec nf limits) infos = Inr new \<and> plans' = plans @ new
        \<and> tot' = tot + sum_list (map file_size infos)
        \<and> tot' \<le> int (max_total_uncompressed_bytes limits)
        \<and> distinct (map plan_key new) \<and> (\<forall>p \<in> set new. dests (plan_key p) = None))"
  using assms
proof (induction infos arbitrary: plans tot dests)
  case Nil
  then show ?case by auto
next
  case (Cons info infos)
  show ?case
  proof (cases "member_spec nf limits info")
    case (Inl e)
    then have "plan_members nf limits (info # infos) plans tot dests \<noteq> Inr (plans', tot')"
      by (auto simp: member_spec_def Let_def)
    with Inl show ?thesis by simp
  next
    case (Inr plan)
    let ?max = "int (max_total_uncompressed_bytes limits)"
    from Inr have parts:
      "orig_filename info = filename info"
      "canonicalize_member_path (filename info) = Inr (plan_path plan)"
      "classify_member info (filename info) = Inr (plan_is_directory plan)"
      "validate_member_sizes info (plan_is_directory plan) limits = Inr ()"
      "make_plan nf info (plan_path plan) (plan_is_directory plan) = plan"
      by (auto simp: member_spec_Inr)
    have key: "plan_key plan = collision_key nf (plan_path plan)"
      using parts(5) by (metis make_plan_sel(3))
    have pos: "0 \<le> file_size info"
      using member_spec_size [OF Inr] by simp
    have unfold: "plan_members nf limits (info # infos) plans tot dests =
      (if tot + file_size info > ?max then Inl TOTAL_TOO_LARGE
       else (case dests (plan_key plan) of
           Some k \<Rightarrow> Inl (if k = plan_is_directory plan then DUPLICATE_DESTINATION
                          else FILE_DIRECTORY_CONFLICT)
         | None \<Rightarrow> plan_members nf limits infos (plans @ [plan]) (tot + file_size info)
                    (dests(plan_key plan \<mapsto> plan_is_directory plan))))"
      using parts by (auto simp: key Let_def split: option.split)
    have rest: "0 \<le> sum_list (map file_size infos)"
      if "traverseE (member_spec nf limits) infos = Inr new" for new
      using that
    proof (induction infos arbitrary: new)
      case (Cons i js)
      then obtain q qs where "member_spec nf limits i = Inr q"
        and "traverseE (member_spec nf limits) js = Inr qs" by auto
      then show ?case
        using Cons.IH [of qs] member_spec_size [of nf limits i q] by simp
    qed simp
    show ?thesis
    proof (cases "tot + file_size info \<le> ?max \<and> dests (plan_key plan) = None")
      case True
      have disj: "(\<forall>p \<in> set new. (dests(plan_key plan \<mapsto> d)) (plan_key p) = None) \<longleftrightarrow>
          plan_key plan \<notin> plan_key ` set new \<and> (\<forall>p \<in> set new. dests (plan_key p) = None)"
        for new d
        by (auto simp: fun_upd_apply image_iff split: if_splits)
      have step: "plan_members nf limits infos (plans @ [plan]) (tot + file_size info)
            (dests(plan_key plan \<mapsto> plan_is_directory plan)) = Inr (plans', tot') \<longleftrightarrow>
          (\<exists>new. traverseE (member_spec nf limits) infos = Inr new
             \<and> plans' = plans @ [plan] @ new
             \<and> tot' = tot + file_size info + sum_list (map file_size infos) \<and> tot' \<le> ?max
             \<and> distinct (map plan_key new) \<and> plan_key plan \<notin> plan_key ` set new
             \<and> (\<forall>p \<in> set new. dests (plan_key p) = None))"
        using True by (subst Cons.IH) (simp_all only: disj append_assoc)
      show ?thesis
        unfolding unfold using True by (auto simp: Inr step)
    next
      case False
      then show ?thesis
        by (subst unfold) (auto simp: Inr split: option.splits dest: rest)
    qed
  qed
qed

lemma file_directory_conflicts_Inr:
  "validate_file_directory_conflicts plans = Inr u \<longleftrightarrow>
     (\<forall>p \<in> set plans. \<forall>q \<in> set plans.
        \<not> plan_is_directory p \<longrightarrow> \<not> strict_prefix (plan_key p) (plan_key q))"
proof -
  have "length b > length a \<and> take (length a) b = a \<longleftrightarrow> strict_prefix a b"
    for a b :: "string list"
    by (metis append_eq_conv_conj append_take_drop_id leD nless_le prefixE prefixI
        prefix_length_le prefix_length_less strict_prefix_def take_all_iff)
  then show ?thesis
    by (auto simp: validate_file_directory_conflicts_def Let_def)
qed

lemma validate_all_metadata_Inr:
  "validate_all_metadata nf infos limits = Inr (plans, tot) \<longleftrightarrow>
     length infos \<le> max_members limits
     \<and> traverseE (member_spec nf limits) infos = Inr plans
     \<and> tot = sum_list (map file_size infos)
     \<and> tot \<le> int (max_total_uncompressed_bytes limits)
     \<and> distinct (map plan_key plans)
     \<and> validate_file_directory_conflicts plans = Inr ()
     \<and> length (filter plan_is_python plans) \<le> max_python_files limits"
proof (cases "traverseE (member_spec nf limits) infos")
  case (Inl e)
  then show ?thesis
    by (auto simp: validate_all_metadata_def plan_members_Inr split: if_splits)
next
  case (Inr a)
  then show ?thesis
    by (auto simp: validate_all_metadata_def plan_members_Inr split: if_splits)
qed

lemma plan_of_spec:
  assumes "traverseE (member_spec nf limits) infos = Inr plans"
  shows "map plan_info plans = infos"
    and "\<And>p. p \<in> set plans \<Longrightarrow> member_spec nf limits (plan_info p) = Inr p"
proof -
  from assms have l2: "list_all2 (\<lambda>i p. member_spec nf limits i = Inr p) infos plans"
    by (simp add: traverseE_Inr)
  then show "map plan_info plans = infos"
    by (induction rule: list_all2_induct) (auto simp: member_spec_Inr, metis make_plan_sel(1))
  from l2 show "member_spec nf limits (plan_info p) = Inr p" if "p \<in> set plans" for p
    using that
    by (induction rule: list_all2_induct) (auto simp: member_spec_Inr, (metis make_plan_sel(1))+)
qed

end
