(* ===== verification/BoundedRead.thy ===== *)
theory BoundedRead
  imports PyText
begin

text \<open>
  Byte streams and the bounded read loop that \<open>app/security/zip_guard.py\<close> (archive and
  members) and \<open>app/scanner/ast_scanner.py\<close> (extracted sources) share in shape, with the
  contract under which it returns the whole stream or raises.

  A stream is the list of the bytes it still holds; \<open>read(n)\<close> returns the next \<open>n\<close> of them
  (fewer at the end), as \<open>BufferedReader\<close> and \<open>ZipExtFile\<close> do.  A damaged stream raises as
  soon as a read reaches the end of what could be recovered.
\<close>

record byte_stream =
  unread :: "byte list"
  broken :: bool

definition read_stream :: "nat \<Rightarrow> byte_stream \<Rightarrow> (byte list \<times> byte_stream) option" where
  "read_stream n s =
     (if broken s \<and> length (unread s) < n then None
      else Some (take n (unread s), s\<lparr>unread := drop n (unread s)\<rparr>))"

lemma read_stream_Some:
  "read_stream n s = Some (chunk, s') \<longleftrightarrow>
     (broken s \<longrightarrow> n \<le> length (unread s))
     \<and> chunk = take n (unread s) \<and> s' = s\<lparr>unread := drop n (unread s)\<rparr>"
  by (auto simp: read_stream_def)

text \<open>
  The loop of \<open>_read_archive_bytes\<close>, \<open>_read_member_bounded\<close> and \<open>_read_exact_bounded\<close>: read,
  stop on an empty chunk, count, check the count, keep the chunk.  \<open>Inl None\<close> is an exception
  of the stream, \<open>Inl (Some e)\<close> one of the check.
\<close>

function pull ::
  "(nat \<Rightarrow> nat) \<Rightarrow> (nat \<Rightarrow> 'e + unit) \<Rightarrow> byte_stream \<Rightarrow> nat \<Rightarrow> byte list
     \<Rightarrow> 'e option + (byte list \<times> nat)" where
  "pull read_size check source actual_size chunks =
     (case read_stream (read_size actual_size) source of
        None \<Rightarrow> Inl None
      | Some (chunk, source') \<Rightarrow>
          if chunk = [] then Inr (chunks, actual_size)
          else
            (let actual_size' = actual_size + length chunk
             in case check actual_size' of
                  Inl e \<Rightarrow> Inl (Some e)
                | Inr _ \<Rightarrow> pull read_size check source' actual_size' (chunks @ chunk)))"
  by pat_completeness auto

termination
  by (relation "measure (\<lambda>(_, _, s, _, _). length (unread s))")
    (auto simp: read_stream_Some)

declare pull.simps [simp del]

section \<open>The contract of a bounded read loop\<close>

lemma pull_end:
  "unread s = [] \<Longrightarrow> 0 < read_size n \<Longrightarrow>
     pull read_size check s n acc = (if broken s then Inl None else Inr (acc, n))"
  by (subst pull.simps) (simp add: read_stream_def)

lemma pull_step:
  assumes "unread s \<noteq> []" and "0 < read_size n"
  shows "pull read_size check s n acc =
     (if broken s \<and> length (unread s) < read_size n then Inl None
      else (let chunk = take (read_size n) (unread s)
            in case check (n + length chunk) of
                 Inl e \<Rightarrow> Inl (Some e)
               | Inr _ \<Rightarrow> pull read_size check (s\<lparr>unread := drop (read_size n) (unread s)\<rparr>)
                            (n + length chunk) (acc @ chunk)))"
proof -
  have "take (read_size n) (unread s) \<noteq> []"
    using assms by simp
  then show ?thesis
    by (subst pull.simps) (simp add: read_stream_def Let_def del: take_eq_Nil length_take)
qed

text \<open>
  A client needs two things of the pair (read size, check): it always asks for at least one
  byte, and the check accepts exactly the counts of a downward closed set.  Then the loop
  returns the whole stream when the stream is intact and its length acceptable, and raises
  otherwise; it can neither truncate nor exceed.
\<close>

locale bounded_reader =
  fixes read_size :: "nat \<Rightarrow> nat"
    and check :: "nat \<Rightarrow> 'e + unit"
    and within :: "nat \<Rightarrow> bool"
  assumes read_size_pos: "0 < read_size n"
    and check_within: "check n = Inr () \<longleftrightarrow> within n"
    and within_mono: "within n \<Longrightarrow> m \<le> n \<Longrightarrow> within m"
begin

lemma pull_Inr:
  "pull read_size check s n acc = Inr (bs, m) \<longleftrightarrow>
     \<not> broken s \<and> bs = acc @ unread s \<and> m = n + length (unread s)
     \<and> (unread s \<noteq> [] \<longrightarrow> within m)"
proof (induction "length (unread s)" arbitrary: s n acc rule: less_induct)
  case less
  let ?k = "read_size n"
  let ?c = "take ?k (unread s)" and ?s = "s\<lparr>unread := drop ?k (unread s)\<rparr>"
  show ?case
  proof (cases "unread s = []")
    case True
    then show ?thesis
      by (auto simp: pull_end read_size_pos)
  next
    case False
    have shorter: "length (unread ?s) < length (unread s)"
      using False read_size_pos [of n] by simp
    note IH = less [OF shorter, of "n + length ?c" "acc @ ?c"]
    have len: "n + length ?c + length (drop ?k (unread s)) = n + length (unread s)"
      by simp
    have all: "drop ?k (unread s) = [] \<Longrightarrow> n + length ?c = n + length (unread s)"
      by simp
    have cat: "(acc @ ?c) @ drop ?k (unread s) = acc @ unread s"
      by simp
    have mono: "within (n + length (unread s)) \<Longrightarrow> within (n + length ?c)"
      by (erule within_mono) simp
    show ?thesis
    proof (cases "check (n + length ?c)")
      case (Inl e)
      then have "\<not> within (n + length (unread s))"
        using mono check_within [of "n + length ?c"] by auto
      with Inl False show ?thesis
        by (auto simp: pull_step read_size_pos Let_def simp del: length_take)
    next
      case (Inr u)
      then have within: "within (n + length ?c)"
        using check_within [of "n + length ?c"] by auto
      have "pull read_size check s n acc = Inr (bs, m) \<longleftrightarrow>
          \<not> (broken s \<and> length (unread s) < ?k)
          \<and> pull read_size check ?s (n + length ?c) (acc @ ?c) = Inr (bs, m)"
        using False Inr by (simp add: pull_step read_size_pos Let_def del: length_take)
      also have "\<dots> \<longleftrightarrow> \<not> broken s \<and> bs = acc @ unread s \<and> m = n + length (unread s)
          \<and> (drop ?k (unread s) \<noteq> [] \<longrightarrow> within m)"
        unfolding IH using cat len by (auto simp del: length_take length_drop)
      also have "\<dots> \<longleftrightarrow> \<not> broken s \<and> bs = acc @ unread s \<and> m = n + length (unread s)
          \<and> (unread s \<noteq> [] \<longrightarrow> within m)"
        using within all False by metis
      finally show ?thesis .
    qed
  qed
qed

lemma pull_error:
  "pull read_size check s n acc = Inl e \<Longrightarrow>
     e = None \<or> (\<exists>t k. e = Some t \<and> check k = Inl t)"
proof (induction "length (unread s)" arbitrary: s n acc rule: less_induct)
  case less
  show ?case
  proof (cases "unread s = []")
    case True
    with less.prems show ?thesis
      by (simp add: pull_end read_size_pos split: if_splits)
  next
    case False
    then have shorter: "length (unread (s\<lparr>unread := drop (read_size n) (unread s)\<rparr>))
        < length (unread s)"
      using read_size_pos [of n] by simp
    from False less.prems less.hyps [OF shorter] show ?thesis
      by (auto simp: pull_step read_size_pos Let_def split: if_splits sum.splits
          simp del: length_take)
  qed
qed

lemma pull_total:
  "\<not> broken s \<Longrightarrow> within (n + length (unread s)) \<Longrightarrow>
     pull read_size check s n acc = Inr (acc @ unread s, n + length (unread s))"
  by (simp add: pull_Inr)

end

end
