(* ===== verification/ZipReader.thy ===== *)
theory ZipReader
  imports ZipGuard BoundedRead
begin

text \<open>
  \<open>app/security/zip_guard.py\<close>, second part: the bounded read loops over untrusted streams,
  the check of every member's real size, encoding and line count, and the inventory that
  \<open>_validate_archive\<close> hands to the extraction.
\<close>

section \<open>Exceptions\<close>

text \<open>
  \<open>LibraryError\<close> stands for the exceptions of \<open>zipfile\<close>, \<open>zlib\<close>, \<open>lzma\<close> and the operating
  system (\<open>BadZipFile\<close>, \<open>EOFError\<close>, \<open>OSError\<close> ...), \<open>RuntimeErr\<close> for \<open>RuntimeError\<close> and
  \<open>ValidationErr\<close> for pydantic's.
\<close>

datatype guard_exn =
    GuardError zip_guard_error_type | LibraryError | RuntimeErr | ValidationErr

fun guarded :: "zip_guard_error_type + 'a \<Rightarrow> guard_exn + 'a" where
  "guarded (Inl e) = Inl (GuardError e)"
| "guarded (Inr x) = Inr x"

lemma guarded_Inr [simp]: "guarded m = Inr x \<longleftrightarrow> m = Inr x"
  by (cases m) auto

lemma guarded_Inl: "guarded m = Inl e \<longleftrightarrow> (\<exists>t. e = GuardError t \<and> m = Inl t)"
  by (cases m) auto

definition bounded_read_size :: "int \<Rightarrow> nat" where
  "bounded_read_size remaining = min READ_CHUNK_BYTES (nat (max (remaining + 1) 1))"

text \<open>The source of an archive: the bytes themselves or a file to open.\<close>

datatype archive_source = SourceBytes "byte list" | SourcePath "byte_stream option"

definition check_upload :: "zip_guard_limits \<Rightarrow> nat \<Rightarrow> zip_guard_error_type + unit" where
  "check_upload limits n =
     raise_if (n > max_upload_bytes limits) ARCHIVE_TOO_LARGE"

definition archive_read_size :: "zip_guard_limits \<Rightarrow> nat \<Rightarrow> nat" where
  "archive_read_size limits tot = min READ_CHUNK_BYTES (max_upload_bytes limits - tot + 1)"

fun read_archive_bytes ::
  "archive_source \<Rightarrow> zip_guard_limits \<Rightarrow> guard_exn + byte list" where
  "read_archive_bytes (SourceBytes bs) limits =
     (if length bs > max_upload_bytes limits then Inl (GuardError ARCHIVE_TOO_LARGE)
      else Inr bs)"
| "read_archive_bytes (SourcePath None) limits = Inl (GuardError ARCHIVE_READ_FAILED)"
| "read_archive_bytes (SourcePath (Some stream)) limits =
     (case pull (archive_read_size limits) (check_upload limits) stream 0 [] of
        Inr (bs, _) \<Rightarrow> Inr bs
      | Inl (Some e) \<Rightarrow> Inl (GuardError e)
      | Inl None \<Rightarrow> Inl (GuardError ARCHIVE_READ_FAILED))"

section \<open>Members\<close>

text \<open>What \<open>zipfile\<close> makes of the bytes: the headers, and the stream of each member
  (\<^const>\<open>None\<close> when \<open>open\<close> raises).\<close>

record zip_archive =
  infolist :: "zip_info list"
  open_member :: "zip_info \<Rightarrow> byte_stream option"

definition check_member ::
  "zip_guard_limits \<Rightarrow> nat \<Rightarrow> nat \<Rightarrow> zip_guard_error_type + unit" where
  "check_member limits total_before n =
     (if n > max_member_uncompressed_bytes limits then Inl MEMBER_TOO_LARGE
      else if total_before + n > max_total_uncompressed_bytes limits then Inl TOTAL_TOO_LARGE
      else Inr ())"

definition member_read_size :: "zip_guard_limits \<Rightarrow> nat \<Rightarrow> nat" where
  "member_read_size limits n =
     bounded_read_size (int (max_member_uncompressed_bytes limits) - int n)"

definition read_member_bounded ::
  "zip_archive \<Rightarrow> member_plan \<Rightarrow> zip_guard_limits \<Rightarrow> nat
     \<Rightarrow> guard_exn + (byte list option \<times> nat)" where
  "read_member_bounded archive plan limits total_before =
     (case open_member archive (plan_info plan) of
        None \<Rightarrow> Inl LibraryError
      | Some source \<Rightarrow>
          (case pull (member_read_size limits) (check_member limits total_before) source 0 [] of
             Inl None \<Rightarrow> Inl LibraryError
           | Inl (Some e) \<Rightarrow> Inl (GuardError e)
           | Inr (bs, actual_size) \<Rightarrow>
               Inr (if plan_is_python plan then Some bs else None, actual_size)))"

text \<open>The loop of \<open>_read_and_validate_all_members\<close> over the plans.\<close>

fun read_members ::
  "(byte list \<Rightarrow> string) \<Rightarrow> zip_archive \<Rightarrow> zip_guard_limits \<Rightarrow> member_plan list
     \<Rightarrow> python_payload list \<Rightarrow> nat \<Rightarrow> nat
     \<Rightarrow> guard_exn + (python_payload list \<times> nat \<times> nat)" where
  "read_members sha archive limits [] payloads actual_total python_lines =
     Inr (payloads, actual_total, python_lines)"
| "read_members sha archive limits (plan # plans) payloads actual_total python_lines =
     (if plan_is_directory plan
      then read_members sha archive limits plans payloads actual_total python_lines
      else
        bindE (read_member_bounded archive plan limits actual_total)
          (\<lambda>(payload, actual_size).
          (let actual_total' = actual_total + actual_size
           in if int actual_size \<noteq> file_size (plan_info plan)
              then Inl (GuardError INVALID_ARCHIVE)
              else if \<not> plan_is_python plan
              then read_members sha archive limits plans payloads actual_total' python_lines
              else (case payload of
                  None \<Rightarrow> Inl RuntimeErr
                | Some bs \<Rightarrow>
                    (case utf8_sig_decode bs of
                       None \<Rightarrow> Inl (GuardError NON_UTF8_PYTHON)
                     | Some source_text \<Rightarrow>
                         (let line_count = length (splitlines source_text);
                              python_lines' = python_lines + line_count
                          in if python_lines' > max_python_loc limits
                             then Inl (GuardError PYTHON_LOC_EXCEEDED)
                             else read_members sha archive limits plans
                               (payloads @
                                 [\<lparr>payload_path = plan_path plan, payload_bytes = bs,
                                   payload_line_count = line_count,
                                   payload_sha256 = sha bs\<rparr>])
                               actual_total' python_lines'))))))"

definition payload_posix :: "python_payload \<Rightarrow> string" where
  "payload_posix p = join ''/'' (payload_path p)"

definition read_and_validate_all_members ::
  "(byte list \<Rightarrow> string) \<Rightarrow> zip_archive \<Rightarrow> member_plan list \<Rightarrow> int \<Rightarrow> zip_guard_limits
     \<Rightarrow> guard_exn + validated_archive" where
  "read_and_validate_all_members sha archive plans metadata_total limits =
     bindE (read_members sha archive limits plans [] 0 0)
       (\<lambda>(payloads, actual_total, python_lines).
       if int actual_total \<noteq> metadata_total then Inl (GuardError INVALID_ARCHIVE)
       else
         (let regular = length (filter (\<lambda>p. \<not> plan_is_directory p) plans)
          in Inr \<lparr>va_payloads = sort_key payload_posix payloads,
                  va_member_count = length plans,
                  va_regular_file_count = regular,
                  va_directory_count = length plans - regular,
                  va_total_uncompressed_bytes = actual_total,
                  va_python_total_lines = python_lines,
                  va_ignored_python_file_count =
                    length (filter plan_is_ignored_python plans),
                  va_ignored_non_python_file_count =
                    length (filter (\<lambda>p. \<not> plan_is_directory p \<and> \<not> plan_is_python p
                                        \<and> \<not> plan_is_ignored_python p) plans)\<rparr>))"

fun library_as_invalid :: "guard_exn + 'a \<Rightarrow> guard_exn + 'a" where
  "library_as_invalid (Inl LibraryError) = Inl (GuardError INVALID_ARCHIVE)"
| "library_as_invalid r = r"

definition validate_archive ::
  "(string \<Rightarrow> string) \<Rightarrow> (byte list \<Rightarrow> string) \<Rightarrow> (byte list \<Rightarrow> zip_archive option)
     \<Rightarrow> byte list \<Rightarrow> zip_guard_limits \<Rightarrow> guard_exn + validated_archive" where
  "validate_archive nf sha open_archive archive_bytes limits =
     library_as_invalid
       (case open_archive archive_bytes of
          None \<Rightarrow> Inl LibraryError
        | Some archive \<Rightarrow>
            bindE (guarded (validate_all_metadata nf (infolist archive) limits))
              (\<lambda>(plans, metadata_total).
                 read_and_validate_all_members sha archive plans metadata_total limits))"

section \<open>The readers meet the contract of the loop\<close>

interpretation upload_reader:
  bounded_reader "archive_read_size limits" "check_upload limits"
    "\<lambda>n. n \<le> max_upload_bytes limits"
  for limits
  by unfold_locales (auto simp: archive_read_size_def READ_CHUNK_BYTES_def check_upload_def
      raise_if_def)

interpretation member_reader:
  bounded_reader "member_read_size limits" "check_member limits total_before"
    "\<lambda>n. n \<le> max_member_uncompressed_bytes limits
          \<and> total_before + n \<le> max_total_uncompressed_bytes limits"
  for limits total_before
  by unfold_locales
    (auto simp: member_read_size_def bounded_read_size_def READ_CHUNK_BYTES_def check_member_def)

section \<open>What the readers return\<close>

lemma read_archive_bytes_Inr:
  "read_archive_bytes src limits = Inr bs \<longleftrightarrow>
     length bs \<le> max_upload_bytes limits
     \<and> (src = SourceBytes bs \<or> src = SourcePath (Some \<lparr>unread = bs, broken = False\<rparr>))"
proof (cases src)
  case (SourceBytes x)
  then show ?thesis by auto
next
  case (SourcePath x)
  show ?thesis
  proof (cases x)
    case None
    with SourcePath show ?thesis by auto
  next
    case (Some st)
    have "read_archive_bytes src limits = Inr bs \<longleftrightarrow>
        (\<exists>m. pull (archive_read_size limits) (check_upload limits) st 0 [] = Inr (bs, m))"
      using Some SourcePath by (auto split: sum.splits option.splits)
    also have "\<dots> \<longleftrightarrow> \<not> broken st \<and> bs = unread st \<and> length bs \<le> max_upload_bytes limits"
      by (auto simp: upload_reader.pull_Inr)
    finally show ?thesis
      using Some SourcePath by auto
  qed
qed

lemma read_member_bounded_Inr:
  "read_member_bounded archive plan limits prior = Inr (payload, n) \<longleftrightarrow>
     (\<exists>bs. open_member archive (plan_info plan) = Some \<lparr>unread = bs, broken = False\<rparr>
        \<and> n = length bs \<and> payload = (if plan_is_python plan then Some bs else None)
        \<and> (bs \<noteq> [] \<longrightarrow> n \<le> max_member_uncompressed_bytes limits
              \<and> prior + n \<le> max_total_uncompressed_bytes limits))"
proof (cases "open_member archive (plan_info plan)")
  case None
  then show ?thesis by (simp add: read_member_bounded_def)
next
  case (Some st)
  then have "read_member_bounded archive plan limits prior = Inr (payload, n) \<longleftrightarrow>
      (\<exists>bs. pull (member_read_size limits) (check_member limits prior) st 0 [] = Inr (bs, n)
         \<and> payload = (if plan_is_python plan then Some bs else None))"
    by (auto simp: read_member_bounded_def split: sum.splits option.splits)
  with Some show ?thesis
    by (cases st) (auto simp: member_reader.pull_Inr)
qed

text \<open>What one Python member must be: its stream intact, as long as its header says, and
  UTF-8 text.\<close>

definition payload_of ::
  "(byte list \<Rightarrow> string) \<Rightarrow> zip_archive \<Rightarrow> member_plan \<Rightarrow> python_payload \<Rightarrow> bool" where
  "payload_of sha archive plan p \<longleftrightarrow>
     open_member archive (plan_info plan) = Some \<lparr>unread = payload_bytes p, broken = False\<rparr>
     \<and> int (length (payload_bytes p)) = file_size (plan_info plan)
     \<and> payload_path p = plan_path plan
     \<and> (\<exists>t. utf8_sig_decode (payload_bytes p) = Some t
            \<and> payload_line_count p = length (splitlines t))
     \<and> payload_sha256 p = sha (payload_bytes p)"

lemma read_members_Inr:
  assumes "read_members sha archive limits plans payloads tot lines =
             Inr (payloads', tot', lines')"
  shows "\<exists>new. payloads' = payloads @ new
     \<and> list_all2 (payload_of sha archive)
          (filter (\<lambda>p. \<not> plan_is_directory p \<and> plan_is_python p) plans) new
     \<and> int tot' = int tot +
          sum_list (map (file_size \<circ> plan_info) (filter (\<lambda>p. \<not> plan_is_directory p) plans))
     \<and> lines' = lines + sum_list (map payload_line_count new)
     \<and> (new \<noteq> [] \<longrightarrow> lines' \<le> max_python_loc limits)"
  using assms
proof (induction plans arbitrary: payloads tot lines)
  case Nil
  then show ?case by simp
next
  case (Cons plan plans)
  show ?case
  proof (cases "plan_is_directory plan")
    case True
    with Cons show ?thesis by simp
  next
    case False
    with Cons.prems obtain payload n where
      r: "read_member_bounded archive plan limits tot = Inr (payload, n)"
      and size: "int n = file_size (plan_info plan)"
      by (auto simp: Let_def split: if_splits)
    show ?thesis
    proof (cases "plan_is_python plan")
      case nopy: False
      with Cons.prems False r size
      have rest: "read_members sha archive limits plans payloads (tot + n) lines =
          Inr (payloads', tot', lines')"
        by (simp add: Let_def)
      from Cons.IH [OF rest] False nopy size show ?thesis
        by auto
    next
      case True
      with r obtain bs where
        bs: "open_member archive (plan_info plan) = Some \<lparr>unread = bs, broken = False\<rparr>"
        "payload = Some bs" "n = length bs"
        by (auto simp: read_member_bounded_Inr)
      with Cons.prems False True r size obtain t where
        t: "utf8_sig_decode bs = Some t"
        and loc: "\<not> lines + length (splitlines t) > max_python_loc limits"
        and rest: "read_members sha archive limits plans
           (payloads @ [\<lparr>payload_path = plan_path plan, payload_bytes = bs,
              payload_line_count = length (splitlines t), payload_sha256 = sha bs\<rparr>])
           (tot + n) (lines + length (splitlines t)) = Inr (payloads', tot', lines')"
        by (auto simp: Let_def split: option.splits if_splits)
      let ?p = "\<lparr>payload_path = plan_path plan, payload_bytes = bs,
              payload_line_count = length (splitlines t), payload_sha256 = sha bs\<rparr>"
      from Cons.IH [OF rest] obtain new where
        new: "payloads' = (payloads @ [?p]) @ new"
        "list_all2 (payload_of sha archive)
           (filter (\<lambda>p. \<not> plan_is_directory p \<and> plan_is_python p) plans) new"
        "int tot' = int (tot + n) +
           sum_list (map (file_size \<circ> plan_info) (filter (\<lambda>p. \<not> plan_is_directory p) plans))"
        "lines' = lines + length (splitlines t) + sum_list (map payload_line_count new)"
        "new \<noteq> [] \<longrightarrow> lines' \<le> max_python_loc limits"
        by blast
      have p: "payload_of sha archive plan ?p"
        using bs t size by (simp add: payload_of_def)
      show ?thesis
        by (rule exI [of _ "?p # new"]) (use new p False True size loc in \<open>cases new; auto simp: comp_def\<close>)
    qed
  qed
qed

section \<open>The validated inventory\<close>

lemma library_as_invalid_Inr [simp]: "library_as_invalid r = Inr x \<longleftrightarrow> r = Inr x"
  by (cases r rule: library_as_invalid.cases) auto

lemma library_as_invalid_Inl: "library_as_invalid r \<noteq> Inl LibraryError"
  by (cases r rule: library_as_invalid.cases) auto

lemma validate_archive_Inr:
  "validate_archive nf sha open_archive bytes limits = Inr va \<longleftrightarrow>
     (\<exists>archive plans tot. open_archive bytes = Some archive
        \<and> validate_all_metadata nf (infolist archive) limits = Inr (plans, tot)
        \<and> read_and_validate_all_members sha archive plans tot limits = Inr va)"
  by (auto simp: validate_archive_def split: option.splits)

lemma read_and_validate_Inr:
  "read_and_validate_all_members sha archive plans tot limits = Inr va \<longleftrightarrow>
     (\<exists>payloads n lines.
        read_members sha archive limits plans [] 0 0 = Inr (payloads, n, lines)
        \<and> int n = tot
        \<and> va = \<lparr>va_payloads = sort_key payload_posix payloads,
                va_member_count = length plans,
                va_regular_file_count = length (filter (\<lambda>p. \<not> plan_is_directory p) plans),
                va_directory_count =
                  length plans - length (filter (\<lambda>p. \<not> plan_is_directory p) plans),
                va_total_uncompressed_bytes = n, va_python_total_lines = lines,
                va_ignored_python_file_count =
                  length (filter plan_is_ignored_python plans),
                va_ignored_non_python_file_count =
                  length (filter (\<lambda>p. \<not> plan_is_directory p \<and> \<not> plan_is_python p
                                      \<and> \<not> plan_is_ignored_python p) plans)\<rparr>)"
  by (auto simp: read_and_validate_all_members_def Let_def split: if_splits)

lemma make_plan_python:
  "plan_is_python (make_plan nf i p d) \<longleftrightarrow>
     \<not> d \<and> casefold (path_suffix p) = ''.py'' \<and> \<not> has_ignored_directory p"
  by (auto simp: make_plan_def Let_def)

lemma spec_plan:
  assumes "member_spec nf limits info = Inr p"
  shows "plan_path p \<noteq> []" and "\<forall>c \<in> set (plan_path p). safe_component c"
    and "plan_key p = map nf (plan_path p)"
    and "plan_is_python p \<Longrightarrow> \<not> plan_is_directory p \<and> casefold (path_suffix (plan_path p)) = ''.py''
            \<and> \<not> has_ignored_directory (plan_path p)"
proof -
  from assms have p: "canonicalize_member_path (orig_filename info) = Inr (plan_path p)"
    "p = make_plan nf info (plan_path p) (plan_is_directory p)"
    by (auto simp: member_spec_Inr)
  from canonicalize_safe [OF p(1)]
  show "plan_path p \<noteq> []" and "\<forall>c \<in> set (plan_path p). safe_component c" by auto
  show "plan_key p = map nf (plan_path p)"
    by (subst p(2)) (simp add: collision_key_def)
  show "plan_is_python p \<Longrightarrow> \<not> plan_is_directory p \<and> casefold (path_suffix (plan_path p)) = ''.py''
            \<and> \<not> has_ignored_directory (plan_path p)"
    by (subst (asm) p(2)) (simp add: make_plan_python)
qed

text \<open>The paths of an accepted inventory, before sorting: pairwise different after folding,
  no one a directory prefix of another.\<close>

definition clash_free :: "(string \<Rightarrow> string) \<Rightarrow> string list list \<Rightarrow> bool" where
  "clash_free nf paths \<longleftrightarrow>
     distinct (map (map nf) paths)
     \<and> (\<forall>a \<in> set paths. \<forall>b \<in> set paths. \<not> strict_prefix (map nf a) (map nf b))"

definition python_path :: "string list \<Rightarrow> bool" where
  "python_path p \<longleftrightarrow> p \<noteq> [] \<and> (\<forall>c \<in> set p. safe_component c)
     \<and> casefold (path_suffix p) = ''.py'' \<and> \<not> has_ignored_directory p"

lemma python_path_join_inj:
  "python_path p \<Longrightarrow> python_path q \<Longrightarrow> join ''/'' p = join ''/'' q \<Longrightarrow> p = q"
  by (rule join_inj) (auto simp: python_path_def safe_component_def)

lemma list_all2_map_eq:
  "list_all2 P xs ys \<Longrightarrow> (\<And>x y. P x y \<Longrightarrow> f x = g y) \<Longrightarrow> map g ys = map f xs"
  by (induction rule: list_all2_induct) auto

lemma list_all2_in2:
  "list_all2 P xs ys \<Longrightarrow> y \<in> set ys \<Longrightarrow> \<exists>x \<in> set xs. P x y"
  by (induction rule: list_all2_induct) auto

lemma list_all2_satisfying:
  "list_all2 P xs ys \<Longrightarrow> (\<And>x y. x \<in> set xs \<Longrightarrow> P x y \<Longrightarrow> Q y) \<Longrightarrow> y \<in> set ys \<Longrightarrow> Q y"
  by (drule (1) list_all2_in2) blast

text \<open>Everything an accepted archive went through.\<close>

definition accepted ::
  "(string \<Rightarrow> string) \<Rightarrow> (byte list \<Rightarrow> string) \<Rightarrow> zip_guard_limits \<Rightarrow> zip_archive
     \<Rightarrow> member_plan list \<Rightarrow> python_payload list \<Rightarrow> validated_archive \<Rightarrow> bool" where
  "accepted nf sha limits archive plans payloads va \<longleftrightarrow>
     traverseE (member_spec nf limits) (infolist archive) = Inr plans
     \<and> length plans \<le> max_members limits \<and> distinct (map plan_key plans)
     \<and> validate_file_directory_conflicts plans = Inr ()
     \<and> length (filter plan_is_python plans) \<le> max_python_files limits
     \<and> list_all2 (payload_of sha archive)
          (filter (\<lambda>p. \<not> plan_is_directory p \<and> plan_is_python p) plans) payloads
     \<and> va_payloads va = sort_key payload_posix payloads
     \<and> va_member_count va = length plans
     \<and> va_regular_file_count va = length (filter (\<lambda>p. \<not> plan_is_directory p) plans)
     \<and> va_directory_count va =
          length plans - length (filter (\<lambda>p. \<not> plan_is_directory p) plans)
     \<and> va_total_uncompressed_bytes va \<le> max_total_uncompressed_bytes limits
     \<and> va_python_total_lines va = sum_list (map payload_line_count payloads)
     \<and> va_python_total_lines va \<le> max_python_loc limits"

lemma validate_archive_accepted:
  assumes "validate_archive nf sha open_archive bytes limits = Inr va"
  shows "\<exists>archive plans payloads. accepted nf sha limits archive plans payloads va"
proof -
  from assms obtain archive plans tot payloads n lines where
    meta: "validate_all_metadata nf (infolist archive) limits = Inr (plans, tot)"
    and read: "read_members sha archive limits plans [] 0 0 = Inr (payloads, n, lines)"
    and n: "int n = tot"
    and va: "va_payloads va = sort_key payload_posix payloads"
      "va_member_count va = length plans"
      "va_regular_file_count va = length (filter (\<lambda>p. \<not> plan_is_directory p) plans)"
      "va_directory_count va =
         length plans - length (filter (\<lambda>p. \<not> plan_is_directory p) plans)"
      "va_total_uncompressed_bytes va = n" "va_python_total_lines va = lines"
    by (auto simp: validate_archive_Inr read_and_validate_Inr)
  from meta have m: "length (infolist archive) \<le> max_members limits"
    "traverseE (member_spec nf limits) (infolist archive) = Inr plans"
    "tot \<le> int (max_total_uncompressed_bytes limits)" "distinct (map plan_key plans)"
    "validate_file_directory_conflicts plans = Inr ()"
    "length (filter plan_is_python plans) \<le> max_python_files limits"
    by (auto simp: validate_all_metadata_Inr)
  from read_members_Inr [OF read] have
    r: "list_all2 (payload_of sha archive)
          (filter (\<lambda>p. \<not> plan_is_directory p \<and> plan_is_python p) plans) payloads"
      "lines = sum_list (map payload_line_count payloads)"
      "payloads \<noteq> [] \<longrightarrow> lines \<le> max_python_loc limits"
    by auto
  have "length plans \<le> max_members limits"
    using m(1) traverseE_length [OF m(2)] by simp
  moreover have "n \<le> max_total_uncompressed_bytes limits"
    using m(3) n by simp
  moreover have "lines \<le> max_python_loc limits"
    using r(2,3) by (cases payloads) auto
  ultimately have "accepted nf sha limits archive plans payloads va"
    unfolding accepted_def va using m(2,4,5,6) r(1,2) by (intro conjI refl)
  then show ?thesis by blast
qed

text \<open>The paths of the retained members, as the plans name them.\<close>

lemma retained_paths:
  assumes spec: "\<And>p. p \<in> set plans \<Longrightarrow> member_spec nf limits (plan_info p) = Inr p"
    and dist: "distinct (map plan_key plans)"
    and conf: "validate_file_directory_conflicts plans = Inr ()"
    and l2: "list_all2 (payload_of sha archive)
       (filter (\<lambda>p. \<not> plan_is_directory p \<and> plan_is_python p) plans) payloads"
  shows "clash_free nf (map payload_path payloads)"
    and "\<And>p. p \<in> set payloads \<Longrightarrow> python_path (payload_path p)"
proof -
  let ?py = "filter (\<lambda>p. \<not> plan_is_directory p \<and> plan_is_python p) plans"
  have paths: "map payload_path payloads = map plan_path ?py"
    using l2 by (rule list_all2_map_eq) (simp add: payload_of_def)
  have key: "map nf (plan_path q) = plan_key q" if "q \<in> set plans" for q
    using spec_plan(3) [OF spec [OF that]] by simp
  then have keys: "map (map nf) (map payload_path payloads) = map plan_key ?py"
    unfolding paths by auto
  have "distinct (map (map nf) (map payload_path payloads))"
    unfolding keys using dist by (rule distinct_map_filter)
  moreover have "\<not> strict_prefix (map nf a) (map nf b)"
    if "a \<in> set (map plan_path ?py)" "b \<in> set (map plan_path ?py)" for a b
  proof -
    from that obtain p q where "p \<in> set plans" "\<not> plan_is_directory p" "a = plan_path p"
      "q \<in> set plans" "b = plan_path q"
      by auto
    with conf show ?thesis
      unfolding file_directory_conflicts_Inr by (simp add: key)
  qed
  ultimately show "clash_free nf (map payload_path payloads)"
    unfolding clash_free_def paths by blast
  show "python_path (payload_path p)" if "p \<in> set payloads" for p
    using l2 _ that
  proof (rule list_all2_satisfying)
    fix q y
    assume "q \<in> set ?py" and py: "payload_of sha archive q y"
    then have "member_spec nf limits (plan_info q) = Inr q" and "plan_is_python q"
      using spec by auto
    with py show "python_path (payload_path y)"
      unfolding python_path_def payload_of_def using spec_plan by metis
  qed
qed

lemma distinct_posix:
  assumes "clash_free nf (map payload_path ps)"
    and py: "\<And>p. p \<in> set ps \<Longrightarrow> python_path (payload_path p)"
  shows "distinct (map payload_posix ps)"
proof -
  have dist: "distinct (map payload_path ps)"
    using assms(1) unfolding clash_free_def
    by (auto simp: distinct_map dest: inj_on_imageI2)
  have "inj_on payload_posix (set ps)"
  proof (rule inj_onI)
    fix a b
    assume ab: "a \<in> set ps" "b \<in> set ps" "payload_posix a = payload_posix b"
    then have "payload_path a = payload_path b"
      unfolding payload_posix_def by (intro python_path_join_inj py)
    then show "a = b"
      using ab(1,2) dist by (simp add: distinct_map inj_on_def)
  qed
  with dist show ?thesis
    by (simp add: distinct_map)
qed

lemma clash_free_mset:
  assumes "mset ps = mset qs"
  shows "clash_free nf ps = clash_free nf qs"
proof -
  have "mset (map (map nf) ps) = mset (map (map nf) qs)"
    using assms by simp
  then have "distinct (map (map nf) ps) = distinct (map (map nf) qs)"
    by (rule mset_eq_imp_distinct_iff)
  with mset_eq_setD [OF assms] show ?thesis
    unfolding clash_free_def by simp
qed

lemma validated_paths:
  assumes "validate_archive nf sha open_archive bytes limits = Inr va"
  shows "clash_free nf (map payload_path (va_payloads va))"
    and "\<And>p. p \<in> set (va_payloads va) \<Longrightarrow> python_path (payload_path p)"
    and "sorted_wrt (<) (map payload_posix (va_payloads va))"
proof -
  from validate_archive_accepted [OF assms] obtain archive plans payloads where
    acc: "accepted nf sha limits archive plans payloads va" by blast
  then have spec: "traverseE (member_spec nf limits) (infolist archive) = Inr plans"
    and va: "va_payloads va = sort_key payload_posix payloads"
    and rest: "distinct (map plan_key plans)"
      "validate_file_directory_conflicts plans = Inr ()"
      "list_all2 (payload_of sha archive)
        (filter (\<lambda>p. \<not> plan_is_directory p \<and> plan_is_python p) plans) payloads"
    by (simp_all add: accepted_def)
  note clash = retained_paths(1) [OF plan_of_spec(2) [OF spec] rest]
    and py = retained_paths(2) [OF plan_of_spec(2) [OF spec] rest]
  show "clash_free nf (map payload_path (va_payloads va))"
    using clash by (subst clash_free_mset [of _ "map payload_path payloads"]) (simp_all add: va)
  show "python_path (payload_path p)" if "p \<in> set (va_payloads va)" for p
    using that py by (simp add: va)
  have "mset (map payload_posix (va_payloads va)) = mset (map payload_posix payloads)"
    by (simp add: va)
  with distinct_posix [OF clash py] have "distinct (map payload_posix (va_payloads va))"
    by (metis mset_eq_imp_distinct_iff)
  then show "sorted_wrt (<) (map payload_posix (va_payloads va))"
    by (simp add: va strict_sorted_iff)
qed

lemma validated_counts:
  assumes "validate_archive nf sha open_archive bytes limits = Inr va"
  shows "va_member_count va \<le> max_members limits"
    and "va_member_count va = va_regular_file_count va + va_directory_count va"
    and "va_total_uncompressed_bytes va \<le> max_total_uncompressed_bytes limits"
    and "length (va_payloads va) \<le> max_python_files limits"
    and "va_python_total_lines va \<le> max_python_loc limits"
    and "va_python_total_lines va = sum_list (map payload_line_count (va_payloads va))"
proof -
  from validate_archive_accepted [OF assms] obtain archive plans payloads where
    acc: "accepted nf sha limits archive plans payloads va" by blast
  then have l2: "list_all2 (payload_of sha archive)
      (filter (\<lambda>p. \<not> plan_is_directory p \<and> plan_is_python p) plans) payloads"
    and py: "length (filter plan_is_python plans) \<le> max_python_files limits"
    and va: "va_payloads va = sort_key payload_posix payloads"
      "va_python_total_lines va = sum_list (map payload_line_count payloads)"
    by (simp_all add: accepted_def)
  from acc show "va_member_count va \<le> max_members limits"
    "va_member_count va = va_regular_file_count va + va_directory_count va"
    "va_total_uncompressed_bytes va \<le> max_total_uncompressed_bytes limits"
    "va_python_total_lines va \<le> max_python_loc limits"
    by (simp_all add: accepted_def)
  have "length (filter (\<lambda>p. \<not> plan_is_directory p \<and> plan_is_python p) plans)
      \<le> length (filter plan_is_python plans)"
    by (induction plans) auto
  then show "length (va_payloads va) \<le> max_python_files limits"
    using py va(1) list_all2_lengthD [OF l2] by simp
  have "mset (map payload_line_count (va_payloads va)) = mset (map payload_line_count payloads)"
    by (simp add: va(1))
  then show "va_python_total_lines va = sum_list (map payload_line_count (va_payloads va))"
    using va(2) by (metis sum_mset_sum_list)
qed

lemma validated_contents:
  assumes "validate_archive nf sha open_archive bytes limits = Inr va"
    and "p \<in> set (va_payloads va)"
  shows "payload_sha256 p = sha (payload_bytes p)
    \<and> (\<exists>t. utf8_sig_decode (payload_bytes p) = Some t
         \<and> payload_line_count p = length (splitlines t))
    \<and> length (payload_bytes p) \<le> max_member_uncompressed_bytes limits"
proof -
  from validate_archive_accepted [OF assms(1)] obtain archive plans payloads where
    acc: "accepted nf sha limits archive plans payloads va" by blast
  then have spec: "traverseE (member_spec nf limits) (infolist archive) = Inr plans"
    and l2: "list_all2 (payload_of sha archive)
      (filter (\<lambda>q. \<not> plan_is_directory q \<and> plan_is_python q) plans) payloads"
    and p: "p \<in> set payloads"
    using assms(2) by (simp_all add: accepted_def)
  from list_all2_in2 [OF l2 p] obtain q where
    q: "q \<in> set (filter (\<lambda>q. \<not> plan_is_directory q \<and> plan_is_python q) plans)"
    and pq: "payload_of sha archive q p" ..
  from q have "q \<in> set plans"
    by simp
  then have "file_size (plan_info q) \<le> int (max_member_uncompressed_bytes limits)"
    using plan_of_spec(2) [OF spec, of q] member_spec_size [of nf limits "plan_info q" q] by simp
  with pq have "length (payload_bytes p) \<le> max_member_uncompressed_bytes limits"
    unfolding payload_of_def by linarith
  with pq show ?thesis
    unfolding payload_of_def by blast
qed

end
