(* ===== verification/ZipLifecycle.thy ===== *)
theory ZipLifecycle
  imports ZipReader
begin

text \<open>
  \<open>app/security/zip_guard.py\<close>, third part: the extraction of the validated payloads into a
  private temporary directory, the inventory handed to the scanner, and the life cycle of
  the \<open>ZipGuard\<close> context (enter once, clean up exactly what was created).

  The file system is a map from absolute paths to entries.  \<open>fs\<close> is the file system's own
  notion of equal names (the identity on a case-sensitive one), so two paths denote the same
  entry when their components agree after \<open>fs\<close>.  What the operating system decides (whether
  a path resolves, a write succeeds, a file can be deleted) is an argument.
\<close>

section \<open>The inventory\<close>

record python_file =
  pf_relative_path :: string
  pf_size_bytes :: nat
  pf_line_count :: nat
  pf_sha256 :: string

record zip_guard_result =
  zr_task_root :: "string list"
  zr_python_files :: "python_file list"
  zr_member_count :: nat
  zr_regular_file_count :: nat
  zr_directory_count :: nat
  zr_total_uncompressed_bytes :: nat
  zr_python_file_count :: nat
  zr_python_total_lines :: nat
  zr_ignored_python_file_count :: nat
  zr_ignored_non_python_file_count :: nat

definition is_hex_digest :: "string \<Rightarrow> bool" where
  "is_hex_digest s \<longleftrightarrow> length s = 64 \<and> set s \<subseteq> set ''0123456789abcdef''"

definition make_python_file :: "python_file \<Rightarrow> guard_exn + python_file" where
  "make_python_file f =
     (if pf_relative_path f = [] \<or> \<not> is_hex_digest (pf_sha256 f) then Inl ValidationErr
      else (case canonicalize_member_path (pf_relative_path f) of
          Inl _ \<Rightarrow> Inl ValidationErr
        | Inr parts \<Rightarrow>
            if join ''/'' parts \<noteq> pf_relative_path f
               \<or> \<not> suffix ''.py'' (casefold (pf_relative_path f))
            then Inl ValidationErr else Inr f))"

definition make_zip_guard_result :: "zip_guard_result \<Rightarrow> guard_exn + zip_guard_result" where
  "make_zip_guard_result r =
     (if zr_member_count r \<noteq> zr_regular_file_count r + zr_directory_count r
      then Inl ValidationErr
      else if zr_python_file_count r \<noteq> length (zr_python_files r) then Inl ValidationErr
      else if zr_python_total_lines r \<noteq> sum_list (map pf_line_count (zr_python_files r))
      then Inl ValidationErr
      else if map pf_relative_path (zr_python_files r)
                \<noteq> sort (map pf_relative_path (zr_python_files r))
      then Inl ValidationErr
      else Inr r)"

definition build_result ::
  "string list \<Rightarrow> validated_archive \<Rightarrow> guard_exn + zip_guard_result" where
  "build_result task_root archive =
     bindE (traverseE (\<lambda>p. make_python_file
             \<lparr>pf_relative_path = payload_posix p, pf_size_bytes = length (payload_bytes p),
              pf_line_count = payload_line_count p, pf_sha256 = payload_sha256 p\<rparr>)
            (va_payloads archive))
       (\<lambda>python_files. make_zip_guard_result
          \<lparr>zr_task_root = task_root, zr_python_files = python_files,
           zr_member_count = va_member_count archive,
           zr_regular_file_count = va_regular_file_count archive,
           zr_directory_count = va_directory_count archive,
           zr_total_uncompressed_bytes = va_total_uncompressed_bytes archive,
           zr_python_file_count = length python_files,
           zr_python_total_lines = va_python_total_lines archive,
           zr_ignored_python_file_count = va_ignored_python_file_count archive,
           zr_ignored_non_python_file_count = va_ignored_non_python_file_count archive\<rparr>)"

section \<open>The file system\<close>

datatype entry = Directory | Regular "byte list" | Link

type_synonym world = "string list \<rightharpoonup> entry"

record env =
  env_parent :: "string list option"
  env_parent_is_dir :: bool
  env_mkdtemp :: "string option"
  env_resolve :: "string list \<Rightarrow> string list option"
  env_io_ok :: "string list \<Rightarrow> bool"
  env_written :: "string list \<Rightarrow> nat option"
  env_undeletable :: "string list list"

text \<open>\<open>Path.resolve(strict=False)\<close> of the components appended to a resolved path: no
  entry below the fresh task root is a link, so it is the lexical collapse of \<open>".."\<close>.\<close>

fun resolve_from :: "string list \<Rightarrow> string list \<Rightarrow> string list" where
  "resolve_from base [] = base"
| "resolve_from base (c # cs) =
     (if c = [] \<or> c = ''.'' then resolve_from base cs
      else if c = ''..'' then resolve_from (butlast base) cs
      else resolve_from (base @ [c]) cs)"

definition safe_output_target ::
  "string list \<Rightarrow> string list \<Rightarrow> guard_exn + string list" where
  "safe_output_target task_root parts =
     (let target = resolve_from task_root parts
      in if target = task_root \<or> \<not> prefix task_root target
         then Inl (GuardError INVALID_MEMBER_PATH) else Inr target)"

text \<open>
  An exception leaves behind what was written before it, so every step returns the world with
  both outcomes.  \<open>mkdir(parents=True, exist_ok=True)\<close> makes the directories between the task
  root, which exists, and \<open>base @ cs\<close> from the outside in; those made before a failing one
  stay.
\<close>

fun make_dirs ::
  "(string \<Rightarrow> string) \<Rightarrow> env \<Rightarrow> world \<Rightarrow> string list \<Rightarrow> string list
     \<Rightarrow> (guard_exn + unit) \<times> world" where
  "make_dirs fs env w base [] = (Inr (), w)"
| "make_dirs fs env w base (c # cs) =
     (let d = base @ [c]
      in case w (map fs d) of
           Some Directory \<Rightarrow> make_dirs fs env w d cs
         | Some _ \<Rightarrow> (Inl LibraryError, w)
         | None \<Rightarrow>
             if env_io_ok env d then make_dirs fs env (w(map fs d \<mapsto> Directory)) d cs
             else (Inl LibraryError, w))"

text \<open>\<open>open("xb")\<close> refuses an existing path.  A failure may come before the file exists
  (\<open>env_written\<close> is \<^const>\<open>None\<close>) or after some of its bytes were written.\<close>

definition write_python_payload ::
  "(string \<Rightarrow> string) \<Rightarrow> env \<Rightarrow> world \<Rightarrow> string list \<Rightarrow> byte list
     \<Rightarrow> (guard_exn + unit) \<times> world" where
  "write_python_payload fs env w target payload =
     (case w (map fs target) of
        Some _ \<Rightarrow> (Inl LibraryError, w)
      | None \<Rightarrow>
          if env_io_ok env target then (Inr (), w(map fs target \<mapsto> Regular payload))
          else (Inl LibraryError,
                (case env_written env target of
                   None \<Rightarrow> w
                 | Some n \<Rightarrow> w(map fs target \<mapsto> Regular (take n payload)))))"

fun extract_python_payloads ::
  "(string \<Rightarrow> string) \<Rightarrow> env \<Rightarrow> string list \<Rightarrow> python_payload list \<Rightarrow> world
     \<Rightarrow> (guard_exn + unit) \<times> world" where
  "extract_python_payloads fs env task_root [] w = (Inr (), w)"
| "extract_python_payloads fs env task_root (p # ps) w =
     (case safe_output_target task_root (payload_path p) of
        Inl e \<Rightarrow> (Inl e, w)
      | Inr target \<Rightarrow>
          (case make_dirs fs env w task_root
                  (drop (length task_root) (butlast target)) of
             (Inl e, w1) \<Rightarrow> (Inl e, w1)
           | (Inr _, w1) \<Rightarrow>
               (case safe_output_target task_root (payload_path p) of
                  Inl e \<Rightarrow> (Inl e, w1)
                | Inr target' \<Rightarrow>
                    (case write_python_payload fs env w1 target' (payload_bytes p) of
                       (Inl e, w2) \<Rightarrow> (Inl e, w2)
                     | (Inr _, w2) \<Rightarrow> extract_python_payloads fs env task_root ps w2))))"

section \<open>The context\<close>

record zip_guard_state =
  zg_task_root :: "string list option"
  zg_cleanup_parent :: "string list option"
  zg_entered :: bool
  zg_closed :: bool

definition zip_guard_init :: zip_guard_state where
  "zip_guard_init = \<lparr>zg_task_root = None, zg_cleanup_parent = None, zg_entered = False,
                     zg_closed = False\<rparr>"

type_synonym 'a guard_step = "(guard_exn + 'a) \<times> zip_guard_state \<times> world"

definition rmtree ::
  "(string \<Rightarrow> string) \<Rightarrow> env \<Rightarrow> string list \<Rightarrow> world \<Rightarrow> bool \<times> world" where
  "rmtree fs env root w =
     ((\<forall>k \<in> set (env_undeletable env). \<not> (prefix (map fs root) k \<and> w k \<noteq> None)),
      (\<lambda>k. if prefix (map fs root) k \<and> k \<notin> set (env_undeletable env) then None else w k))"

definition cleanup ::
  "(string \<Rightarrow> string) \<Rightarrow> env \<Rightarrow> zip_guard_state \<Rightarrow> world \<Rightarrow> unit guard_step" where
  "cleanup fs env st w =
     (case zg_task_root st of
        None \<Rightarrow> (Inr (), st\<lparr>zg_closed := True\<rparr>, w)
      | Some task_root \<Rightarrow>
          (case zg_cleanup_parent st of
             None \<Rightarrow> (Inl (GuardError CLEANUP_FAILED), st, w)
           | Some cleanup_parent \<Rightarrow>
               if butlast task_root \<noteq> cleanup_parent
                  \<or> \<not> prefix TASK_DIRECTORY_PREFIX (path_name task_root)
               then (Inl (GuardError CLEANUP_FAILED), st, w)
               else
                 (case w (map fs task_root) of
                    None \<Rightarrow> (Inr (), st\<lparr>zg_task_root := None, zg_closed := True\<rparr>, w)
                  | Some Directory \<Rightarrow>
                      (case rmtree fs env task_root w of
                         (True, w') \<Rightarrow>
                           (Inr (), st\<lparr>zg_task_root := None, zg_closed := True\<rparr>, w')
                       | (False, w') \<Rightarrow> (Inl (GuardError CLEANUP_FAILED), st, w'))
                  | Some _ \<Rightarrow> (Inl (GuardError CLEANUP_FAILED), st, w))))"

text \<open>\<open>tempfile.mkdtemp\<close> makes a directory whose name was free.\<close>

definition create_task_root ::
  "(string \<Rightarrow> string) \<Rightarrow> env \<Rightarrow> zip_guard_state \<Rightarrow> world \<Rightarrow> string list guard_step" where
  "create_task_root fs env st w =
     (case env_parent env of
        None \<Rightarrow> (Inl LibraryError, st, w)
      | Some parent \<Rightarrow>
          if \<not> env_parent_is_dir env then (Inl LibraryError, st, w)
          else (case env_mkdtemp env of
              None \<Rightarrow> (Inl LibraryError, st, w)
            | Some random \<Rightarrow>
                (let created_root = parent @ [TASK_DIRECTORY_PREFIX @ random];
                     w' = w(map fs created_root \<mapsto> Directory);
                     st' = st\<lparr>zg_task_root := Some created_root,
                              zg_cleanup_parent := Some parent\<rparr>
                 in case env_resolve env created_root of
                      None \<Rightarrow> (Inl LibraryError, st', w')
                    | Some task_root \<Rightarrow>
                        if butlast task_root \<noteq> parent then (Inl LibraryError, st', w')
                        else (Inr task_root, st'\<lparr>zg_task_root := Some task_root\<rparr>, w'))))"

fun reported :: "guard_exn \<Rightarrow> guard_exn" where
  "reported LibraryError = GuardError EXTRACTION_FAILED"
| "reported e = e"

text \<open>The \<open>except\<close> clauses of \<open>__enter__\<close>: clean up, close, re-raise (an \<open>OSError\<close> as
  \<open>EXTRACTION_FAILED\<close>).  An exception of the cleanup itself replaces the first one.\<close>

definition fail_enter ::
  "(string \<Rightarrow> string) \<Rightarrow> env \<Rightarrow> guard_exn \<Rightarrow> zip_guard_state \<Rightarrow> world \<Rightarrow> 'a guard_step" where
  "fail_enter fs env e st w =
     (if zg_task_root st = None then (Inl (reported e), st\<lparr>zg_closed := True\<rparr>, w)
      else (case cleanup fs env st w of
          (Inl e', st', w') \<Rightarrow> (Inl e', st', w')
        | (Inr _, st', w') \<Rightarrow> (Inl (reported e), st'\<lparr>zg_closed := True\<rparr>, w')))"

definition enter ::
  "(string \<Rightarrow> string) \<Rightarrow> (byte list \<Rightarrow> string) \<Rightarrow> (byte list \<Rightarrow> zip_archive option)
     \<Rightarrow> (string \<Rightarrow> string) \<Rightarrow> env \<Rightarrow> archive_source \<Rightarrow> zip_guard_limits
     \<Rightarrow> zip_guard_state \<Rightarrow> world \<Rightarrow> zip_guard_result guard_step" where
  "enter nf sha open_archive fs env src limits st w =
     (if zg_entered st \<or> zg_closed st then (Inl RuntimeErr, st, w)
      else
        (let st1 = st\<lparr>zg_entered := True\<rparr>
         in case bindE (read_archive_bytes src limits)
                   (\<lambda>bs. validate_archive nf sha open_archive bs limits) of
              Inl e \<Rightarrow> fail_enter fs env e st1 w
            | Inr validated \<Rightarrow>
                (case create_task_root fs env st1 w of
                   (Inl e, st2, w2) \<Rightarrow> fail_enter fs env e st2 w2
                 | (Inr task_root, st2, w2) \<Rightarrow>
                     (case extract_python_payloads fs env task_root
                             (va_payloads validated) w2 of
                        (Inl e, w3) \<Rightarrow> fail_enter fs env e st2 w3
                      | (Inr _, w3) \<Rightarrow>
                          (case build_result task_root validated of
                             Inl e \<Rightarrow> fail_enter fs env e st2 w3
                           | Inr r \<Rightarrow> (Inr r, st2, w3))))))"

section \<open>Output targets\<close>

lemma resolve_from_plain:
  "\<forall>c \<in> set cs. c \<noteq> [] \<and> c \<noteq> ''.'' \<and> c \<noteq> ''..'' \<Longrightarrow> resolve_from base cs = base @ cs"
  by (induction base cs rule: resolve_from.induct) auto

lemma safe_output_target_inside:
  "safe_output_target task_root parts = Inr target \<Longrightarrow> strict_prefix task_root target"
  by (auto simp: safe_output_target_def Let_def strict_prefix_def split: if_splits)

lemma safe_output_target_python:
  "python_path parts \<Longrightarrow> safe_output_target task_root parts = Inr (task_root @ parts)"
  by (subst safe_output_target_def)
    (auto simp: Let_def resolve_from_plain python_path_def safe_component_def)

section \<open>Extraction\<close>

lemma refine_map:
  assumes "\<forall>a b. fs a = fs b \<longrightarrow> nf a = nf b"
  shows "map fs as = map fs bs \<Longrightarrow> map nf as = map nf bs"
proof (induction as arbitrary: bs)
  case (Cons a as)
  then obtain b bs' where "bs = b # bs'" "fs a = fs b" "map fs as = map fs bs'"
    by (cases bs) auto
  moreover from this have "nf a = nf b" and "map nf as = map nf bs'"
    using assms Cons.IH by blast+
  ultimately show ?case by simp
qed simp

lemma refine_strict_prefix:
  assumes ref: "\<forall>a b. fs a = fs b \<longrightarrow> nf a = nf b"
    and "strict_prefix (map fs as) (map fs bs)"
  shows "strict_prefix (map nf as) (map nf bs)"
proof -
  from assms(2) obtain d ds where "map fs bs = map fs as @ d # ds"
    by (elim strict_prefixE')
  then obtain b1 b2 where b: "bs = b1 @ b2" "map fs b1 = map fs as" "map fs b2 = d # ds"
    unfolding map_eq_append_conv by auto
  then have "map nf b1 = map nf as"
    by (intro refine_map [OF ref])
  with b show ?thesis
    by (cases b2) (auto simp: strict_prefix_def)
qed

lemma clash_free_refine:
  assumes ref: "\<forall>a b. fs a = fs b \<longrightarrow> nf a = nf b" and "clash_free nf paths"
  shows "clash_free fs paths"
proof -
  have "inj_on (map fs) (set paths)"
    using assms(2) refine_map [OF ref]
    unfolding clash_free_def distinct_map inj_on_def by metis
  with assms refine_strict_prefix [OF ref] show ?thesis
    unfolding clash_free_def distinct_map by blast
qed

text \<open>The world after extraction, as a function of the payloads.\<close>

definition under :: "(string \<Rightarrow> string) \<Rightarrow> string list \<Rightarrow> python_payload \<Rightarrow> string list" where
  "under fs root p = map fs (root @ payload_path p)"

definition extracted ::
  "(string \<Rightarrow> string) \<Rightarrow> string list \<Rightarrow> python_payload list \<Rightarrow> world \<Rightarrow> world" where
  "extracted fs root ps w k =
     (case find (\<lambda>p. under fs root p = k) ps of
        Some p \<Rightarrow> Some (Regular (payload_bytes p))
      | None \<Rightarrow>
          if \<exists>p \<in> set ps. strict_prefix k (under fs root p) \<and> strict_prefix (map fs root) k
          then Some Directory else w k)"

lemma between_prefix:
  "strict_prefix b k \<and> prefix k (b @ ys) \<longleftrightarrow> (\<exists>z zs. k = b @ z # zs \<and> prefix (z # zs) ys)"
  by (auto simp: strict_prefix_def prefix_def) (metis neq_Nil_conv)

lemma between_Cons:
  "strict_prefix b k \<and> prefix k (b @ y # ys) \<longleftrightarrow>
     k = b @ [y] \<or> (strict_prefix (b @ [y]) k \<and> prefix k ((b @ [y]) @ ys))"
  unfolding between_prefix by (auto simp: prefix_Cons) (metis neq_Nil_conv)

lemma make_dirs_Inr:
  assumes "\<And>k. strict_prefix (map fs base) k \<and> prefix k (map fs base @ map fs cs) \<Longrightarrow>
             w k = None \<or> w k = Some Directory"
    and io: "\<And>d. env_io_ok e d"
  shows "make_dirs fs e w base cs = (Inr (), \<lambda>k.
     if strict_prefix (map fs base) k \<and> prefix k (map fs base @ map fs cs) then Some Directory
     else w k)"
  using assms(1)
proof (induction cs arbitrary: base w)
  case Nil
  have "\<not> (strict_prefix (map fs base) k \<and> prefix k (map fs base @ []))" for k
    unfolding between_prefix by simp
  then show ?case
    unfolding make_dirs.simps list.map
    by (intro arg_cong [where f = "Pair (Inr ())"] ext) (simp only: if_False)
next
  case (Cons c cs)
  let ?b = "base @ [c]"
  let ?w = "w(map fs ?b \<mapsto> Directory)"
  let ?btw = "\<lambda>k. strict_prefix (map fs ?b) k \<and> prefix k (map fs ?b @ map fs cs)"
  have split: "strict_prefix (map fs base) k \<and> prefix k (map fs base @ map fs (c # cs)) \<longleftrightarrow>
      k = map fs ?b \<or> ?btw k" for k
    using between_Cons [of "map fs base" k "fs c" "map fs cs"] by simp
  have ok: "w (map fs ?b) = None \<or> w (map fs ?b) = Some Directory"
    using Cons.prems split by blast
  have "make_dirs fs e w base (c # cs) = make_dirs fs e ?w ?b cs"
  proof (cases "w (map fs ?b)")
    case (Some x)
    with ok have "?w = w" by (auto intro: fun_upd_idem)
    with Some ok show ?thesis by simp
  qed (simp add: io)
  also have "\<dots> = (Inr (), \<lambda>k. if ?btw k then Some Directory else ?w k)"
    using Cons.prems split by (intro Cons.IH) auto
  also have "(\<lambda>k. if ?btw k then Some Directory else ?w k) =
      (\<lambda>k. if strict_prefix (map fs base) k \<and> prefix k (map fs base @ map fs (c # cs))
           then Some Directory else w k)"
    unfolding split by (rule ext) simp
  finally show ?case .
qed

lemma clash_under:
  assumes "clash_free fs (map payload_path (done @ [p]))" and "q \<in> set done"
  shows "under fs root q \<noteq> under fs root p"
    and "\<not> strict_prefix (under fs root p) (under fs root q)"
    and "\<not> strict_prefix (under fs root q) (under fs root p)"
proof -
  let ?q = "map fs (payload_path q)" and ?p = "map fs (payload_path p)"
  have u: "under fs root x = map fs root @ map fs (payload_path x)" for x
    by (simp add: under_def)
  have "?q \<in> set (map (map fs) (map payload_path done))"
    using assms(2) by simp
  moreover have "?p \<notin> set (map (map fs) (map payload_path done))"
    using assms(1) unfolding clash_free_def by simp
  ultimately have ne: "?q \<noteq> ?p" by metis
  moreover have "\<not> strict_prefix ?p ?q" "\<not> strict_prefix ?q ?p"
    using assms unfolding clash_free_def by simp_all
  ultimately show "under fs root q \<noteq> under fs root p"
    "\<not> strict_prefix (under fs root p) (under fs root q)"
    "\<not> strict_prefix (under fs root q) (under fs root p)"
    unfolding u strict_prefix_def by simp_all
qed

lemma clash_find:
  assumes "clash_free fs (map payload_path (done @ [p]))" and "prefix k (under fs root p)"
  shows "find (\<lambda>q. under fs root q = k) done = None"
  using assms(2) clash_under [OF assms(1)] unfolding find_None_iff strict_prefix_def by blast

text \<open>One payload: its directories and its file join the world described so far.\<close>

lemma prefix_butlast_snoc: "prefix k xs \<longleftrightarrow> strict_prefix k (xs @ [y])"
proof -
  have "k \<noteq> xs @ [y]" if "prefix k xs"
    using prefix_length_le [OF that] by auto
  then show ?thesis
    unfolding strict_prefix_def prefix_snoc by blast
qed

lemma prefix_parents:
  assumes "python_path (payload_path p)"
  shows "prefix k (map fs root @ map fs (butlast (payload_path p))) \<longleftrightarrow>
     strict_prefix k (under fs root p)"
proof -
  have "payload_path p \<noteq> []"
    using assms by (simp add: python_path_def)
  then have "under fs root p = (map fs root @ map fs (butlast (payload_path p)))
      @ [fs (last (payload_path p))]"
    by (cases "payload_path p" rule: rev_cases) (simp_all add: under_def)
  then show ?thesis
    by (simp only: prefix_butlast_snoc)
qed

lemma under_root:
  "python_path (payload_path p) \<Longrightarrow> strict_prefix (map fs root) (under fs root p)"
  by (auto simp: under_def strict_prefix_def python_path_def)

lemma extracted_target:
  assumes clash: "clash_free fs (map payload_path (done @ [p]))"
    and "w (under fs root p) = None"
  shows "extracted fs root done w (under fs root p) = None"
proof -
  have "find (\<lambda>q. under fs root q = under fs root p) done = None"
    by (rule clash_find [OF clash]) simp
  moreover have "\<not> (\<exists>q \<in> set done. strict_prefix (under fs root p) (under fs root q))"
    using clash_under(2) [OF clash] by blast
  ultimately show ?thesis
    using assms(2) unfolding extracted_def by auto
qed

lemma extracted_parents:
  assumes clash: "clash_free fs (map payload_path (done @ [p]))"
    and "strict_prefix k (under fs root p)" and "w k = None"
  shows "extracted fs root done w k = None \<or> extracted fs root done w k = Some Directory"
proof -
  have "find (\<lambda>q. under fs root q = k) done = None"
    using assms(2) by (intro clash_find [OF clash]) (simp add: strict_prefix_def)
  then show ?thesis
    using assms(3) by (simp add: extracted_def)
qed

lemma make_dirs_extracted:
  assumes clash: "clash_free fs (map payload_path (done @ [p]))"
    and py: "python_path (payload_path p)"
    and fresh: "\<And>k. strict_prefix (map fs root) k \<Longrightarrow> w k = None"
    and io: "\<And>d. env_io_ok e d"
  shows "make_dirs fs e (extracted fs root done w) root (butlast (payload_path p)) = (Inr (), \<lambda>k.
     if strict_prefix (map fs root) k \<and> strict_prefix k (under fs root p)
     then Some Directory else extracted fs root done w k)"
  unfolding prefix_parents [OF py, symmetric]
proof (rule make_dirs_Inr [OF _ io])
  fix k
  assume "strict_prefix (map fs root) k
    \<and> prefix k (map fs root @ map fs (butlast (payload_path p)))"
  then have "strict_prefix (map fs root) k" and "strict_prefix k (under fs root p)"
    unfolding prefix_parents [OF py] by blast+
  then show "extracted fs root done w k = None \<or> extracted fs root done w k = Some Directory"
    by (intro extracted_parents [OF clash] fresh)
qed

lemma extracted_snoc:
  assumes clash: "clash_free fs (map payload_path (done @ [p]))"
    and none: "extracted fs root done w (under fs root p) = None"
  shows "extracted fs root (done @ [p]) w = (\<lambda>k.
     if strict_prefix (map fs root) k \<and> strict_prefix k (under fs root p)
     then Some Directory else extracted fs root done w k)
       (under fs root p \<mapsto> Regular (payload_bytes p))"
proof (rule ext)
  fix k
  have find: "find (\<lambda>q. under fs root q = k) (done @ [p]) =
      (case find (\<lambda>q. under fs root q = k) done of
         None \<Rightarrow> if under fs root p = k then Some p else None | Some q \<Rightarrow> Some q)"
    by (induction "done") auto
  have nofile: "find (\<lambda>q. under fs root q = k) done = None"
    if "strict_prefix k (under fs root p) \<or> k = under fs root p"
    using clash_find [OF clash, of k root] that by (auto simp: strict_prefix_def)
  show "extracted fs root (done @ [p]) w k = ((\<lambda>k.
     if strict_prefix (map fs root) k \<and> strict_prefix k (under fs root p)
     then Some Directory else extracted fs root done w k)
       (under fs root p \<mapsto> Regular (payload_bytes p))) k"
    using nofile by (auto simp: extracted_def find split: option.splits)
qed

lemma extract_all:
  assumes "clash_free fs (map payload_path (done @ ps))"
    and "\<And>p. p \<in> set ps \<Longrightarrow> python_path (payload_path p)"
    and fresh: "\<And>k. strict_prefix (map fs root) k \<Longrightarrow> w k = None"
    and io: "\<And>d. env_io_ok e d"
  shows "extract_python_payloads fs e root ps (extracted fs root done w) =
     (Inr (), extracted fs root (done @ ps) w)"
  using assms(1,2)
proof (induction ps arbitrary: "done")
  case Nil
  then show ?case by simp
next
  case (Cons p ps)
  have clash: "clash_free fs (map payload_path (done @ [p]))"
    using Cons.prems(1) by (auto simp: clash_free_def)
  have py: "python_path (payload_path p)"
    using Cons.prems(2) by simp
  then have target: "safe_output_target root (payload_path p) = Inr (root @ payload_path p)"
    "drop (length root) (butlast (root @ payload_path p)) = butlast (payload_path p)"
    by (simp_all add: safe_output_target_python butlast_append python_path_def)
  have none: "extracted fs root done w (under fs root p) = None"
    by (intro extracted_target [OF clash] fresh under_root py)
  note dirs = make_dirs_extracted [where root = root and w = w and e = e, OF clash py fresh io]
  have key: "map fs (root @ payload_path p) = under fs root p"
    by (simp add: under_def)
  have "extract_python_payloads fs e root (p # ps) (extracted fs root done w) =
      extract_python_payloads fs e root ps (extracted fs root (done @ [p]) w)"
    using none
    by (simp add: target dirs write_python_payload_def io extracted_snoc [OF clash] key
        del: map_append)
  also have "\<dots> = (Inr (), extracted fs root ((done @ [p]) @ ps) w)"
    using Cons.prems by (intro Cons.IH) auto
  finally show ?case by simp
qed

lemma extracted_Nil: "extracted fs root [] w = w"
  by (rule ext) (simp add: extracted_def)

lemma extract_python_payloads_world:
  assumes "clash_free fs (map payload_path ps)"
    and "\<And>p. p \<in> set ps \<Longrightarrow> python_path (payload_path p)"
    and "\<And>k. strict_prefix (map fs root) k \<Longrightarrow> w k = None"
    and "\<And>d. env_io_ok e d"
  shows "extract_python_payloads fs e root ps w = (Inr (), extracted fs root ps w)"
  using extract_all [of fs "[]" ps root w e] assms by (simp add: extracted_Nil)

text \<open>Whatever happens, extraction touches nothing outside the task root.\<close>

lemma make_dirs_frame:
  "\<not> strict_prefix (map fs base) k \<Longrightarrow> snd (make_dirs fs e w base cs) k = w k"
proof (induction cs arbitrary: base w)
  case Nil
  then show ?case by simp
next
  case (Cons c cs)
  have "map fs (base @ [c]) \<noteq> k" and "\<not> strict_prefix (map fs (base @ [c])) k"
    using Cons.prems by (auto simp: strict_prefix_def prefix_def)
  with Cons.IH [of "base @ [c]"] show ?case
    by (simp add: Let_def split: option.split entry.split)
qed

lemma write_frame:
  "map fs t \<noteq> k \<Longrightarrow> snd (write_python_payload fs e w t bs) k = w k"
  by (simp add: write_python_payload_def split: option.split)

lemma extract_frame:
  "\<not> strict_prefix (map fs root) k \<Longrightarrow>
     snd (extract_python_payloads fs e root ps w) k = w k"
proof (induction ps arbitrary: w)
  case Nil
  then show ?case by simp
next
  case (Cons p ps)
  have ne: "map fs t \<noteq> k" if "safe_output_target root parts = Inr t" for t parts
  proof
    assume "map fs t = k"
    moreover from safe_output_target_inside [OF that] obtain z zs where "t = root @ z # zs"
      by (elim strict_prefixE')
    ultimately show False
      using Cons.prems by (auto simp: strict_prefix_def)
  qed
  show ?case
  proof (cases "safe_output_target root (payload_path p)")
    case (Inl e)
    then show ?thesis by simp
  next
    case (Inr t)
    obtain r1 w1 where m: "make_dirs fs e w root (drop (length root) (butlast t)) = (r1, w1)"
      by (cases "make_dirs fs e w root (drop (length root) (butlast t))")
    obtain r2 w2 where x: "write_python_payload fs e w1 t (payload_bytes p) = (r2, w2)"
      by (cases "write_python_payload fs e w1 t (payload_bytes p)")
    have "w1 k = w k" "w2 k = w1 k"
      using make_dirs_frame [OF Cons.prems, of e w "drop (length root) (butlast t)"] m
        write_frame [OF ne [OF Inr], of e w1 "payload_bytes p"] x by simp_all
    then show ?thesis
      using Cons.IH [OF Cons.prems, of w2]
      by (simp add: Inr m x split: sum.split)
  qed
qed

section \<open>The inventory is always well formed\<close>

lemma join_suffix: "ps \<noteq> [] \<Longrightarrow> suffix (last ps) (join sep ps)"
  by (induction sep ps rule: join.induct) (auto intro!: suffix_appendI)

lemma path_suffix_suffix: "suffix (path_suffix ps) (path_name ps)"
proof -
  let ?name = "path_name ps"
  let ?tail = "takeWhile (\<lambda>c. c \<noteq> CHR ''.'') (rev ?name)"
  show ?thesis
  proof (cases "CHR ''.'' \<in> set ?name")
    case True
    have dw: "dropWhile (\<lambda>c. c \<noteq> CHR ''.'') (rev ?name) \<noteq> []"
      using True by (auto simp: dropWhile_eq_Nil_conv)
    obtain d ds where "dropWhile (\<lambda>c. c \<noteq> CHR ''.'') (rev ?name) = d # ds"
      using dw by (cases "dropWhile (\<lambda>c. c \<noteq> CHR ''.'') (rev ?name)") auto
    moreover from this have "d = CHR ''.''"
      using hd_dropWhile [OF dw] by simp
    ultimately have "rev ?name = ?tail @ CHR ''.'' # ds"
      using takeWhile_dropWhile_id [of "\<lambda>c. c \<noteq> CHR ''.''" "rev ?name"] by simp
    then have "?name = rev ds @ CHR ''.'' # rev ?tail"
      by (metis append.assoc append_Cons append_Nil rev_append rev_rev_ident rev.simps(2))
    then have "suffix (CHR ''.'' # rev ?tail) ?name"
      by (metis suffixI)
    then show ?thesis
      by (simp add: path_suffix_def Let_def)
  next
    case False
    then show ?thesis
      by (simp add: path_suffix_def Let_def)
  qed
qed

lemma casefold_suffix: "suffix s t \<Longrightarrow> suffix (casefold s) (casefold t)"
  by (auto simp: suffix_def)

lemma python_path_py_suffix:
  assumes "python_path ps"
  shows "suffix ''.py'' (casefold (join ''/'' ps))"
proof -
  from assms have ne: "ps \<noteq> []" and py: "casefold (path_suffix ps) = ''.py''"
    by (simp_all add: python_path_def)
  have "suffix (path_suffix ps) (join ''/'' ps)"
    using path_suffix_suffix [of ps] join_suffix [OF ne, of "''/''"] ne
    by (auto simp: path_name_def intro: suffix_order.trans)
  then show ?thesis
    using py by (metis casefold_suffix)
qed

lemma make_python_file_payload:
  assumes "python_path (payload_path p)" and "is_hex_digest (payload_sha256 p)"
  shows "make_python_file
     \<lparr>pf_relative_path = payload_posix p, pf_size_bytes = n, pf_line_count = l,
      pf_sha256 = payload_sha256 p\<rparr> =
     Inr \<lparr>pf_relative_path = payload_posix p, pf_size_bytes = n, pf_line_count = l,
          pf_sha256 = payload_sha256 p\<rparr>"
proof -
  have "canonicalize_member_path (payload_posix p) = Inr (payload_path p)"
    using assms(1) unfolding payload_posix_def python_path_def by (intro canonicalize_join) auto
  moreover have "payload_posix p \<noteq> []"
    using python_path_py_suffix [OF assms(1)]
    by (auto simp: payload_posix_def)
  ultimately show ?thesis
    using assms python_path_py_suffix [OF assms(1)]
    by (simp add: make_python_file_def payload_posix_def)
qed

lemma build_result_ok:
  assumes va: "validate_archive nf sha open_archive bytes limits = Inr va"
    and sha: "\<And>bs. is_hex_digest (sha bs)"
  shows "\<exists>r. build_result root va = Inr r \<and> zr_task_root r = root
     \<and> map pf_relative_path (zr_python_files r) = map payload_posix (va_payloads va)"
proof -
  let ?f = "\<lambda>p. \<lparr>pf_relative_path = payload_posix p, pf_size_bytes = length (payload_bytes p),
              pf_line_count = payload_line_count p, pf_sha256 = payload_sha256 p\<rparr>"
  have "make_python_file (?f p) = Inr (?f p)" if "p \<in> set (va_payloads va)" for p
    using validated_paths(2) [OF va that] validated_contents [OF va that] sha
    by (intro make_python_file_payload) auto
  then have "traverseE (\<lambda>p. make_python_file (?f p)) (va_payloads va)
      = Inr (map ?f (va_payloads va))"
    by (rule traverseE_total)
  moreover have "sort (map payload_posix (va_payloads va)) = map payload_posix (va_payloads va)"
    using validated_paths(3) [OF va] by (simp add: sort_key_id strict_sorted_imp_sorted)
  ultimately show ?thesis
    using validated_counts(2,6) [OF va]
    by (simp add: build_result_def make_zip_guard_result_def comp_def)
qed

section \<open>The context owns what it created\<close>

text \<open>
  While a context is open, the world is the original one except below its own task root.
\<close>

definition owned ::
  "(string \<Rightarrow> string) \<Rightarrow> world \<Rightarrow> zip_guard_state \<Rightarrow> world \<Rightarrow> bool" where
  "owned fs w0 st w \<longleftrightarrow>
     (\<exists>root parent. zg_task_root st = Some root \<and> zg_cleanup_parent st = Some parent
        \<and> butlast root = parent \<and> prefix TASK_DIRECTORY_PREFIX (path_name root)
        \<and> w (map fs root) = Some Directory
        \<and> (\<forall>k. prefix (map fs root) k \<longrightarrow> w0 k = None)
        \<and> (\<forall>k. \<not> prefix (map fs root) k \<longrightarrow> w k = w0 k))"

lemma rmtree_all:
  "rmtree fs e root w = (True, w') \<Longrightarrow>
     w' = (\<lambda>k. if prefix (map fs root) k then None else w k)"
  by (rule ext) (auto simp: rmtree_def)

lemma cleanup_owned:
  assumes "owned fs w0 st w"
  shows "cleanup fs e st w = (Inr (), st\<lparr>zg_task_root := None, zg_closed := True\<rparr>, w0)
     \<or> fst (cleanup fs e st w) = Inl (GuardError CLEANUP_FAILED)"
proof -
  from assms obtain root parent where
    st: "zg_task_root st = Some root" "zg_cleanup_parent st = Some parent"
      "butlast root = parent" "prefix TASK_DIRECTORY_PREFIX (path_name root)"
      "w (map fs root) = Some Directory"
    and none: "\<And>k. prefix (map fs root) k \<Longrightarrow> w0 k = None"
    and same: "\<And>k. \<not> prefix (map fs root) k \<Longrightarrow> w k = w0 k"
    unfolding owned_def by blast
  obtain b w' where rm: "rmtree fs e root w = (b, w')"
    by (cases "rmtree fs e root w")
  show ?thesis
  proof (cases b)
    case True
    with rm have "w' = (\<lambda>k. if prefix (map fs root) k then None else w k)"
      by (simp add: rmtree_all)
    then have "w' = w0"
      using none same by auto
    with rm st True show ?thesis
      by (simp add: cleanup_def)
  next
    case False
    with rm st show ?thesis
      by (simp add: cleanup_def)
  qed
qed

text \<open>A fresh name, and a path that resolves to itself or outside its parent.\<close>

definition fresh_env :: "(string \<Rightarrow> string) \<Rightarrow> env \<Rightarrow> world \<Rightarrow> bool" where
  "fresh_env fs e w \<longleftrightarrow>
     (\<forall>parent random. env_parent e = Some parent \<and> env_mkdtemp e = Some random \<longrightarrow>
        (\<forall>k. prefix (map fs (parent @ [TASK_DIRECTORY_PREFIX @ random])) k \<longrightarrow> w k = None)
        \<and> (\<forall>q. env_resolve e (parent @ [TASK_DIRECTORY_PREFIX @ random]) = Some q \<longrightarrow>
             q = parent @ [TASK_DIRECTORY_PREFIX @ random] \<or> butlast q \<noteq> parent))"

lemma create_task_root_owned:
  assumes "fresh_env fs e w" and "zg_task_root st = None"
    and "create_task_root fs e st w = (r, st', w')"
  shows "(\<exists>err. r = Inl err \<and> zg_task_root st' = None \<and> w' = w) \<or> owned fs w st' w'"
    and "r = Inr root \<Longrightarrow> zg_task_root st' = Some root \<and> owned fs w st' w'"
proof -
  have own: "owned fs w s (w(map fs (parent @ [TASK_DIRECTORY_PREFIX @ random]) \<mapsto> Directory))"
    if "env_parent e = Some parent" "env_mkdtemp e = Some random"
      "zg_task_root s = Some (parent @ [TASK_DIRECTORY_PREFIX @ random])"
      "zg_cleanup_parent s = Some parent" for parent random s
    using assms(1) that unfolding owned_def fresh_env_def
    by (auto simp: path_name_def)
  show "(\<exists>err. r = Inl err \<and> zg_task_root st' = None \<and> w' = w) \<or> owned fs w st' w'"
    using assms own unfolding fresh_env_def create_task_root_def
    by (auto simp: Let_def simp del: map_append split: option.splits if_splits)
  show "zg_task_root st' = Some root \<and> owned fs w st' w'" if "r = Inr root"
    using assms own that unfolding fresh_env_def create_task_root_def
    by (auto simp: Let_def simp del: map_append split: option.splits if_splits)
qed

lemma owned_extract:
  assumes "owned fs w0 st w" and "zg_task_root st = Some root"
  shows "owned fs w0 st (snd (extract_python_payloads fs e root ps w))"
proof -
  have "snd (extract_python_payloads fs e root ps w) k = w k"
    if "\<not> strict_prefix (map fs root) k" for k
    using that by (rule extract_frame)
  with assms show ?thesis
    unfolding owned_def by (auto simp: strict_prefix_def)
qed

lemma fail_enter_owned:
  assumes "(zg_task_root st = None \<and> w = w0) \<or> owned fs w0 st w"
    and "fail_enter fs e err st w = (r, st', w')"
  shows "r = Inl (GuardError CLEANUP_FAILED)
     \<or> (r = Inl (reported err) \<and> zg_task_root st' = None \<and> zg_closed st' \<and> w' = w0)"
  using assms cleanup_owned [of fs w0 st w e]
  by (auto simp: fail_enter_def owned_def split: prod.splits sum.splits if_splits)

lemma enter_outcome:
  assumes fresh: "fresh_env fs e w"
    and st: "zg_task_root st = None"
    and enter: "enter nf sha open_archive fs e src limits st w = (r, st', w')"
  shows "(\<exists>res. r = Inr res \<and> owned fs w st' w' \<and> zg_task_root st' = Some (zr_task_root res))
     \<or> r = Inl (GuardError CLEANUP_FAILED)
     \<or> ((\<exists>err. r = Inl err) \<and> zg_task_root st' = None \<and> w' = w)"
proof (cases "zg_entered st \<or> zg_closed st")
  case True
  with enter st show ?thesis
    by (auto simp: enter_def)
next
  case False
  let ?st = "st\<lparr>zg_entered := True\<rparr>"
  let ?v = "bindE (read_archive_bytes src limits)
      (\<lambda>bs. validate_archive nf sha open_archive bs limits)"
  have clean: "?thesis" if "fail_enter fs e err s x = (r, st', w')"
    "(zg_task_root s = None \<and> x = w) \<or> owned fs w s x" for err s x
    using fail_enter_owned [OF that(2,1)] by blast
  show ?thesis
  proof (cases ?v)
    case (Inl err)
    with False enter st show ?thesis
      by (intro clean [of err ?st w]) (simp_all add: enter_def Let_def)
  next
    case (Inr va)
    obtain c st2 w2 where c: "create_task_root fs e ?st w = (c, st2, w2)"
      by (cases "create_task_root fs e ?st w")
    note own = create_task_root_owned [OF fresh _ c]
    show ?thesis
    proof (cases c)
      case (Inl err)
      with own(1) st have "(zg_task_root st2 = None \<and> w2 = w) \<or> owned fs w st2 w2" by auto
      with Inl False enter c Inr show ?thesis
        by (intro clean [of err st2 w2]) (simp_all add: enter_def Let_def)
    next
      case root: (Inr root)
      with own(2) st have o2: "zg_task_root st2 = Some root" "owned fs w st2 w2" by simp_all
      obtain x w3 where x: "extract_python_payloads fs e root (va_payloads va) w2 = (x, w3)"
        by (cases "extract_python_payloads fs e root (va_payloads va) w2")
      with owned_extract [OF o2(2,1), of e "va_payloads va"] have o3: "owned fs w st2 w3"
        by simp
      have step: "enter nf sha open_archive fs e src limits st w =
          (case x of Inl err \<Rightarrow> fail_enter fs e err st2 w3
           | Inr _ \<Rightarrow> (case build_result root va of Inl err \<Rightarrow> fail_enter fs e err st2 w3
                       | Inr res \<Rightarrow> (Inr res, st2, w3)))"
        using False by (simp add: enter_def Let_def Inr c root x split: sum.split)
      show ?thesis
      proof (cases "\<exists>res. r = Inr res \<and> build_result root va = Inr res \<and> st' = st2 \<and> w' = w3")
        case True
        then show ?thesis
          using o2(1) o3
          by (auto simp: build_result_def make_zip_guard_result_def split: if_splits)
      next
        case nores: False
        then have "\<exists>err. fail_enter fs e err st2 w3 = (r, st', w')"
          using enter step by (auto split: sum.splits)
        with o3 show ?thesis
          using clean by blast
      qed
    qed
  qed
qed

end
