(* ===== verification/ZipProps.thy ===== *)
theory ZipProps
  imports ZipLifecycle
begin

text \<open>
  The properties of the ZIP guard, and a small archive on which their hypotheses hold.
\<close>

section \<open>A sample archive\<close>

definition sample_info :: "string \<Rightarrow> int \<Rightarrow> zip_info" where
  "sample_info name n =
     \<lparr>orig_filename = name, filename = name, flag_bits = 0, compress_type = 8,
      external_attr = 0x81A40000, file_size = n, compress_size = n\<rparr>"

definition sample_archive :: zip_archive where
  "sample_archive =
     \<lparr>infolist = [sample_info ''pkg/a.py'' 2, sample_info ''README'' 1],
      open_member = (\<lambda>info. Some \<lparr>unread = (if file_size info = 2 then [0x78, 0x0A] else [0x79]),
                                  broken = False\<rparr>)\<rparr>"

definition sample_digest :: "byte list \<Rightarrow> string" where
  "sample_digest bs = replicate 64 CHR ''0''"

definition sample_plans :: "member_plan list" where
  "sample_plans =
     [make_plan id (sample_info ''pkg/a.py'' 2) [''pkg'', ''a.py''] False,
      make_plan id (sample_info ''README'' 1) [''README''] False]"

definition sample_payload :: python_payload where
  "sample_payload = \<lparr>payload_path = [''pkg'', ''a.py''], payload_bytes = [0x78, 0x0A],
     payload_line_count = 1, payload_sha256 = sample_digest [0x78, 0x0A]\<rparr>"

definition sample_validated :: validated_archive where
  "sample_validated = \<lparr>va_payloads = [sample_payload], va_member_count = 2,
     va_regular_file_count = 2, va_directory_count = 0, va_total_uncompressed_bytes = 3,
     va_python_total_lines = 1, va_ignored_python_file_count = 0,
     va_ignored_non_python_file_count = 1\<rparr>"

lemma limit_simps:
  "max_upload_bytes default_limits = 2097152" "max_members default_limits = 200"
  "max_member_uncompressed_bytes default_limits = 1048576"
  "max_total_uncompressed_bytes default_limits = 10485760"
  "max_compression_ratio default_limits = 100" "max_python_files default_limits = 200"
  "max_python_loc default_limits = 50000"
  by (simp_all add: default_limits_def MAX_UPLOAD_BYTES_def MAX_ZIP_MEMBERS_def
      MAX_MEMBER_UNCOMPRESSED_BYTES_def MAX_TOTAL_UNCOMPRESSED_BYTES_def
      MAX_COMPRESSION_RATIO_def MAX_PYTHON_FILES_def MAX_PYTHON_LOC_def)

lemma sample_paths:
  "canonicalize_member_path ''pkg/a.py'' = Inr [''pkg'', ''a.py'']"
  "canonicalize_member_path ''README'' = Inr [''README'']"
  by code_simp+

lemma sample_info_sel [simp]:
  "orig_filename (sample_info n k) = n" "filename (sample_info n k) = n"
  "file_size (sample_info n k) = k" "compress_size (sample_info n k) = k"
  by (simp_all add: sample_info_def)

lemma sample_kinds:
  "classify_member (sample_info n k) ''pkg/a.py'' = Inr False"
  "classify_member (sample_info n k) ''README'' = Inr False"
  by (simp_all add: sample_info_def classify_member_def Let_def S_IFMT_def S_IFREG_def
      S_IFDIR_def SUPPORTED_COMPRESSION_TYPES_def suffix_def take_bit_eq_mod)

lemma sample_plan_flags:
  "map plan_is_python sample_plans = [True, False]"
  "map plan_is_ignored_python sample_plans = [False, False]"
  by code_simp+

lemma sample_metadata:
  "validate_all_metadata id (infolist sample_archive) default_limits = Inr (sample_plans, 3)"
proof -
  have "traverseE (member_spec id default_limits) (infolist sample_archive) = Inr sample_plans"
    by (simp add: sample_archive_def member_spec_def sample_paths sample_kinds sample_plans_def
        validate_member_sizes_def limit_simps)
  moreover have "validate_file_directory_conflicts sample_plans = Inr ()"
    by code_simp
  moreover have "distinct (map plan_key sample_plans)"
    by code_simp
  moreover have "length (filter plan_is_python sample_plans) = 1"
    by code_simp
  ultimately show ?thesis
    unfolding validate_all_metadata_Inr
    by (simp add: sample_archive_def limit_simps)
qed

lemma sample_text: "utf8_sig_decode [0x78, 0x0A] = Some [0x78, 0x0A]"
  "length (splitlines [0x78, 0x0A]) = 1"
  by (simp_all add: utf8_sig_decode_def Let_def splitlines_def is_line_end_def)

lemma sample_read:
  "read_member_bounded sample_archive (make_plan id (sample_info ''pkg/a.py'' 2) [''pkg'', ''a.py''] False)
     default_limits 0 = Inr (Some [0x78, 0x0A], 2)"
  "read_member_bounded sample_archive (make_plan id (sample_info ''README'' 1) [''README''] False)
     default_limits 2 = Inr (None, 1)"
  using sample_plan_flags(1)
  by (simp_all add: read_member_bounded_Inr sample_archive_def limit_simps sample_plans_def
      del: member_plan.simps)

lemma sample_validate:
  "validate_archive id sample_digest (\<lambda>_. Some sample_archive) bs default_limits
     = Inr sample_validated"
proof -
  have "read_members sample_digest sample_archive default_limits sample_plans [] 0 0
      = Inr ([sample_payload], 3, 1)"
    using sample_plan_flags(1)
    by (simp add: sample_plans_def sample_read sample_text limit_simps sample_payload_def Let_def)
  moreover have "length (filter (\<lambda>p. \<not> plan_is_directory p) sample_plans) = 2"
    "length (filter plan_is_ignored_python sample_plans) = 0" "length sample_plans = 2"
    "length (filter (\<lambda>p. \<not> plan_is_directory p \<and> \<not> plan_is_python p
        \<and> \<not> plan_is_ignored_python p) sample_plans) = 1"
    by code_simp+
  ultimately have
    "read_and_validate_all_members sample_digest sample_archive sample_plans 3 default_limits
       = Inr sample_validated"
    by (simp add: read_and_validate_all_members_def Let_def sample_validated_def)
  then show ?thesis
    by (simp add: validate_archive_def sample_metadata)
qed


section \<open>Properties\<close>

text \<open>C6: an accepted member path consists of safe components only (none empty, no dot
  components, no separator, no NUL, no drive or stream colon, no reserved device name), and
  the canonical text of the path is accepted again with the same components.\<close>

theorem canonical_path_safe:
  assumes "canonicalize_member_path raw = Inr ps"
  shows "ps \<noteq> [] \<and> (\<forall>p \<in> set ps. safe_component p)
     \<and> canonicalize_member_path (join ''/'' ps) = Inr ps"
  using canonicalize_safe [OF assms] canonicalize_idem [OF assms] by blast

theorem canonical_path_safe_witness:
  "safe_component ''pkg'' \<and> safe_component ''a.py''
     \<and> canonicalize_member_path (join ''/'' [''pkg'', ''a.py'']) = Inr [''pkg'', ''a.py'']"
  using canonical_path_safe [OF sample_paths(1)] by simp

text \<open>C3: the header validation accepts exactly the archives whose members are each
  acceptable by themselves, whose declared sizes add up to no more than the limit, whose
  folded paths are pairwise different with no file above another member, and whose Python
  files are not too many; it returns their plans in archive order and the declared total.\<close>

theorem metadata_decision:
  "validate_all_metadata nf infos limits = Inr (plans, tot) \<longleftrightarrow>
     length infos \<le> max_members limits
     \<and> traverseE (member_spec nf limits) infos = Inr plans
     \<and> tot = sum_list (map file_size infos)
     \<and> tot \<le> int (max_total_uncompressed_bytes limits)
     \<and> distinct (map plan_key plans)
     \<and> (\<forall>p \<in> set plans. \<forall>q \<in> set plans.
          \<not> plan_is_directory p \<longrightarrow> \<not> strict_prefix (plan_key p) (plan_key q))
     \<and> length (filter plan_is_python plans) \<le> max_python_files limits"
  unfolding validate_all_metadata_Inr file_directory_conflicts_Inr ..

theorem metadata_decision_witness:
  "distinct (map plan_key sample_plans)
     \<and> sum_list (map file_size (infolist sample_archive)) = 3
     \<and> traverseE (member_spec id default_limits) (infolist sample_archive) = Inr sample_plans"
  using sample_metadata unfolding metadata_decision by simp

text \<open>C5: reading one member returns its whole stream, and only when the stream is intact
  and its length within the member limit and the archive total; a read can neither truncate
  a member nor go beyond the limits.\<close>

theorem member_read_exact:
  "read_member_bounded archive plan limits prior = Inr (payload, n) \<longleftrightarrow>
     (\<exists>bs. open_member archive (plan_info plan) = Some \<lparr>unread = bs, broken = False\<rparr>
        \<and> n = length bs \<and> payload = (if plan_is_python plan then Some bs else None)
        \<and> (bs \<noteq> [] \<longrightarrow> n \<le> max_member_uncompressed_bytes limits
              \<and> prior + n \<le> max_total_uncompressed_bytes limits))"
  by (rule read_member_bounded_Inr)

theorem member_read_exact_witness:
  "read_member_bounded sample_archive (hd sample_plans) default_limits 0
     = Inr (Some [0x78, 0x0A], 2)"
  using sample_plan_flags(1)
  by (simp add: member_read_exact sample_archive_def limit_simps sample_plans_def
      del: member_plan.simps)

text \<open>C4: an accepted archive yields an inventory in strict path order, of Python files
  outside the ignored directories whose folded paths never clash, each with the digest and
  line count of its own UTF-8 bytes; member, file, byte and line totals are consistent and
  within the limits.\<close>

theorem archive_inventory:
  assumes "validate_archive nf sha open_archive bytes limits = Inr va"
  shows "sorted_wrt (<) (map payload_posix (va_payloads va))
     \<and> clash_free nf (map payload_path (va_payloads va))
     \<and> (\<forall>p \<in> set (va_payloads va). python_path (payload_path p)
          \<and> payload_sha256 p = sha (payload_bytes p)
          \<and> (\<exists>t. utf8_sig_decode (payload_bytes p) = Some t
               \<and> payload_line_count p = length (splitlines t))
          \<and> length (payload_bytes p) \<le> max_member_uncompressed_bytes limits)
     \<and> va_member_count va \<le> max_members limits
     \<and> va_member_count va = va_regular_file_count va + va_directory_count va
     \<and> va_total_uncompressed_bytes va \<le> max_total_uncompressed_bytes limits
     \<and> length (va_payloads va) \<le> max_python_files limits
     \<and> va_python_total_lines va = sum_list (map payload_line_count (va_payloads va))
     \<and> va_python_total_lines va \<le> max_python_loc limits"
  using validated_paths [OF assms] validated_counts [OF assms] validated_contents [OF assms]
  by blast

theorem archive_inventory_witness:
  "sorted_wrt (<) (map payload_posix (va_payloads sample_validated))
     \<and> va_python_total_lines sample_validated \<le> max_python_loc default_limits"
  using archive_inventory [OF sample_validate [of "[]"]] by blast

text \<open>C1: on any file system whose name comparison is no coarser than the guard's folding,
  extracting a validated archive into an empty task root never collides: the world gains
  exactly the payloads, at their own paths, and the directories above them.\<close>

theorem extraction_exact:
  assumes "validate_archive nf sha open_archive bytes limits = Inr va"
    and "\<forall>a b. fs a = fs b \<longrightarrow> nf a = nf b"
    and "\<And>k. strict_prefix (map fs root) k \<Longrightarrow> w k = None"
    and "\<And>d. env_io_ok e d"
  shows "extract_python_payloads fs e root (va_payloads va) w
     = (Inr (), extracted fs root (va_payloads va) w)"
  using validated_paths(1,2) [OF assms(1)] clash_free_refine [OF assms(2)] assms(3,4)
  by (intro extract_python_payloads_world) auto

definition sample_env :: env where
  "sample_env = \<lparr>env_parent = Some [''tmp''], env_parent_is_dir = True,
     env_mkdtemp = Some ''x1'', env_resolve = Some, env_io_ok = (\<lambda>_. True), env_written = (\<lambda>_. None),
     env_undeletable = []\<rparr>"

definition sample_world :: world where
  "sample_world = [[''tmp''] \<mapsto> Directory]"

theorem extraction_exact_witness:
  "extract_python_payloads id sample_env [''tmp'', ''r''] (va_payloads sample_validated)
       sample_world
     = (Inr (), extracted id [''tmp'', ''r''] (va_payloads sample_validated) sample_world)"
  by (rule extraction_exact [OF sample_validate [of "[]"]])
    (auto simp: sample_world_def sample_env_def strict_prefix_def)

text \<open>C8: the inventory of a validated archive always satisfies the checks of the models
  handed to the scanner, so entering the context never fails after a successful
  extraction.\<close>

theorem inventory_well_formed:
  assumes "validate_archive nf sha open_archive bytes limits = Inr va"
    and "\<And>bs. is_hex_digest (sha bs)"
  shows "\<exists>r. build_result root va = Inr r \<and> zr_task_root r = root
     \<and> map pf_relative_path (zr_python_files r) = map payload_posix (va_payloads va)"
  using assms by (rule build_result_ok)

theorem inventory_well_formed_witness:
  "\<exists>r. build_result [''tmp'', ''r''] sample_validated = Inr r"
  using inventory_well_formed [OF sample_validate [of "[]"], of "[''tmp'', ''r'']"]
  by (auto simp: is_hex_digest_def sample_digest_def)

text \<open>C2: entering the context either succeeds, and then the world has changed below the
  returned task root only, or raises, and then (unless the cleanup itself failed) the world
  is exactly what it was and no task root is left.\<close>

theorem enter_all_or_nothing:
  assumes "fresh_env fs e w" and "zg_task_root st = None"
    and "enter nf sha open_archive fs e src limits st w = (r, st', w')"
  shows "(\<exists>res. r = Inr res \<and> zg_task_root st' = Some (zr_task_root res)
        \<and> (\<forall>k. \<not> prefix (map fs (zr_task_root res)) k \<longrightarrow> w' k = w k))
     \<or> r = Inl (GuardError CLEANUP_FAILED)
     \<or> ((\<exists>err. r = Inl err) \<and> zg_task_root st' = None \<and> w' = w)"
  using enter_outcome [OF assms] unfolding owned_def by fastforce

lemma sample_fresh: "fresh_env id sample_env sample_world"
  by (auto simp: fresh_env_def sample_env_def sample_world_def)

theorem enter_all_or_nothing_witness:
  "\<exists>r st' w'. enter id sample_digest (\<lambda>_. None) id sample_env (SourceBytes []) default_limits
        zip_guard_init sample_world = (r, st', w') \<and> w' = sample_world"
proof -
  obtain r st' w' where e: "enter id sample_digest (\<lambda>_. None) id sample_env (SourceBytes [])
      default_limits zip_guard_init sample_world = (r, st', w')"
    by (metis prod_cases3)
  then have "r = Inl (GuardError INVALID_ARCHIVE)"
    by (simp add: enter_def zip_guard_init_def limit_simps validate_archive_def
        fail_enter_def Let_def)
  with enter_all_or_nothing [OF sample_fresh _ e] e show ?thesis
    by (auto simp: zip_guard_init_def)
qed

text \<open>C7: leaving the context restores the world it was entered in, and cleaning up again
  changes nothing.\<close>

theorem exit_restores:
  assumes "fresh_env fs e w" and "zg_task_root st = None"
    and "enter nf sha open_archive fs e src limits st w = (Inr res, st', w')"
    and "cleanup fs e st' w' = (Inr (), st'', w'')"
  shows "w'' = w \<and> zg_task_root st'' = None \<and> cleanup fs e st'' w'' = (Inr (), st'', w'')"
proof -
  have "owned fs w st' w'"
    using enter_outcome [OF assms(1-3)] by auto
  then show ?thesis
    using cleanup_owned [of fs w st' w' e] assms(4) by (auto simp: cleanup_def)
qed

lemma sample_enter:
  "\<exists>res st' w' st'' w''. enter id sample_digest (\<lambda>_. Some sample_archive) id sample_env
        (SourceBytes []) default_limits zip_guard_init sample_world = (Inr res, st', w')
     \<and> cleanup id sample_env st' w' = (Inr (), st'', w'')"
proof -
  let ?root = "[''tmp'', TASK_DIRECTORY_PREFIX @ ''x1'']"
  let ?w = "sample_world(?root \<mapsto> Directory)"
  obtain res where res: "build_result ?root sample_validated = Inr res"
    using build_result_ok [OF sample_validate [of "[]"], of ?root]
    by (auto simp: is_hex_digest_def sample_digest_def)
  have ex: "extract_python_payloads id sample_env ?root (va_payloads sample_validated) ?w
      = (Inr (), extracted id ?root (va_payloads sample_validated) ?w)"
    by (rule extract_python_payloads_world)
      (use validated_paths(1,2) [OF sample_validate [of "[]"]] in
        \<open>auto simp: sample_env_def sample_world_def strict_prefix_def\<close>)
  have root: "extracted id ?root (va_payloads sample_validated) ?w ?root = Some Directory"
    using extract_frame [of id ?root ?root sample_env "va_payloads sample_validated" ?w] ex
    by simp
  show ?thesis
    by (simp add: enter_def zip_guard_init_def limit_simps Let_def sample_validate
        create_task_root_def sample_env_def [THEN arg_cong, of env_parent]
        sample_env_def [THEN arg_cong, of env_parent_is_dir]
        sample_env_def [THEN arg_cong, of env_mkdtemp]
        sample_env_def [THEN arg_cong, of env_resolve]
        sample_env_def [THEN arg_cong, of env_undeletable]
        ex res cleanup_def root path_name_def rmtree_def)
qed

theorem exit_restores_witness:
  "\<exists>st' w' st''. cleanup id sample_env st' w' = (Inr (), st'', sample_world)"
proof -
  from sample_enter obtain res st' w' st'' w'' where
    e: "enter id sample_digest (\<lambda>_. Some sample_archive) id sample_env
        (SourceBytes []) default_limits zip_guard_init sample_world = (Inr res, st', w')"
    and c: "cleanup id sample_env st' w' = (Inr (), st'', w'')"
    by blast
  have "w'' = sample_world"
    using exit_restores [OF sample_fresh _ e c] by (simp add: zip_guard_init_def)
  with c show ?thesis by blast
qed

end
