(* ===== verification/ScannerModels.thy ===== *)
theory ScannerModels
  imports PyText
begin

text \<open>
  \<open>app/scanner/models.py\<close>: the records of the scanner's registry and their checked
  constructors (pydantic raises \<open>ValidationError\<close>, here \<open>Inl ScanValidationErr\<close>), and the
  errors of \<open>app/scanner/ast_scanner.py\<close>.
\<close>

datatype scanner_error_type =
    INVALID_INVENTORY | TASK_ROOT_UNAVAILABLE | FILE_MISSING | FILE_READ_FAILED
  | FILE_IDENTITY_MISMATCH | SCAN_NON_UTF8_PYTHON | SYNTAX_ERROR | INVALID_MODULE_PATH
  | MODULE_NAME_CONFLICT

datatype scan_exn =
    ScannerErr scanner_error_type | ScanRuntimeErr | ScanValidationErr

datatype import_kind = IMPORT | FROM

datatype base_model_evidence = NONE | DIRECT | LOCAL_INHERITANCE

datatype assignment_evidence = ANNOTATION | CONSTRUCTOR_CALL

fun evidence_value :: "base_model_evidence \<Rightarrow> string" where
  "evidence_value NONE = ''none''"
| "evidence_value DIRECT = ''direct''"
| "evidence_value LOCAL_INHERITANCE = ''local_inheritance''"

record source_location =
  loc_path :: string
  loc_line :: nat
  loc_column :: nat
  loc_end_line :: nat
  loc_end_column :: nat

definition valid_location :: "source_location \<Rightarrow> bool" where
  "valid_location l \<longleftrightarrow>
     loc_path l \<noteq> [] \<and> 1 \<le> loc_line l \<and> 1 \<le> loc_end_line l
     \<and> \<not> (loc_end_line l, loc_end_column l) < (loc_line l, loc_column l)"

definition make_source_location :: "source_location \<Rightarrow> scan_exn + source_location" where
  "make_source_location l = (if valid_location l then Inr l else Inl ScanValidationErr)"

record file_record =
  file_path :: string
  file_module :: string
  file_is_package :: bool
  file_size_bytes :: nat
  file_line_count :: nat
  file_sha256 :: string
  file_ast_sha256 :: string
  file_node_count :: nat
  file_statement_count :: nat

record module_record =
  mod_path :: string
  mod_name :: string
  mod_is_package :: bool

record import_record =
  imp_kind :: import_kind
  imp_module :: "string option"
  imp_name :: "string option"
  imp_local :: string
  imp_alias :: "string option"
  imp_level :: nat
  imp_index :: nat
  imp_scope :: "string list"
  imp_location :: source_location

record class_record =
  cls_path :: string
  cls_module :: string
  cls_name :: string
  cls_qualified :: string
  cls_scope :: "string list"
  cls_bases :: "string list"
  cls_is_base_model :: bool
  cls_evidence :: base_model_evidence
  cls_location :: source_location

record parameter_type_clue =
  par_path :: string
  par_module :: string
  par_function :: string
  par_name :: string
  par_type :: string
  par_class :: "string option"
  par_is_base_model :: bool
  par_location :: source_location

record assignment_type_clue =
  asg_path :: string
  asg_module :: string
  asg_scope :: "string list"
  asg_target :: string
  asg_type :: string
  asg_evidence :: assignment_evidence
  asg_class :: "string option"
  asg_is_base_model :: bool
  asg_location :: source_location

record scanner_registry =
  reg_files :: "file_record list"
  reg_modules :: "module_record list"
  reg_imports :: "import_record list"
  reg_classes :: "class_record list"
  reg_parameters :: "parameter_type_clue list"
  reg_assignments :: "assignment_type_clue list"

definition is_digest :: "string \<Rightarrow> bool" where
  "is_digest s \<longleftrightarrow> length s = 64 \<and> set s \<subseteq> set ''0123456789abcdef''"

definition make_file_record :: "file_record \<Rightarrow> scan_exn + file_record" where
  "make_file_record f =
     (if file_path f \<noteq> [] \<and> file_module f \<noteq> [] \<and> is_digest (file_sha256 f)
         \<and> is_digest (file_ast_sha256 f) \<and> 1 \<le> file_node_count f
      then Inr f else Inl ScanValidationErr)"

definition make_import_record :: "import_record \<Rightarrow> scan_exn + import_record" where
  "make_import_record i = (if imp_local i \<noteq> [] then Inr i else Inl ScanValidationErr)"

definition make_class_record :: "class_record \<Rightarrow> scan_exn + class_record" where
  "make_class_record c =
     (if cls_path c \<noteq> [] \<and> cls_module c \<noteq> [] \<and> cls_name c \<noteq> [] \<and> cls_qualified c \<noteq> []
         \<and> cls_is_base_model c = (cls_evidence c \<noteq> NONE)
      then Inr c else Inl ScanValidationErr)"

definition make_parameter_clue ::
  "parameter_type_clue \<Rightarrow> scan_exn + parameter_type_clue" where
  "make_parameter_clue p =
     (if par_path p \<noteq> [] \<and> par_module p \<noteq> [] \<and> par_function p \<noteq> [] \<and> par_name p \<noteq> []
         \<and> par_type p \<noteq> []
      then Inr p else Inl ScanValidationErr)"

definition make_assignment_clue ::
  "assignment_type_clue \<Rightarrow> scan_exn + assignment_type_clue" where
  "make_assignment_clue a =
     (if asg_path a \<noteq> [] \<and> asg_module a \<noteq> [] \<and> asg_target a \<noteq> [] \<and> asg_type a \<noteq> []
      then Inr a else Inl ScanValidationErr)"

definition make_registry :: "scanner_registry \<Rightarrow> scan_exn + scanner_registry" where
  "make_registry r =
     (let file_paths = map file_path (reg_files r);
          module_paths = map mod_path (reg_modules r);
          module_names = map mod_name (reg_modules r)
      in if file_paths \<noteq> sort file_paths then Inl ScanValidationErr
         else if module_paths \<noteq> file_paths then Inl ScanValidationErr
         else if \<not> distinct module_names then Inl ScanValidationErr
         else if \<exists>(f, m) \<in> set (zip (reg_files r) (reg_modules r)).
                   (file_module f, file_is_package f) \<noteq> (mod_name m, mod_is_package m)
         then Inl ScanValidationErr
         else if \<exists>p \<in> set (map (loc_path \<circ> imp_location) (reg_imports r)
                       @ map (loc_path \<circ> cls_location) (reg_classes r)
                       @ map (loc_path \<circ> par_location) (reg_parameters r)
                       @ map (loc_path \<circ> asg_location) (reg_assignments r)).
                   p \<notin> set file_paths
         then Inl ScanValidationErr
         else Inr r)"

text \<open>\<open>_located_sort_key\<close>: an attribute the record does not have counts as \<open>0\<close> or \<open>""\<close>.\<close>

type_synonym located_key = "string \<times> nat \<times> nat \<times> nat \<times> string \<times> string \<times> string"

definition located_key ::
  "source_location \<Rightarrow> nat \<Rightarrow> string \<Rightarrow> string \<Rightarrow> string \<Rightarrow> located_key" where
  "located_key l index qualified parameter target =
     (loc_path l, loc_line l, loc_column l, index, qualified, parameter, target)"

definition import_key :: "import_record \<Rightarrow> located_key" where
  "import_key i = located_key (imp_location i) (imp_index i) [] [] []"

definition class_key :: "class_record \<Rightarrow> located_key" where
  "class_key c = located_key (cls_location c) 0 (cls_qualified c) [] []"

definition parameter_key :: "parameter_type_clue \<Rightarrow> located_key" where
  "parameter_key p = located_key (par_location p) 0 [] (par_name p) []"

definition assignment_key :: "assignment_type_clue \<Rightarrow> located_key" where
  "assignment_key a = located_key (asg_location a) 0 [] [] (asg_target a)"

end
