(* ===== verification/PyAst.thy ===== *)
theory PyAst
  imports PyText
begin

text \<open>
  The Python abstract syntax trees that \<open>app/scanner\<close> reads: a constructor of \<open>node\<close> for
  every class of the standard \<open>ast\<close> module that the code inspects, \<open>Other\<close> for the rest.
  The parser itself (\<open>ast.parse\<close>) is an argument of the scanner.

  A synchronous class and its \<open>Async\<close> twin share a constructor with a flag, because the
  code treats them alike.  \<open>children\<close> lists the sub-nodes in the order of \<open>_fields\<close>, which
  is the order of \<open>NodeVisitor.generic_visit\<close>; the expression context of a name, which no
  visitor of the code looks at, is a field and not a child.
\<close>

record pos =
  pos_line :: nat
  pos_col :: nat
  pos_end_line :: nat
  pos_end_col :: nat

datatype expr_context = Load | Store | Del

datatype node =
    Module (module_body: "node list") "node list"
  | Import pos "node list"
  | ImportFrom pos "string option" "node list" nat
  | Alias pos string "string option"
  | ClassDef pos string "node list" "node list" "node list" "node list"
  | FunctionDef bool pos string node "node list" "node list" "node option"
  | Arguments "node list" "node list" "node option" "node list" "node option list"
      "node option" "node list"
  | Arg pos string "node option"
  | Assign pos "node list" node
  | AnnAssign pos node node "node option"
  | AugAssign pos node node node
  | NamedExpr pos node node
  | For bool pos node node "node list" "node list"
  | With bool pos "node list" "node list"
  | Withitem node "node option"
  | ExceptHandler pos "node option" "string option" "node list"
  | Delete pos "node list"
  | Global pos "string list"
  | Nonlocal pos "string list"
  | Name pos string expr_context
  | Attribute pos node string expr_context
  | Call pos node "node list" "node list"
  | Keyword pos "string option" node
  | Subscript pos node node expr_context
  | TupleExpr pos "node list" expr_context
  | ListExpr pos "node list" expr_context
  | Other string "pos option" "node list"

definition opt_list :: "'a option \<Rightarrow> 'a list" where
  "opt_list x = (case x of None \<Rightarrow> [] | Some y \<Rightarrow> [y])"

fun children :: "node \<Rightarrow> node list" where
  "children (Module body ignores) = body @ ignores"
| "children (Import p names) = names"
| "children (ImportFrom p m names level) = names"
| "children (Alias p n a) = []"
| "children (ClassDef p n bases keywords body decorators) =
     bases @ keywords @ body @ decorators"
| "children (FunctionDef is_async p n args body decorators returns) =
     args # body @ decorators @ opt_list returns"
| "children (Arguments posonly args vararg kwonly kw_defaults kwarg defaults) =
     posonly @ args @ opt_list vararg @ kwonly @ concat (map opt_list kw_defaults)
     @ opt_list kwarg @ defaults"
| "children (Arg p n annotation) = opt_list annotation"
| "children (Assign p targets v) = targets @ [v]"
| "children (AnnAssign p target annotation v) = target # annotation # opt_list v"
| "children (AugAssign p target op v) = [target, op, v]"
| "children (NamedExpr p target v) = [target, v]"
| "children (For is_async p target iter body orelse) = target # iter # body @ orelse"
| "children (With is_async p items body) = items @ body"
| "children (Withitem e vars) = e # opt_list vars"
| "children (ExceptHandler p t n body) = opt_list t @ body"
| "children (Delete p targets) = targets"
| "children (Global p names) = []"
| "children (Nonlocal p names) = []"
| "children (Name p i ctx) = []"
| "children (Attribute p v a ctx) = [v]"
| "children (Call p f args keywords) = f # args @ keywords"
| "children (Keyword p a v) = [v]"
| "children (Subscript p v s ctx) = [v, s]"
| "children (TupleExpr p elts ctx) = elts"
| "children (ListExpr p elts ctx) = elts"
| "children (Other c p cs) = cs"

fun node_pos :: "node \<Rightarrow> pos option" where
  "node_pos (Module _ _) = None"
| "node_pos (Import p _) = Some p"
| "node_pos (ImportFrom p _ _ _) = Some p"
| "node_pos (Alias p _ _) = Some p"
| "node_pos (ClassDef p _ _ _ _ _) = Some p"
| "node_pos (FunctionDef _ p _ _ _ _ _) = Some p"
| "node_pos (Arguments _ _ _ _ _ _ _) = None"
| "node_pos (Arg p _ _) = Some p"
| "node_pos (Assign p _ _) = Some p"
| "node_pos (AnnAssign p _ _ _) = Some p"
| "node_pos (AugAssign p _ _ _) = Some p"
| "node_pos (NamedExpr p _ _) = Some p"
| "node_pos (For _ p _ _ _ _) = Some p"
| "node_pos (With _ p _ _) = Some p"
| "node_pos (Withitem _ _) = None"
| "node_pos (ExceptHandler p _ _ _) = Some p"
| "node_pos (Delete p _) = Some p"
| "node_pos (Global p _) = Some p"
| "node_pos (Nonlocal p _) = Some p"
| "node_pos (Name p _ _) = Some p"
| "node_pos (Attribute p _ _ _) = Some p"
| "node_pos (Call p _ _ _) = Some p"
| "node_pos (Keyword p _ _) = Some p"
| "node_pos (Subscript p _ _ _) = Some p"
| "node_pos (TupleExpr p _ _) = Some p"
| "node_pos (ListExpr p _ _) = Some p"
| "node_pos (Other _ p _) = p"

text \<open>The class name, \<open>type(node).__name__\<close>.\<close>

fun class_name :: "node \<Rightarrow> string" where
  "class_name (Module _ _) = ''Module''"
| "class_name (Import _ _) = ''Import''"
| "class_name (ImportFrom _ _ _ _) = ''ImportFrom''"
| "class_name (Alias _ _ _) = ''alias''"
| "class_name (ClassDef _ _ _ _ _ _) = ''ClassDef''"
| "class_name (FunctionDef a _ _ _ _ _ _) = (if a then ''AsyncFunctionDef'' else ''FunctionDef'')"
| "class_name (Arguments _ _ _ _ _ _ _) = ''arguments''"
| "class_name (Arg _ _ _) = ''arg''"
| "class_name (Assign _ _ _) = ''Assign''"
| "class_name (AnnAssign _ _ _ _) = ''AnnAssign''"
| "class_name (AugAssign _ _ _ _) = ''AugAssign''"
| "class_name (NamedExpr _ _ _) = ''NamedExpr''"
| "class_name (For a _ _ _ _ _) = (if a then ''AsyncFor'' else ''For'')"
| "class_name (With a _ _ _) = (if a then ''AsyncWith'' else ''With'')"
| "class_name (Withitem _ _) = ''withitem''"
| "class_name (ExceptHandler _ _ _ _) = ''ExceptHandler''"
| "class_name (Delete _ _) = ''Delete''"
| "class_name (Global _ _) = ''Global''"
| "class_name (Nonlocal _ _) = ''Nonlocal''"
| "class_name (Name _ _ _) = ''Name''"
| "class_name (Attribute _ _ _ _) = ''Attribute''"
| "class_name (Call _ _ _ _) = ''Call''"
| "class_name (Keyword _ _ _) = ''keyword''"
| "class_name (Subscript _ _ _ _) = ''Subscript''"
| "class_name (TupleExpr _ _ _) = ''Tuple''"
| "class_name (ListExpr _ _ _) = ''List''"
| "class_name (Other c _ _) = c"

section \<open>Induction and recursion over children\<close>

lemma size_list_member: "x \<in> set xs \<Longrightarrow> size x < Suc (size_list size xs)"
  by (induction xs) auto

lemma set_opt_list [simp]: "set (opt_list x) = set_option x"
  by (cases x) (auto simp: opt_list_def)

lemma size_option_member: "x \<in> set_option o' \<Longrightarrow> size x < Suc (size_option size o')"
  by (cases o') auto

lemma size_option_list_member:
  "Some x \<in> set os \<Longrightarrow> size x < Suc (size_list (size_option size) os)"
  by (induction os) auto

lemma child_size: "x \<in> set (children n) \<Longrightarrow> size x < size n"
  by (cases n)
    (auto dest!: size_list_member size_option_member size_option_list_member)

text \<open>\<open>sum(1 for _ in ast.walk(tree))\<close>: the expression context of a name, an attribute, a
  subscript or a display is a node of its own.\<close>

definition has_context :: "node \<Rightarrow> bool" where
  "has_context n = (case n of
     Name _ _ _ \<Rightarrow> True | Attribute _ _ _ _ \<Rightarrow> True | Subscript _ _ _ _ \<Rightarrow> True
   | TupleExpr _ _ _ \<Rightarrow> True | ListExpr _ _ _ \<Rightarrow> True | _ \<Rightarrow> False)"

function node_count :: "node \<Rightarrow> nat" where
  "node_count n =
     1 + (if has_context n then 1 else 0) + sum_list (map node_count (children n))"
  by pat_completeness auto
termination
  by (relation "measure size") (auto intro: child_size)

declare node_count.simps [simp del]

section \<open>Dotted names\<close>

text \<open>\<open>_dotted_name\<close>: \<open>a.b.c\<close> of a chain of attributes on a name.\<close>

fun dotted_name :: "node \<Rightarrow> string option" where
  "dotted_name (Name p i ctx) = Some i"
| "dotted_name (Attribute p v attr ctx) =
     (case dotted_name v of None \<Rightarrow> None | Some d \<Rightarrow> Some (d @ ''.'' @ attr))"
| "dotted_name _ = None"

definition dotted_name_opt :: "node option \<Rightarrow> string option" where
  "dotted_name_opt n = (case n of None \<Rightarrow> None | Some m \<Rightarrow> dotted_name m)"

text \<open>\<open>_symbol_reference_node\<close>: calls and subscripts are peeled off.\<close>

fun symbol_reference_node :: "node \<Rightarrow> node" where
  "symbol_reference_node (Call p f args keywords) = symbol_reference_node f"
| "symbol_reference_node (Subscript p v s ctx) = symbol_reference_node v"
| "symbol_reference_node n = n"

lemma symbol_reference_not_call:
  "\<not> (case symbol_reference_node n of Call _ _ _ _ \<Rightarrow> True | Subscript _ _ _ _ \<Rightarrow> True | _ \<Rightarrow> False)"
  by (induction n rule: symbol_reference_node.induct) auto

lemma symbol_reference_idem [simp]:
  "symbol_reference_node (symbol_reference_node n) = symbol_reference_node n"
  by (induction n rule: symbol_reference_node.induct) auto

text \<open>\<open>_bound_names\<close> and \<open>_bound_name_nodes\<close>: the names bound by an assignment target.\<close>

function bound_name_nodes :: "node \<Rightarrow> node list" where
  "bound_name_nodes n =
     (case n of
        Name _ _ _ \<Rightarrow> [n]
      | TupleExpr _ elts _ \<Rightarrow> concat (map bound_name_nodes elts)
      | ListExpr _ elts _ \<Rightarrow> concat (map bound_name_nodes elts)
      | _ \<Rightarrow> [])"
  by pat_completeness auto
termination
  by (relation "measure size") (auto dest: size_list_member)

declare bound_name_nodes.simps [simp del]

fun name_id :: "node \<Rightarrow> string" where
  "name_id (Name p i ctx) = i"
| "name_id _ = []"

function bound_names :: "node \<Rightarrow> string list" where
  "bound_names n =
     (case n of
        Name _ i _ \<Rightarrow> [i]
      | TupleExpr _ elts _ \<Rightarrow> concat (map bound_names elts)
      | ListExpr _ elts _ \<Rightarrow> concat (map bound_names elts)
      | _ \<Rightarrow> [])"
  by pat_completeness auto
termination
  by (relation "measure size") (auto dest: size_list_member)

declare bound_names.simps [simp del]

lemma bound_name_nodes_Name:
  "t \<in> set (bound_name_nodes n) \<Longrightarrow> \<exists>p i ctx. t = Name p i ctx"
proof (induction n rule: bound_name_nodes.induct)
  case (1 n)
  then show ?case
    by (subst (asm) (3) bound_name_nodes.simps) (auto split: node.splits)
qed

end
