(* ===== verification/SymbolCollector.thy ===== *)
theory SymbolCollector
  imports ScannerModels PyAst
begin

text \<open>
  \<open>_SymbolCollector\<close> of \<open>app/scanner/ast_scanner.py\<close>: the walk over one tree.

  The visitor appends to its lists while it walks; the model returns, for a node and the
  scopes it is visited in, the events in the order of the appends.  An event that could not
  be built (a pydantic check fails) is an \<open>Inl\<close>; the first one aborts the walk.
\<close>

datatype scope_kind = ClassScope | FunctionScope

type_synonym scopes = "(scope_kind \<times> string) list"

definition scope_path :: "scopes \<Rightarrow> string list" where
  "scope_path sc = map snd sc"

record raw_class =
  raw_name :: string
  raw_qualified :: string
  raw_scope :: "string list"
  raw_bases :: "string list"
  raw_location :: source_location

record raw_parameter =
  rp_function :: string
  rp_name :: string
  rp_type :: string
  rp_scope :: "string list"
  rp_location :: source_location

record raw_assignment =
  ra_scope :: "string list"
  ra_target :: string
  ra_type :: string
  ra_evidence :: assignment_evidence
  ra_location :: source_location

datatype symbol_event =
    ImportEvent import_record
  | ClassEvent raw_class
  | ParameterEvent raw_parameter
  | AssignmentEvent raw_assignment
  | BindingEvent string

type_synonym symbol_result = "scan_exn + symbol_event"

section \<open>Locations and labels\<close>

text \<open>\<open>_location\<close>: a missing or zero end falls back to the start (Python's \<open>or\<close>).\<close>

definition location_at :: "string \<Rightarrow> pos \<Rightarrow> source_location" where
  "location_at path p =
     \<lparr>loc_path = path, loc_line = pos_line p, loc_column = pos_col p,
      loc_end_line = (if pos_end_line p = 0 then pos_line p else pos_end_line p),
      loc_end_column = (if pos_end_col p = 0 then pos_col p else pos_end_col p)\<rparr>"

definition node_location :: "string \<Rightarrow> node \<Rightarrow> node option \<Rightarrow> scan_exn + source_location" where
  "node_location path n fallback =
     (case node_pos n of
        Some p \<Rightarrow> make_source_location (location_at path p)
      | None \<Rightarrow>
          (case fallback of
             None \<Rightarrow> Inl ScanRuntimeErr
           | Some m \<Rightarrow>
               (case node_pos m of
                  None \<Rightarrow> Inl ScanRuntimeErr
                | Some p \<Rightarrow> make_source_location (location_at path p))))"

definition base_label :: "node \<Rightarrow> string" where
  "base_label n =
     (case dotted_name n of
        Some d \<Rightarrow> if d = [] then ''<'' @ class_name n @ ''>'' else d
      | None \<Rightarrow> ''<'' @ class_name n @ ''>'')"

section \<open>One handler per statement\<close>

definition or_else :: "string option \<Rightarrow> string \<Rightarrow> string" where
  "or_else s t = (case s of Some x \<Rightarrow> if x = [] then t else x | None \<Rightarrow> t)"

fun import_events :: "string \<Rightarrow> scopes \<Rightarrow> node \<Rightarrow> nat \<Rightarrow> node list \<Rightarrow> symbol_result list" where
  "import_events path sc stmt i [] = []"
| "import_events path sc stmt i (alias # names) =
     (case alias of
        Alias p name asname \<Rightarrow>
          [bindE (node_location path alias (Some stmt)) (\<lambda>l.
           bindE (make_import_record
             \<lparr>imp_kind = IMPORT, imp_module = Some name, imp_name = None,
              imp_local = or_else asname (hd (split_on CHR ''.'' name)), imp_alias = asname,
              imp_level = 0, imp_index = i, imp_scope = scope_path sc, imp_location = l\<rparr>)
             (\<lambda>r. Inr (ImportEvent r)))]
      | _ \<Rightarrow> [])
     @ import_events path sc stmt (Suc i) names"

fun import_from_events ::
  "string \<Rightarrow> scopes \<Rightarrow> node \<Rightarrow> string option \<Rightarrow> nat \<Rightarrow> nat \<Rightarrow> node list \<Rightarrow> symbol_result list"
where
  "import_from_events path sc stmt modul level i [] = []"
| "import_from_events path sc stmt modul level i (alias # names) =
     (case alias of
        Alias p name asname \<Rightarrow>
          [bindE (node_location path alias (Some stmt)) (\<lambda>l.
           bindE (make_import_record
             \<lparr>imp_kind = FROM, imp_module = modul, imp_name = Some name,
              imp_local = or_else asname name, imp_alias = asname, imp_level = level,
              imp_index = i, imp_scope = scope_path sc, imp_location = l\<rparr>)
             (\<lambda>r. Inr (ImportEvent r)))]
      | _ \<Rightarrow> [])
     @ import_from_events path sc stmt modul level (Suc i) names"

definition qualify :: "scopes \<Rightarrow> string \<Rightarrow> string" where
  "qualify sc name = join ''.'' (scope_path sc @ [name])"

definition class_events ::
  "string \<Rightarrow> scopes \<Rightarrow> node \<Rightarrow> string \<Rightarrow> node list \<Rightarrow> symbol_result list" where
  "class_events path sc stmt name bases =
     (if sc = [] then [Inr (BindingEvent name)] else [])
     @ [bindE (node_location path stmt None) (\<lambda>l.
          Inr (ClassEvent \<lparr>raw_name = name, raw_qualified = qualify sc name,
                 raw_scope = scope_path sc, raw_bases = map base_label bases,
                 raw_location = l\<rparr>))]"

text \<open>The arguments of a function in the order \<open>_visit_function\<close> of the collector lists them.\<close>

fun collector_arguments :: "node \<Rightarrow> node list" where
  "collector_arguments (Arguments posonly args vararg kwonly kw_defaults kwarg defaults) =
     posonly @ args @ opt_list vararg @ kwonly @ opt_list kwarg"
| "collector_arguments _ = []"

fun parameter_events ::
  "string \<Rightarrow> scopes \<Rightarrow> string \<Rightarrow> node list \<Rightarrow> symbol_result list" where
  "parameter_events path sc function [] = []"
| "parameter_events path sc function (argument # arguments) =
     (case argument of
        Arg p arg annotation \<Rightarrow>
          (case dotted_name_opt annotation of
             None \<Rightarrow> []
           | Some type_reference \<Rightarrow>
               [bindE (node_location path argument None) (\<lambda>l.
                  Inr (ParameterEvent \<lparr>rp_function = function, rp_name = arg,
                         rp_type = type_reference, rp_scope = scope_path sc,
                         rp_location = l\<rparr>))])
      | _ \<Rightarrow> [])
     @ parameter_events path sc function arguments"

definition function_events ::
  "string \<Rightarrow> scopes \<Rightarrow> string \<Rightarrow> node \<Rightarrow> symbol_result list" where
  "function_events path sc name args =
     (if sc = [] then [Inr (BindingEvent name)] else [])
     @ parameter_events path sc (qualify sc name) (collector_arguments args)"

definition binding_events :: "scopes \<Rightarrow> node list \<Rightarrow> symbol_result list" where
  "binding_events sc targets =
     (if sc = [] then map (\<lambda>n. Inr (BindingEvent n)) (concat (map bound_names targets))
      else [])"

definition records_assignment_clues :: "scopes \<Rightarrow> bool" where
  "records_assignment_clues sc \<longleftrightarrow> sc = [] \<or> fst (last sc) = FunctionScope"

definition clue_events ::
  "string \<Rightarrow> scopes \<Rightarrow> node \<Rightarrow> node \<Rightarrow> assignment_evidence \<Rightarrow> symbol_result list" where
  "clue_events path sc target type_node evidence =
     (case target of
        Name p i ctx \<Rightarrow>
          if records_assignment_clues sc then
            (case dotted_name type_node of
               None \<Rightarrow> []
             | Some type_reference \<Rightarrow>
                 [bindE (node_location path target None) (\<lambda>l.
                    Inr (AssignmentEvent \<lparr>ra_scope = scope_path sc, ra_target = i,
                           ra_type = type_reference, ra_evidence = evidence,
                           ra_location = l\<rparr>))])
          else []
      | _ \<Rightarrow> [])"

definition assign_events ::
  "string \<Rightarrow> scopes \<Rightarrow> node list \<Rightarrow> node \<Rightarrow> symbol_result list" where
  "assign_events path sc targets v =
     binding_events sc targets
     @ (case targets of
          [target] \<Rightarrow>
            (case v of
               Call p f args keywords \<Rightarrow> clue_events path sc target f CONSTRUCTOR_CALL
             | _ \<Rightarrow> [])
        | _ \<Rightarrow> [])"

definition ann_assign_events ::
  "string \<Rightarrow> scopes \<Rightarrow> node \<Rightarrow> node \<Rightarrow> symbol_result list" where
  "ann_assign_events path sc target annotation =
     binding_events sc [target] @ clue_events path sc target annotation ANNOTATION"

fun item_targets :: "node list \<Rightarrow> node list" where
  "item_targets [] = []"
| "item_targets (Withitem e vars # items) = opt_list vars @ item_targets items"
| "item_targets (_ # items) = item_targets items"

section \<open>The walk\<close>

text \<open>
  \<open>visit\<close>: a class or function body is walked in its own scope, assignments and imports are
  not entered, everything else is walked generically.
\<close>

definition own_events :: "string \<Rightarrow> scopes \<Rightarrow> node \<Rightarrow> symbol_result list" where
  "own_events path sc n =
     (case n of
        Import p names \<Rightarrow> import_events path sc n 0 names
      | ImportFrom p modul names level \<Rightarrow> import_from_events path sc n modul level 0 names
      | ClassDef p name bases keywords body decorators \<Rightarrow> class_events path sc n name bases
      | FunctionDef is_async p name args body decorators returns \<Rightarrow>
          function_events path sc name args
      | Assign p targets v \<Rightarrow> assign_events path sc targets v
      | AnnAssign p target annotation v \<Rightarrow> ann_assign_events path sc target annotation
      | AugAssign p target op v \<Rightarrow> binding_events sc [target]
      | For is_async p target iter body orelse \<Rightarrow> binding_events sc [target]
      | With is_async p items body \<Rightarrow> binding_events sc (item_targets items)
      | _ \<Rightarrow> [])"

definition visited_children :: "node \<Rightarrow> node list" where
  "visited_children n =
     (case n of
        Import p names \<Rightarrow> []
      | ImportFrom p modul names level \<Rightarrow> []
      | ClassDef p name bases keywords body decorators \<Rightarrow> body
      | FunctionDef is_async p name args body decorators returns \<Rightarrow> body
      | Assign p targets v \<Rightarrow> []
      | AnnAssign p target annotation v \<Rightarrow> []
      | AugAssign p target op v \<Rightarrow> []
      | _ \<Rightarrow> children n)"

definition inner_scopes :: "scopes \<Rightarrow> node \<Rightarrow> scopes" where
  "inner_scopes sc n =
     (case n of
        ClassDef p name bases keywords body decorators \<Rightarrow> sc @ [(ClassScope, name)]
      | FunctionDef is_async p name args body decorators returns \<Rightarrow>
          sc @ [(FunctionScope, name)]
      | _ \<Rightarrow> sc)"

lemma visited_children_sub: "set (visited_children n) \<subseteq> set (children n)"
  by (cases n) (auto simp: visited_children_def)

function visit :: "string \<Rightarrow> scopes \<Rightarrow> node \<Rightarrow> symbol_result list" where
  "visit path sc n =
     own_events path sc n
     @ concat (map (visit path (inner_scopes sc n)) (visited_children n))"
  by pat_completeness auto
termination
  by (relation "measure (\<lambda>(path, sc, n). size n)")
    (use visited_children_sub in \<open>auto intro: child_size\<close>)

declare visit.simps [simp del]

record symbols =
  sym_imports :: "import_record list"
  sym_classes :: "raw_class list"
  sym_parameters :: "raw_parameter list"
  sym_assignments :: "raw_assignment list"
  sym_bindings :: "string list"

fun add_event :: "symbol_event \<Rightarrow> symbols \<Rightarrow> symbols" where
  "add_event (ImportEvent i) s = s\<lparr>sym_imports := i # sym_imports s\<rparr>"
| "add_event (ClassEvent c) s = s\<lparr>sym_classes := c # sym_classes s\<rparr>"
| "add_event (ParameterEvent p) s = s\<lparr>sym_parameters := p # sym_parameters s\<rparr>"
| "add_event (AssignmentEvent a) s = s\<lparr>sym_assignments := a # sym_assignments s\<rparr>"
| "add_event (BindingEvent b) s = s\<lparr>sym_bindings := b # sym_bindings s\<rparr>"

definition no_symbols :: symbols where
  "no_symbols = \<lparr>sym_imports = [], sym_classes = [], sym_parameters = [],
                 sym_assignments = [], sym_bindings = []\<rparr>"

definition collect_symbols :: "string \<Rightarrow> node \<Rightarrow> scan_exn + symbols" where
  "collect_symbols path tree =
     bindE (traverseE id (visit path [] tree)) (\<lambda>events.
       Inr (foldr add_event events no_symbols))"

end
