(* ===== verification/RuleModels.thy ===== *)
theory RuleModels
  imports PyText
begin

text \<open>
  \<open>app/scanner/rule_models.py\<close>: the rule registry, the evidence facts and findings with the
  checks of their constructors, and the order of findings.  The prose of a rule
  (\<open>summary\<close>, \<open>scope\<close>) plays no part in any decision here; \<open>ReportTexts\<close> has it for the report.
\<close>

section \<open>Enumerations\<close>

datatype rule_id =
    PYDANTIC_V1_CONFIG | PYDANTIC_V1_VALIDATOR | PYDANTIC_V1_SETTINGS
  | PYDANTIC_V1_ROOT_MODEL | PYDANTIC_V1_BASE_MODEL_METHOD | PYDANTIC_V1_DATA_LOADING
  | PYDANTIC_V1_FIELD | PYDANTIC_V1_GENERIC_MODEL

fun rule_id_value :: "rule_id \<Rightarrow> string" where
  "rule_id_value PYDANTIC_V1_CONFIG = ''pydantic_v1_config''"
| "rule_id_value PYDANTIC_V1_VALIDATOR = ''pydantic_v1_validator''"
| "rule_id_value PYDANTIC_V1_SETTINGS = ''pydantic_v1_settings''"
| "rule_id_value PYDANTIC_V1_ROOT_MODEL = ''pydantic_v1_root_model''"
| "rule_id_value PYDANTIC_V1_BASE_MODEL_METHOD = ''pydantic_v1_base_model_method''"
| "rule_id_value PYDANTIC_V1_DATA_LOADING = ''pydantic_v1_data_loading''"
| "rule_id_value PYDANTIC_V1_FIELD = ''pydantic_v1_field''"
| "rule_id_value PYDANTIC_V1_GENERIC_MODEL = ''pydantic_v1_generic_model''"

definition all_rule_ids :: "rule_id list" where
  "all_rule_ids =
     [PYDANTIC_V1_CONFIG, PYDANTIC_V1_VALIDATOR, PYDANTIC_V1_SETTINGS,
      PYDANTIC_V1_ROOT_MODEL, PYDANTIC_V1_BASE_MODEL_METHOD, PYDANTIC_V1_DATA_LOADING,
      PYDANTIC_V1_FIELD, PYDANTIC_V1_GENERIC_MODEL]"

datatype rule_category =
    CONFIG | VALIDATOR | SETTINGS | ROOT_MODEL | BASE_MODEL_METHOD | DATA_LOADING | FIELD
  | GENERIC_MODEL

datatype level = HIGH | MEDIUM | LOW

datatype matched_construct =
    CONFIG_CLASS | CONFIG_KEY | DECORATOR | SETTINGS_IMPORT | SETTINGS_REFERENCE | ROOT_FIELD
  | BASE_MODEL_METHOD_CALL | DATA_LOADING_CALL | FIELD_KEYWORD | GENERIC_MODEL_IMPORT
  | GENERIC_MODEL_BASE

fun construct_value :: "matched_construct \<Rightarrow> string" where
  "construct_value CONFIG_CLASS = ''config_class''"
| "construct_value CONFIG_KEY = ''config_key''"
| "construct_value DECORATOR = ''decorator''"
| "construct_value SETTINGS_IMPORT = ''settings_import''"
| "construct_value SETTINGS_REFERENCE = ''settings_reference''"
| "construct_value ROOT_FIELD = ''root_field''"
| "construct_value BASE_MODEL_METHOD_CALL = ''base_model_method_call''"
| "construct_value DATA_LOADING_CALL = ''data_loading_call''"
| "construct_value FIELD_KEYWORD = ''field_keyword''"
| "construct_value GENERIC_MODEL_IMPORT = ''generic_model_import''"
| "construct_value GENERIC_MODEL_BASE = ''generic_model_base''"

datatype evidence_key =
    EV_CONFIG_KEY | EV_DECORATOR_SYMBOL | EV_IMPORT_MODULE | EV_IMPORT_SYMBOL
  | EV_LOCAL_SYMBOL | EV_FIELD_KEYWORD | EV_FIELD_KEYWORD_KIND | EV_MODEL_EVIDENCE
  | EV_MODEL_QUALIFIED_NAME | EV_REFERENCE_SYMBOL | EV_RECEIVER_EVIDENCE
  | EV_RECEIVER_SYMBOL | EV_TYPE_REFERENCE

fun evidence_key_value :: "evidence_key \<Rightarrow> string" where
  "evidence_key_value EV_CONFIG_KEY = ''config_key''"
| "evidence_key_value EV_DECORATOR_SYMBOL = ''decorator_symbol''"
| "evidence_key_value EV_IMPORT_MODULE = ''import_module''"
| "evidence_key_value EV_IMPORT_SYMBOL = ''import_symbol''"
| "evidence_key_value EV_LOCAL_SYMBOL = ''local_symbol''"
| "evidence_key_value EV_FIELD_KEYWORD = ''field_keyword''"
| "evidence_key_value EV_FIELD_KEYWORD_KIND = ''field_keyword_kind''"
| "evidence_key_value EV_MODEL_EVIDENCE = ''model_evidence''"
| "evidence_key_value EV_MODEL_QUALIFIED_NAME = ''model_qualified_name''"
| "evidence_key_value EV_REFERENCE_SYMBOL = ''reference_symbol''"
| "evidence_key_value EV_RECEIVER_EVIDENCE = ''receiver_evidence''"
| "evidence_key_value EV_RECEIVER_SYMBOL = ''receiver_symbol''"
| "evidence_key_value EV_TYPE_REFERENCE = ''type_reference''"

section \<open>Rules\<close>

record rule_spec =
  spec_rule_id :: rule_id
  spec_category :: rule_category
  spec_severity :: level
  spec_old_apis :: "string list"

definition rule :: "rule_id \<Rightarrow> rule_category \<Rightarrow> level \<Rightarrow> string list \<Rightarrow> rule_spec" where
  "rule r c s apis =
     \<lparr>spec_rule_id = r, spec_category = c, spec_severity = s, spec_old_apis = sort apis\<rparr>"

definition PRODUCTION_RULE_SPECS :: "rule_spec list" where
  "PRODUCTION_RULE_SPECS =
     [rule PYDANTIC_V1_CONFIG CONFIG HIGH
        [''Config'', ''allow_population_by_field_name'', ''orm_mode'', ''schema_extra''],
      rule PYDANTIC_V1_VALIDATOR VALIDATOR HIGH
        [''root_validator'', ''validate_arguments'', ''validator''],
      rule PYDANTIC_V1_SETTINGS SETTINGS HIGH [''BaseSettings''],
      rule PYDANTIC_V1_ROOT_MODEL ROOT_MODEL MEDIUM [''__root__''],
      rule PYDANTIC_V1_BASE_MODEL_METHOD BASE_MODEL_METHOD MEDIUM
        [''construct'', ''copy'', ''dict'', ''json'', ''json_schema'', ''parse_obj'',
         ''schema'', ''schema_json'', ''update_forward_refs''],
      rule PYDANTIC_V1_DATA_LOADING DATA_LOADING HIGH
        [''from_orm'', ''parse_file'', ''parse_raw''],
      rule PYDANTIC_V1_FIELD FIELD MEDIUM
        [''allow_mutation'', ''const'', ''final'', ''max_items'', ''min_items'', ''regex'',
         ''unique_items''],
      rule PYDANTIC_V1_GENERIC_MODEL GENERIC_MODEL MEDIUM [''GenericModel'']]"

text \<open>
  \<open>RuleValidationErr\<close> is pydantic's \<open>ValidationError\<close>, \<open>RuleRegistryErr\<close> the
  \<open>RuleRegistryError\<close>, \<open>RuleRuntimeErr\<close> a \<open>RuntimeError\<close>.
\<close>

datatype rule_scan_error_type = INVALID_SCAN_RESULT | INVALID_AST_LOCATION

datatype rule_exn =
    RuleScanErr rule_scan_error_type | RuleValidationErr | RuleRegistryErr | RuleRuntimeErr

definition get_rule_spec :: "rule_id \<Rightarrow> rule_exn + rule_spec" where
  "get_rule_spec r =
     (case filter (\<lambda>s. spec_rule_id s = r) PRODUCTION_RULE_SPECS of
        [s] \<Rightarrow> Inr s | _ \<Rightarrow> Inl RuleRegistryErr)"

definition validate_rule_registry :: "rule_exn + unit" where
  "validate_rule_registry =
     (let rule_ids = map spec_rule_id PRODUCTION_RULE_SPECS
      in if length rule_ids \<noteq> length all_rule_ids \<or> set rule_ids \<noteq> set all_rule_ids
         then Inl RuleRegistryErr
         else if \<not> distinct rule_ids then Inl RuleRegistryErr else Inr ())"

section \<open>Findings\<close>

record finding_location =
  fl_start_line :: nat
  fl_start_column :: nat
  fl_end_line :: nat
  fl_end_column :: nat

record evidence_fact =
  ev_key :: evidence_key
  ev_value :: string

record finding =
  fd_rule_id :: rule_id
  fd_category :: rule_category
  fd_path :: string
  fd_location :: finding_location
  fd_old_api :: string
  fd_construct :: matched_construct
  fd_evidence :: "evidence_fact list"
  fd_confidence :: level
  fd_severity :: level
  fd_requires_manual_review :: bool

definition valid_finding_location :: "finding_location \<Rightarrow> bool" where
  "valid_finding_location l \<longleftrightarrow>
     1 \<le> fl_start_line l \<and> 1 \<le> fl_end_line l
     \<and> \<not> (fl_end_line l, fl_end_column l) < (fl_start_line l, fl_start_column l)"

definition make_finding_location :: "finding_location \<Rightarrow> rule_exn + finding_location" where
  "make_finding_location l =
     (if valid_finding_location l then Inr l else Inl RuleValidationErr)"

definition valid_evidence_fact :: "evidence_fact \<Rightarrow> bool" where
  "valid_evidence_fact f \<longleftrightarrow>
     1 \<le> length (ev_value f) \<and> length (ev_value f) \<le> 256 \<and> strip (ev_value f) = ev_value f"

definition make_evidence_fact :: "evidence_fact \<Rightarrow> rule_exn + evidence_fact" where
  "make_evidence_fact f = (if valid_evidence_fact f then Inr f else Inl RuleValidationErr)"

definition valid_python_path :: "string \<Rightarrow> bool" where
  "valid_python_path p \<longleftrightarrow>
     (let path = pure_posix_path p
      in \<not> is_absolute path \<and> as_posix path = p \<and> ''..'' \<notin> set (path_parts path)
         \<and> casefold (path_suffix (path_parts path)) = ''.py'')"

definition evidence_keys :: "evidence_fact list \<Rightarrow> string list" where
  "evidence_keys facts = map (\<lambda>f. evidence_key_value (ev_key f)) facts"

definition valid_finding :: "finding \<Rightarrow> bool" where
  "valid_finding f \<longleftrightarrow>
     1 \<le> length (fd_path f) \<and> length (fd_path f) \<le> 1024 \<and> valid_python_path (fd_path f)
     \<and> 1 \<le> length (fd_old_api f) \<and> length (fd_old_api f) \<le> 128
     \<and> strip (fd_old_api f) = fd_old_api f
     \<and> 1 \<le> length (fd_evidence f)
     \<and> sort (evidence_keys (fd_evidence f)) = evidence_keys (fd_evidence f)
     \<and> distinct (evidence_keys (fd_evidence f))
     \<and> (case get_rule_spec (fd_rule_id f) of
          Inl _ \<Rightarrow> False
        | Inr s \<Rightarrow> fd_category f = spec_category s \<and> fd_severity f = spec_severity s)
     \<and> fd_confidence f = HIGH \<and> \<not> fd_requires_manual_review f"

definition make_finding :: "finding \<Rightarrow> rule_exn + finding" where
  "make_finding f = (if valid_finding f then Inr f else Inl RuleValidationErr)"

type_synonym finding_key =
  "string \<times> nat \<times> nat \<times> string \<times> string \<times> string \<times> (string \<times> string) list \<times> nat \<times> nat"

definition finding_sort_key :: "finding \<Rightarrow> finding_key" where
  "finding_sort_key f =
     (fd_path f, fl_start_line (fd_location f), fl_start_column (fd_location f),
      rule_id_value (fd_rule_id f), construct_value (fd_construct f), fd_old_api f,
      map (\<lambda>e. (evidence_key_value (ev_key e), ev_value e)) (fd_evidence f),
      fl_end_line (fd_location f), fl_end_column (fd_location f))"

definition make_rule_scan_result :: "finding list \<Rightarrow> rule_exn + finding list" where
  "make_rule_scan_result findings =
     (if sort_key finding_sort_key findings \<noteq> findings then Inl RuleValidationErr
      else if \<not> distinct findings then Inl RuleValidationErr else Inr findings)"

section \<open>Lemmas\<close>

lemma rule_registry_consistent: "validate_rule_registry = Inr ()"
  by code_simp

lemma get_rule_spec_total: "\<exists>s. get_rule_spec r = Inr s \<and> spec_rule_id s = r"
  by (cases r) (simp_all add: get_rule_spec_def PRODUCTION_RULE_SPECS_def rule_def)

lemma rule_id_value_inj: "rule_id_value a = rule_id_value b \<Longrightarrow> a = b"
  by (cases a; cases b) simp_all

lemma construct_value_inj: "construct_value a = construct_value b \<Longrightarrow> a = b"
  by (cases a; cases b) simp_all

lemma evidence_key_value_inj: "evidence_key_value a = evidence_key_value b \<Longrightarrow> a = b"
  by (cases a; cases b) simp_all

lemma evidence_map_inj:
  "map (\<lambda>e. (evidence_key_value (ev_key e), ev_value e)) xs
     = map (\<lambda>e. (evidence_key_value (ev_key e), ev_value e)) ys \<Longrightarrow> xs = (ys :: evidence_fact list)"
proof (induction xs arbitrary: ys)
  case (Cons x xs)
  then obtain y ys' where "ys = y # ys'" "ev_value x = ev_value y"
    "evidence_key_value (ev_key x) = evidence_key_value (ev_key y)" "xs = ys'"
    by (cases ys) auto
  then show ?case
    using evidence_key_value_inj by simp
qed simp

text \<open>On valid findings the sort key separates: two findings with equal keys are equal.\<close>

interpretation findings: canonical_order finding_sort_key valid_finding
proof unfold_locales
  fix a b :: finding
  assume valid: "valid_finding a" "valid_finding b" and key: "finding_sort_key a = finding_sort_key b"
  have "fd_rule_id a = fd_rule_id b" "fd_construct a = fd_construct b"
    "fd_evidence a = fd_evidence b"
    using key rule_id_value_inj construct_value_inj evidence_map_inj
    by (auto simp: finding_sort_key_def)
  moreover have "fd_location a = fd_location b"
    using key by (simp add: finding_sort_key_def)
  ultimately show "a = b"
    using valid key by (auto simp: valid_finding_def finding_sort_key_def split: sum.splits)
qed

lemma make_finding_Inr [simp]: "make_finding f = Inr f' \<longleftrightarrow> valid_finding f \<and> f' = f"
  by (auto simp: make_finding_def)

lemma make_rule_scan_result_Inr:
  "make_rule_scan_result fs = Inr fs' \<longleftrightarrow>
     fs' = fs \<and> sorted (map finding_sort_key fs) \<and> distinct fs"
  by (auto simp: make_rule_scan_result_def sorted_by_iff)

end
