(* ===== verification/BindingIndex.thy ===== *)
theory BindingIndex
  imports SymbolCollector RuleModels
begin

text \<open>
  The two indexes of \<open>app/scanner/rule_scanner.py\<close> that prove what a name denotes where it is
  used: \<open>_BindingIndex\<close> for imported names and \<open>_ReceiverBindingIndex\<close> for names that hold a
  model.  A name is proved only when exactly one binding of it precedes the use in the first
  enclosing scope that binds it at all.
\<close>

section \<open>Binding events\<close>

record binding_event =
  be_scope :: "string list"
  be_name :: string
  be_line :: nat
  be_column :: nat
  be_import :: "import_record option"

definition import_binding :: "import_record \<Rightarrow> binding_event" where
  "import_binding i =
     \<lparr>be_scope = imp_scope i, be_name = imp_local i, be_line = loc_line (imp_location i),
      be_column = loc_column (imp_location i), be_import = Some i\<rparr>"

text \<open>\<open>_node_start\<close>; every node whose start the code asks for has a position.\<close>

definition node_start :: "node \<Rightarrow> nat \<times> nat" where
  "node_start n =
     (case node_pos n of None \<Rightarrow> (0, 0) | Some p \<Rightarrow> (pos_line p, pos_col p))"

definition plain_binding :: "scopes \<Rightarrow> string \<Rightarrow> node \<Rightarrow> binding_event" where
  "plain_binding sc name n =
     \<lparr>be_scope = scope_path sc, be_name = name, be_line = fst (node_start n),
      be_column = snd (node_start n), be_import = None\<rparr>"

text \<open>A visitor does two things at a node: it records something, or it visits a sub-node.\<close>

datatype 'e step = Emit 'e | Visit scopes node

definition record_targets :: "scopes \<Rightarrow> node list \<Rightarrow> binding_event step list" where
  "record_targets sc targets =
     map (\<lambda>t. Emit (plain_binding sc (name_id t) t)) (concat (map bound_name_nodes targets))"

fun keyword_values :: "node list \<Rightarrow> node list" where
  "keyword_values [] = []"
| "keyword_values (Keyword p a v # ks) = v # keyword_values ks"
| "keyword_values (_ # ks) = keyword_values ks"

text \<open>The arguments in the order of this collector: keyword-only before the starred ones.\<close>

fun binding_arguments :: "node \<Rightarrow> node list" where
  "binding_arguments (Arguments posonly args vararg kwonly kw_defaults kwarg defaults) =
     posonly @ args @ kwonly @ opt_list vararg @ opt_list kwarg"
| "binding_arguments _ = []"

fun record_arguments :: "scopes \<Rightarrow> node list \<Rightarrow> binding_event step list" where
  "record_arguments sc [] = []"
| "record_arguments sc (Arg p arg annotation # rest) =
     Emit (plain_binding sc arg (Arg p arg annotation)) # record_arguments sc rest"
| "record_arguments sc (_ # rest) = record_arguments sc rest"

definition collector_steps :: "scopes \<Rightarrow> node \<Rightarrow> binding_event step list" where
  "collector_steps sc n =
     (case n of
        Import p names \<Rightarrow> []
      | ImportFrom p modul names level \<Rightarrow> []
      | ClassDef p name bases keywords body decorators \<Rightarrow>
          Emit (plain_binding sc name n)
          # map (Visit sc) (decorators @ bases @ keyword_values keywords)
          @ map (Visit (sc @ [(ClassScope, name)])) body
      | FunctionDef is_async p name args body decorators returns \<Rightarrow>
          Emit (plain_binding sc name n)
          # map (Visit sc) decorators
          @ record_arguments (sc @ [(FunctionScope, name)]) (binding_arguments args)
          @ map (Visit (sc @ [(FunctionScope, name)])) body
      | Assign p targets v \<Rightarrow> record_targets sc targets @ [Visit sc v]
      | AnnAssign p target annotation v \<Rightarrow>
          record_targets sc [target] @ map (Visit sc) (annotation # opt_list v)
      | AugAssign p target op v \<Rightarrow> record_targets sc [target] @ [Visit sc v]
      | NamedExpr p target v \<Rightarrow> record_targets sc [target] @ [Visit sc v]
      | For is_async p target iter body orelse \<Rightarrow>
          record_targets sc [target] @ map (Visit sc) (children n)
      | With is_async p items body \<Rightarrow>
          record_targets sc (item_targets items) @ map (Visit sc) (children n)
      | ExceptHandler p t name body \<Rightarrow>
          map (\<lambda>i. Emit (plain_binding sc i n)) (opt_list name) @ map (Visit sc) (children n)
      | Delete p targets \<Rightarrow> record_targets sc targets
      | Global p names \<Rightarrow> map (\<lambda>i. Emit (plain_binding sc i n)) names
      | Nonlocal p names \<Rightarrow> map (\<lambda>i. Emit (plain_binding sc i n)) names
      | _ \<Rightarrow> map (Visit sc) (children n))"

lemma record_targets_no_visit: "Visit sc' m \<notin> set (record_targets sc targets)"
  by (auto simp: record_targets_def)

lemma record_arguments_no_visit: "Visit sc' m \<notin> set (record_arguments sc args)"
  by (induction sc args rule: record_arguments.induct) auto

lemma keyword_values_size: "v \<in> set (keyword_values ks) \<Longrightarrow> size v < Suc (size_list size ks)"
  by (induction ks rule: keyword_values.induct) auto

lemma collector_steps_size:
  assumes v: "Visit sc' m \<in> set (collector_steps sc n)"
  shows "size m < size n"
proof (cases "\<exists>p name bases kws body decorators.
    n = ClassDef p name bases kws body decorators")
  case True
  then obtain p name bases kws body decorators where
    n: "n = ClassDef p name bases kws body decorators" by blast
  with v have "m \<in> set decorators \<or> m \<in> set bases \<or> m \<in> set (keyword_values kws)
      \<or> m \<in> set body"
    by (auto simp: collector_steps_def)
  then show ?thesis
    using keyword_values_size [of m kws] size_list_member [of m] n by fastforce
next
  case False
  have "m \<in> set (children n)"
    using v False record_targets_no_visit record_arguments_no_visit
    by (cases n) (auto simp: collector_steps_def)
  then show ?thesis
    by (rule child_size)
qed

function collect_bindings :: "scopes \<Rightarrow> node \<Rightarrow> binding_event list" where
  "collect_bindings sc n =
     concat (map (\<lambda>s. case s of Emit e \<Rightarrow> [e] | Visit sc' m \<Rightarrow> collect_bindings sc' m)
       (collector_steps sc n))"
  by pat_completeness auto
termination
  by (relation "measure (\<lambda>(sc, n). size n)") (auto intro: collector_steps_size)

declare collect_bindings.simps [simp del]

section \<open>Looking a name up\<close>

definition bindings_at ::
  "binding_event list \<Rightarrow> string list \<Rightarrow> string \<Rightarrow> binding_event list" where
  "bindings_at events scope name =
     sort_key (\<lambda>e. (be_line e, be_column e))
       (filter (\<lambda>e. be_scope e = scope \<and> be_name e = name) events)"

definition bindings_before ::
  "binding_event list \<Rightarrow> string list \<Rightarrow> string \<Rightarrow> nat \<times> nat \<Rightarrow> binding_event list" where
  "bindings_before events scope name position =
     filter (\<lambda>e. (be_line e, be_column e) < position) (bindings_at events scope name)"

text \<open>The first scope with a binding before the use decides.\<close>

fun deciding_scope ::
  "binding_event list \<Rightarrow> string \<Rightarrow> nat \<times> nat \<Rightarrow> string list list
     \<Rightarrow> (string list \<times> binding_event list) option" where
  "deciding_scope events name position [] = None"
| "deciding_scope events name position (scope # scopes) =
     (case bindings_before events scope name position of
        [] \<Rightarrow> deciding_scope events name position scopes
      | bs \<Rightarrow> Some (scope, bs))"

record import_proof =
  ip_record :: import_record
  ip_reference :: string

definition canonical_import_reference :: "import_record \<Rightarrow> string \<Rightarrow> string option" where
  "canonical_import_reference r reference =
     (if \<not> (reference = imp_local r \<or> prefix (imp_local r @ ''.'') reference) then None
      else
        (let suffix_text = drop (length (imp_local r)) reference
         in if imp_kind r = IMPORT then
              (case imp_module r of
                 None \<Rightarrow> None
               | Some m \<Rightarrow> Some (if imp_alias r = None then reference else m @ suffix_text))
            else if imp_level r = 0 then
              (case (imp_module r, imp_name r) of
                 (Some m, Some i) \<Rightarrow> Some (m @ ''.'' @ i @ suffix_text)
               | _ \<Rightarrow> None)
            else None))"

text \<open>\<open>_BindingIndex\<close>: the imports, then everything else that binds a name in the tree.\<close>

definition binding_index :: "node \<Rightarrow> import_record list \<Rightarrow> binding_event list" where
  "binding_index tree imports = map import_binding imports @ collect_bindings [] tree"

definition resolve_symbol ::
  "binding_event list \<Rightarrow> node \<Rightarrow> string \<Rightarrow> string \<Rightarrow> string list list \<Rightarrow> import_proof option" where
  "resolve_symbol events n target_module target_symbol scopes =
     (let symbol_node = symbol_reference_node n
      in case dotted_name symbol_node of
           None \<Rightarrow> None
         | Some reference \<Rightarrow>
             (let local_name = hd (split_on CHR ''.'' reference)
              in if local_name = [] then None
                 else (case deciding_scope events local_name (node_start symbol_node) scopes of
                     None \<Rightarrow> None
                   | Some (scope, bs) \<Rightarrow>
                       (case bs of
                          [b] \<Rightarrow>
                            (case be_import b of
                               None \<Rightarrow> None
                             | Some r \<Rightarrow>
                                 if canonical_import_reference r reference
                                      = Some (target_module @ ''.'' @ target_symbol)
                                 then Some \<lparr>ip_record = r, ip_reference = reference\<rparr>
                                 else None)
                        | _ \<Rightarrow> None))))"

section \<open>Receivers\<close>

type_synonym evidence_values = "(evidence_key \<times> string) list"

text \<open>\<open>d[k] = v\<close> on a dict: an existing key keeps its place.\<close>

fun put :: "evidence_key \<Rightarrow> string \<Rightarrow> evidence_values \<Rightarrow> evidence_values" where
  "put k v [] = [(k, v)]"
| "put k v ((k', v') # d) = (if k' = k then (k, v) # d else (k', v') # put k v d)"

definition receiver_proof ::
  "string \<Rightarrow> string \<Rightarrow> class_record option \<Rightarrow> evidence_values" where
  "receiver_proof receiver_evidence type_reference c =
     [(EV_RECEIVER_EVIDENCE, receiver_evidence), (EV_TYPE_REFERENCE, type_reference)]
     @ (case c of
          None \<Rightarrow> []
        | Some r \<Rightarrow> [(EV_MODEL_EVIDENCE, evidence_value (cls_evidence r)),
                     (EV_MODEL_QUALIFIED_NAME, cls_qualified r)])"

type_synonym proof_key = "string list \<times> string \<times> nat \<times> nat"

record receiver_index =
  ri_events :: "binding_event list"
  ri_proofs :: "(proof_key \<times> evidence_values) list"

definition class_by_name :: "class_record list \<Rightarrow> string option \<Rightarrow> class_record option" where
  "class_by_name classes name =
     map_of (rev (map (\<lambda>c. (cls_qualified c, c)) classes))
       (case name of None \<Rightarrow> [] | Some n \<Rightarrow> n)"

definition location_key ::
  "string list \<Rightarrow> string \<Rightarrow> source_location \<Rightarrow> proof_key" where
  "location_key scope name l = (scope, name, loc_line l, loc_column l)"

definition make_receiver_index ::
  "node \<Rightarrow> class_record list \<Rightarrow> parameter_type_clue list \<Rightarrow> assignment_type_clue list
     \<Rightarrow> receiver_index" where
  "make_receiver_index tree classes parameters assignments =
     \<lparr>ri_events = collect_bindings [] tree,
      ri_proofs =
        map (\<lambda>c. (location_key (cls_scope c) (cls_name c) (cls_location c),
                  receiver_proof ''class_reference'' (cls_name c) (Some c)))
          (filter cls_is_base_model classes)
        @ map (\<lambda>p. (location_key (split_on CHR ''.'' (par_function p)) (par_name p)
                      (par_location p),
                    receiver_proof ''parameter_annotation'' (par_type p)
                      (class_by_name classes (par_class p))))
          (filter par_is_base_model parameters)
        @ map (\<lambda>a. (location_key (asg_scope a) (asg_target a) (asg_location a),
                    receiver_proof
                      (if asg_evidence a = ANNOTATION then ''assignment_annotation''
                       else ''constructor_call'')
                      (asg_type a) (class_by_name classes (asg_class a))))
          (filter asg_is_base_model assignments)\<rparr>"

definition is_call :: "node \<Rightarrow> bool" where
  "is_call n = (case n of Call p f args keywords \<Rightarrow> True | _ \<Rightarrow> False)"

text \<open>The proof, and whether some non-import binding decides the name at all.\<close>

definition resolve_receiver_binding ::
  "receiver_index \<Rightarrow> node \<Rightarrow> string list list \<Rightarrow> evidence_values option \<times> bool" where
  "resolve_receiver_binding ri receiver scopes =
     (let symbol_node = symbol_reference_node receiver
      in case symbol_node of
           Name p i ctx \<Rightarrow>
             (case deciding_scope (ri_events ri) i (pos_line p, pos_col p) scopes of
                None \<Rightarrow> (None, False)
              | Some (scope, bs) \<Rightarrow>
                  (case bs of
                     [b] \<Rightarrow>
                       (case map_of (rev (ri_proofs ri)) (scope, i, be_line b, be_column b) of
                          None \<Rightarrow> (None, True)
                        | Some evidence \<Rightarrow>
                            (let evidence' = put EV_RECEIVER_SYMBOL i evidence
                             in (Some (if is_call receiver
                                       then put EV_RECEIVER_EVIDENCE ''inline_constructor_call''
                                              evidence'
                                       else evidence'), True)))
                   | _ \<Rightarrow> (None, True)))
         | _ \<Rightarrow> (None, False))"

end
