(* ===== verification/AstScanner.thy ===== *)
theory AstScanner
  imports ScannerModels PyAst ZipLifecycle
begin

text \<open>
  \<open>app/scanner/ast_scanner.py\<close>: the scanner checks the inventory it was handed, names the
  modules, reads every source again with its identity verified, parses it (\<open>parse\<close> is the
  standard parser), collects imports, classes and type clues in one walk over the tree and
  decides which classes are \<open>BaseModel\<close> subclasses.
\<close>

section \<open>The inventory contract\<close>

definition validate_inventory_contract :: "zip_guard_result \<Rightarrow> scan_exn + unit" where
  "validate_inventory_contract v =
     (let files = zr_python_files v; paths = map pf_relative_path files
      in raise_if
           (length files > MAX_PYTHON_FILES
            \<or> zr_member_count v \<noteq> zr_regular_file_count v + zr_directory_count v
            \<or> zr_python_file_count v \<noteq> length files
            \<or> zr_python_total_lines v \<noteq> sum_list (map pf_line_count files)
            \<or> paths \<noteq> sort paths
            \<or> \<not> distinct paths
            \<or> (\<exists>f \<in> set files. pf_size_bytes f > MAX_MEMBER_UNCOMPRESSED_BYTES)
            \<or> (\<exists>f \<in> set files. pf_line_count f > MAX_PYTHON_LOC)
            \<or> zr_python_total_lines v > MAX_PYTHON_LOC
            \<or> zr_total_uncompressed_bytes v < sum_list (map pf_size_bytes files))
           (ScannerErr INVALID_INVENTORY))"

section \<open>Module names\<close>

text \<open>\<open>str.isidentifier\<close> on code points below 256, and \<open>keyword.kwlist\<close> of Python 3.11.\<close>

definition is_id_start :: "char \<Rightarrow> bool" where
  "is_id_start c \<longleftrightarrow>
     is_ascii_letter c \<or> c = CHR ''_'' \<or> c \<in> {CHR 0xAA, CHR 0xB5, CHR 0xBA}
     \<or> (0xC0 \<le> (of_char c :: nat) \<and> c \<notin> {CHR 0xD7, CHR 0xF7})"

definition is_id_continue :: "char \<Rightarrow> bool" where
  "is_id_continue c \<longleftrightarrow>
     is_id_start c \<or> c = CHR 0xB7 \<or> (CHR ''0'' \<le> c \<and> c \<le> CHR ''9'')"

definition is_identifier :: "string \<Rightarrow> bool" where
  "is_identifier s =
     (case s of [] \<Rightarrow> False | c # cs \<Rightarrow> is_id_start c \<and> list_all is_id_continue cs)"

definition KEYWORDS :: "string list" where
  "KEYWORDS =
     [''False'', ''None'', ''True'', ''and'', ''as'', ''assert'', ''async'', ''await'',
      ''break'', ''class'', ''continue'', ''def'', ''del'', ''elif'', ''else'', ''except'',
      ''finally'', ''for'', ''from'', ''global'', ''if'', ''import'', ''in'', ''is'',
      ''lambda'', ''nonlocal'', ''not'', ''or'', ''pass'', ''raise'', ''return'', ''try'',
      ''while'', ''with'', ''yield'']"

definition all_path_parts :: "posix_path \<Rightarrow> string list" where
  "all_path_parts p = (if path_root p = [] then path_parts p else path_root p # path_parts p)"

definition module_name_of :: "string \<Rightarrow> scan_exn + (string \<times> bool)" where
  "module_name_of relative_path =
     (let path = pure_posix_path relative_path; all_parts = all_path_parts path
      in if casefold (path_suffix (path_parts path)) \<noteq> ''.py''
         then Inl (ScannerErr INVALID_MODULE_PATH)
         else
           (let name = path_name (path_parts path);
                stem = take (length name - 3) name;
                is_package = (stem = ''__init__'');
                parent = butlast all_parts;
                parts = (if is_package then (if parent = [] then [''__init__''] else parent)
                         else parent @ [stem])
            in if \<exists>part \<in> set parts. \<not> is_identifier part \<or> part \<in> set KEYWORDS
               then Inl (ScannerErr INVALID_MODULE_PATH)
               else Inr (join ''.'' parts, is_package)))"

fun build_modules ::
  "python_file list \<Rightarrow> string list \<Rightarrow> scan_exn + module_record list" where
  "build_modules [] module_names = Inr []"
| "build_modules (item # items) module_names =
     bindE (module_name_of (pf_relative_path item)) (\<lambda>(name, is_package).
       if name \<in> set module_names then Inl (ScannerErr MODULE_NAME_CONFLICT)
       else bindE (build_modules items (name # module_names)) (\<lambda>records.
         Inr (\<lparr>mod_path = pf_relative_path item, mod_name = name,
               mod_is_package = is_package\<rparr> # records)))"

definition build_module_records :: "python_file list \<Rightarrow> scan_exn + module_record list" where
  "build_module_records files = build_modules files []"

section \<open>Reading a source again\<close>

text \<open>What the operating system answers about a path.\<close>

datatype 'a os_result = OsOk 'a | OsMissing | OsFailed

record source_env =
  se_lstat :: "string list \<Rightarrow> entry os_result"
  se_resolve :: "string list \<Rightarrow> string list os_result"
  se_open :: "string list \<Rightarrow> byte_stream os_result"

definition normalized_path :: "string list \<Rightarrow> string list" where
  "normalized_path p = resolve_from [] p"

definition resolve_task_root :: "source_env \<Rightarrow> string list \<Rightarrow> scan_exn + string list" where
  "resolve_task_root env task_root =
     (case se_lstat env task_root of
        OsOk Directory \<Rightarrow>
          (case se_resolve env task_root of
             OsOk resolved \<Rightarrow>
               if normalized_path resolved \<noteq> normalized_path task_root
               then Inl (ScannerErr TASK_ROOT_UNAVAILABLE) else Inr resolved
           | _ \<Rightarrow> Inl (ScannerErr TASK_ROOT_UNAVAILABLE))
      | _ \<Rightarrow> Inl (ScannerErr TASK_ROOT_UNAVAILABLE))"

definition exact_read_size :: "nat \<Rightarrow> nat \<Rightarrow> nat" where
  "exact_read_size expected_size n = bounded_read_size (int expected_size - int n)"

definition check_exact :: "nat \<Rightarrow> nat \<Rightarrow> scanner_error_type + unit" where
  "check_exact expected_size n = raise_if (n > expected_size) FILE_IDENTITY_MISMATCH"

interpretation exact_reader:
  bounded_reader "exact_read_size expected_size" "check_exact expected_size"
    "\<lambda>n. n \<le> expected_size"
  for expected_size
  by unfold_locales
    (auto simp: exact_read_size_def bounded_read_size_def READ_CHUNK_BYTES_def check_exact_def)

definition read_exact_bounded ::
  "source_env \<Rightarrow> string list \<Rightarrow> nat \<Rightarrow> scan_exn + byte list" where
  "read_exact_bounded env target expected_size =
     (case se_open env target of
        OsMissing \<Rightarrow> Inl (ScannerErr FILE_MISSING)
      | OsFailed \<Rightarrow> Inl (ScannerErr FILE_READ_FAILED)
      | OsOk stream \<Rightarrow>
          (case pull (exact_read_size expected_size) (check_exact expected_size) stream 0 [] of
             Inl None \<Rightarrow> Inl (ScannerErr FILE_READ_FAILED)
           | Inl (Some e) \<Rightarrow> Inl (ScannerErr e)
           | Inr (bs, _) \<Rightarrow> Inr bs))"

definition read_validated_source ::
  "(byte list \<Rightarrow> string) \<Rightarrow> source_env \<Rightarrow> string list \<Rightarrow> python_file
     \<Rightarrow> scan_exn + (byte list \<times> source_text)" where
  "read_validated_source sha env task_root inventory =
     (let target = task_root @ all_path_parts (pure_posix_path (pf_relative_path inventory))
      in case se_lstat env target of
           OsMissing \<Rightarrow> Inl (ScannerErr FILE_MISSING)
         | OsFailed \<Rightarrow> Inl (ScannerErr FILE_READ_FAILED)
         | OsOk Directory \<Rightarrow> Inl (ScannerErr FILE_IDENTITY_MISMATCH)
         | OsOk Link \<Rightarrow> Inl (ScannerErr FILE_IDENTITY_MISMATCH)
         | OsOk (Regular _) \<Rightarrow>
             (case se_resolve env target of
                OsMissing \<Rightarrow> Inl (ScannerErr FILE_MISSING)
              | OsFailed \<Rightarrow> Inl (ScannerErr FILE_READ_FAILED)
              | OsOk resolved \<Rightarrow>
                  if \<not> prefix task_root resolved
                     \<or> normalized_path resolved \<noteq> normalized_path target
                  then Inl (ScannerErr FILE_IDENTITY_MISMATCH)
                  else
                    bindE (read_exact_bounded env target (pf_size_bytes inventory))
                      (\<lambda>payload.
                      if length payload \<noteq> pf_size_bytes inventory
                         \<or> sha payload \<noteq> pf_sha256 inventory
                      then Inl (ScannerErr FILE_IDENTITY_MISMATCH)
                      else (case utf8_sig_decode payload of
                          None \<Rightarrow> Inl (ScannerErr SCAN_NON_UTF8_PYTHON)
                        | Some source_text \<Rightarrow>
                            if length (splitlines source_text) \<noteq> pf_line_count inventory
                            then Inl (ScannerErr FILE_IDENTITY_MISMATCH)
                            else Inr (payload, source_text)))))"

text \<open>\<open>read_validated_python_source\<close>, the entry point for later consumers.\<close>

definition read_validated_python_source ::
  "(byte list \<Rightarrow> string) \<Rightarrow> source_env \<Rightarrow> zip_guard_result \<Rightarrow> python_file
     \<Rightarrow> scan_exn + source_text" where
  "read_validated_python_source sha env validated inventory =
     bindE (validate_inventory_contract validated) (\<lambda>_.
       if inventory \<notin> set (zr_python_files validated)
       then Inl (ScannerErr INVALID_INVENTORY)
       else
         bindE (resolve_task_root env (zr_task_root validated)) (\<lambda>task_root.
         bindE (read_validated_source sha env task_root inventory) (\<lambda>(payload, text).
           Inr text)))"

end
