(* ===== verification/ClassInheritance.thy ===== *)
theory ClassInheritance
  imports SymbolCollector
begin

text \<open>
  The type information of one file (\<open>materialize_type_information\<close> of
  \<open>app/scanner/ast_scanner.py\<close>): which local names denote pydantic's \<open>BaseModel\<close>, which
  classes derive from it inside the file, and what the annotated names refer to.

  The inheritance loop of the code sweeps over the classes until nothing changes; it is
  compared with the inductive relation \<open>derives\<close>.
\<close>

section \<open>Aliases of \<open>BaseModel\<close>\<close>

definition PYDANTIC_MODULE :: string where "PYDANTIC_MODULE = ''pydantic''"

definition module_bindings :: "import_record list \<Rightarrow> string \<Rightarrow> import_record list" where
  "module_bindings imports name =
     filter (\<lambda>i. imp_scope i = [] \<and> imp_local i = name) imports"

definition binding_names :: "import_record list \<Rightarrow> string list" where
  "binding_names imports = remdups (map imp_local (filter (\<lambda>i. imp_scope i = []) imports))"

definition is_basemodel_import :: "import_record \<Rightarrow> bool" where
  "is_basemodel_import i \<longleftrightarrow>
     imp_kind i = FROM \<and> imp_module i = Some PYDANTIC_MODULE
     \<and> imp_name i = Some ''BaseModel'' \<and> imp_level i = 0"

definition is_pydantic_import :: "import_record \<Rightarrow> bool" where
  "is_pydantic_import i \<longleftrightarrow> imp_kind i = IMPORT \<and> imp_module i = Some PYDANTIC_MODULE"

definition unique_binding ::
  "import_record list \<Rightarrow> string list \<Rightarrow> (import_record \<Rightarrow> bool) \<Rightarrow> string \<Rightarrow> bool" where
  "unique_binding imports non_imports P name =
     (if name \<in> set non_imports then False
      else (case module_bindings imports name of [candidate] \<Rightarrow> P candidate | _ \<Rightarrow> False))"

definition pydantic_basemodel_aliases ::
  "import_record list \<Rightarrow> string list \<Rightarrow> string list \<times> string list" where
  "pydantic_basemodel_aliases imports non_imports =
     (filter (unique_binding imports non_imports is_basemodel_import) (binding_names imports),
      filter (unique_binding imports non_imports
                (\<lambda>i. \<not> is_basemodel_import i \<and> is_pydantic_import i)) (binding_names imports))"

section \<open>References to classes\<close>

definition is_direct_basemodel :: "string \<Rightarrow> string list \<Rightarrow> string list \<Rightarrow> bool" where
  "is_direct_basemodel reference direct modules =
     (if reference \<in> set direct then True
      else (case rpartition CHR ''.'' reference of (pre, separator, name) \<Rightarrow>
              separator \<and> name = ''BaseModel'' \<and> pre \<in> set modules))"

text \<open>The loop over the enclosing scopes, from the innermost to the module.\<close>

fun resolve_at_depth ::
  "string \<Rightarrow> string list \<Rightarrow> raw_class list \<Rightarrow> nat \<Rightarrow> nat option" where
  "resolve_at_depth reference scope classes depth =
     (let matches = filter (\<lambda>i. raw_scope (classes ! i) = take depth scope
                              \<and> raw_name (classes ! i) = reference) [0..<length classes]
      in case matches of
           [i] \<Rightarrow> Some i
         | _ # _ # _ \<Rightarrow> None
         | [] \<Rightarrow> (case depth of
                    0 \<Rightarrow> None
                  | Suc d \<Rightarrow> resolve_at_depth reference scope classes d))"

declare resolve_at_depth.simps [simp del]

definition resolve_local_class_index ::
  "string \<Rightarrow> string list \<Rightarrow> raw_class list \<Rightarrow> nat option" where
  "resolve_local_class_index reference scope classes =
     (if CHR ''.'' \<in> set reference then None
      else resolve_at_depth reference scope classes (length scope))"

definition resolve_type_reference ::
  "string \<Rightarrow> string list \<Rightarrow> raw_class list \<Rightarrow> bool list \<Rightarrow> string list \<Rightarrow> string list
     \<Rightarrow> string option \<times> bool" where
  "resolve_type_reference reference scope classes flags direct modules =
     (if is_direct_basemodel reference direct modules then (None, True)
      else (case resolve_local_class_index reference scope classes of
          None \<Rightarrow> (None, False)
        | Some i \<Rightarrow> (Some (raw_qualified (classes ! i)), flags ! i)))"

section \<open>The inheritance loop\<close>

definition is_direct_class :: "string list \<Rightarrow> string list \<Rightarrow> raw_class \<Rightarrow> bool" where
  "is_direct_class direct modules c \<longleftrightarrow>
     raw_scope c = [] \<and> (\<exists>b \<in> set (raw_bases c). is_direct_basemodel b direct modules)"

definition proven_parent :: "raw_class list \<Rightarrow> bool list \<Rightarrow> nat \<Rightarrow> bool" where
  "proven_parent classes flags i \<longleftrightarrow>
     (\<exists>b \<in> set (raw_bases (classes ! i)).
        case resolve_local_class_index b (raw_scope (classes ! i)) classes of
          None \<Rightarrow> False | Some j \<Rightarrow> j < i \<and> flags ! j)"

type_synonym flag_state = "bool list \<times> base_model_evidence list \<times> bool"

definition sweep_class :: "raw_class list \<Rightarrow> nat \<Rightarrow> flag_state \<Rightarrow> flag_state" where
  "sweep_class classes i = (\<lambda>(flags, evidence, changed).
     if flags ! i then (flags, evidence, changed)
     else if proven_parent classes flags i
     then (flags[i := True], evidence[i := LOCAL_INHERITANCE], True)
     else (flags, evidence, changed))"

definition sweep ::
  "raw_class list \<Rightarrow> bool list \<Rightarrow> base_model_evidence list \<Rightarrow> flag_state" where
  "sweep classes flags evidence =
     fold (sweep_class classes) [0..<length classes] (flags, evidence, False)"

text \<open>
  \<open>while changed\<close>: a sweep that changes something clears at least one unset flag.  (The code
  makes the flags as long as the classes; the loop of the model stops at once otherwise.)
\<close>

definition unset :: "bool list \<Rightarrow> nat" where
  "unset flags = length (filter Not flags)"

lemma unset_update: "i < length flags \<Longrightarrow> \<not> flags ! i \<Longrightarrow> unset (flags[i := True]) < unset flags"
proof (induction flags arbitrary: i)
  case (Cons f flags)
  then show ?case
    by (cases i) (auto simp: unset_def)
qed simp

lemma unset_update_le: "unset (flags[i := True]) \<le> unset flags"
proof (induction flags arbitrary: i)
  case (Cons f flags)
  then show ?case
    by (cases i) (auto simp: unset_def)
qed simp

lemma sweep_fold_unset:
  "fold (sweep_class classes) is' (flags, evidence, ch) = (flags', evidence', ch') \<Longrightarrow>
     length flags' = length flags \<and> length evidence' = length evidence
     \<and> unset flags' \<le> unset flags
     \<and> (ch' \<and> \<not> ch \<and> (\<forall>i \<in> set is'. i < length flags) \<longrightarrow> unset flags' < unset flags)"
proof (induction is' arbitrary: flags evidence ch)
  case Nil
  then show ?case by simp
next
  case (Cons i is')
  obtain f1 e1 c1 where step: "sweep_class classes i (flags, evidence, ch) = (f1, e1, c1)"
    by (cases "sweep_class classes i (flags, evidence, ch)")
  with Cons.prems have
    "fold (sweep_class classes) is' (f1, e1, c1) = (flags', evidence', ch')" by simp
  note ih = Cons.IH [OF this]
  show ?case
  proof (cases "\<not> flags ! i \<and> proven_parent classes flags i")
    case True
    with step have s: "f1 = flags[i := True]" "e1 = evidence[i := LOCAL_INHERITANCE]" "c1"
      by (auto simp: sweep_class_def)
    with ih True show ?thesis
      using unset_update [of i flags] unset_update_le [of flags i] by auto
  next
    case False
    with step have "f1 = flags" "e1 = evidence" "c1 = ch"
      by (auto simp: sweep_class_def split: if_splits)
    with ih show ?thesis by auto
  qed
qed

lemma sweep_unset:
  "sweep classes flags evidence = (flags', evidence', True) \<Longrightarrow> length flags = length classes
     \<Longrightarrow> unset flags' < unset flags"
  unfolding sweep_def by (drule sweep_fold_unset) auto

function inherit_loop ::
  "raw_class list \<Rightarrow> bool list \<Rightarrow> base_model_evidence list
     \<Rightarrow> bool list \<times> base_model_evidence list" where
  "inherit_loop classes flags evidence =
     (if length flags \<noteq> length classes then (flags, evidence)
      else (case sweep classes flags evidence of (flags', evidence', changed) \<Rightarrow>
          if changed then inherit_loop classes flags' evidence' else (flags', evidence')))"
  by pat_completeness auto

termination
  by (relation "measure (\<lambda>(classes, flags, evidence). unset flags)")
    (auto dest: sweep_unset [OF sym])

declare inherit_loop.simps [simp del]

definition resolve_class_inheritance ::
  "raw_class list \<Rightarrow> string list \<Rightarrow> string list \<Rightarrow> bool list \<times> base_model_evidence list" where
  "resolve_class_inheritance classes direct modules =
     inherit_loop classes (map (is_direct_class direct modules) classes)
       (map (\<lambda>c. if is_direct_class direct modules c then DIRECT else NONE) classes)"

section \<open>The loop computes exactly the derived classes\<close>

inductive derives ::
  "raw_class list \<Rightarrow> string list \<Rightarrow> string list \<Rightarrow> nat \<Rightarrow> bool"
  for classes :: "raw_class list" and direct :: "string list" and modules :: "string list"
where
  direct: "i < length classes \<Longrightarrow> is_direct_class direct modules (classes ! i)
     \<Longrightarrow> derives classes direct modules i"
| local: "i < length classes \<Longrightarrow> b \<in> set (raw_bases (classes ! i))
     \<Longrightarrow> resolve_local_class_index b (raw_scope (classes ! i)) classes = Some j
     \<Longrightarrow> j < i \<Longrightarrow> derives classes direct modules j \<Longrightarrow> derives classes direct modules i"

inductive_simps derives_iff: "derives classes direct modules i"

lemma derives_bound: "derives classes direct modules i \<Longrightarrow> i < length classes"
  by (induction rule: derives.induct)

text \<open>What holds after the classes below \<open>k\<close> have been swept.\<close>

definition swept ::
  "raw_class list \<Rightarrow> string list \<Rightarrow> string list \<Rightarrow> nat \<Rightarrow> bool list
     \<Rightarrow> base_model_evidence list \<Rightarrow> bool" where
  "swept classes direct modules k flags evidence \<longleftrightarrow>
     length flags = length classes \<and> length evidence = length classes
     \<and> (\<forall>i < length classes. flags ! i \<longleftrightarrow>
          (if i < k then derives classes direct modules i
           else is_direct_class direct modules (classes ! i)))
     \<and> (\<forall>i < length classes. evidence ! i =
          (if is_direct_class direct modules (classes ! i) then DIRECT
           else if flags ! i then LOCAL_INHERITANCE else NONE))"

lemma proven_parent_derives:
  assumes "swept classes direct modules k flags evidence" and "k < length classes"
  shows "is_direct_class direct modules (classes ! k) \<or> proven_parent classes flags k
     \<longleftrightarrow> derives classes direct modules k"
proof -
  have flag: "flags ! j \<longleftrightarrow> derives classes direct modules j" if "j < k" for j
    using assms that unfolding swept_def by simp
  show ?thesis
    unfolding proven_parent_def derives_iff [of classes direct modules k]
    using assms(2) flag by (auto split: option.splits)
qed

lemma swept_step:
  assumes inv: "swept classes direct modules k flags evidence" and k: "k < length classes"
    and step: "sweep_class classes k (flags, evidence, ch) = (flags', evidence', ch')"
  shows "swept classes direct modules (Suc k) flags' evidence'"
proof -
  have fk: "flags ! k \<longleftrightarrow> is_direct_class direct modules (classes ! k)"
    using inv k unfolding swept_def by simp
  note der = proven_parent_derives [OF inv k]
  have suc: "(i < Suc k) = (i < k \<or> i = k)" for i by auto
  show ?thesis
  proof (cases "\<not> flags ! k \<and> proven_parent classes flags k")
    case True
    with step have "flags' = flags[k := True]" "evidence' = evidence[k := LOCAL_INHERITANCE]"
      by (auto simp: sweep_class_def)
    with inv k fk der True show ?thesis
      unfolding swept_def suc by (auto simp: nth_list_update)
  next
    case False
    with step have "flags' = flags" "evidence' = evidence"
      by (auto simp: sweep_class_def split: if_splits)
    with inv k fk der False show ?thesis
      unfolding swept_def suc by auto
  qed
qed

lemma swept_fold:
  assumes "swept classes direct modules k flags evidence" and "k \<le> length classes"
    and "fold (sweep_class classes) [k..<length classes] (flags, evidence, ch)
           = (flags', evidence', ch')"
  shows "swept classes direct modules (length classes) flags' evidence'"
  using assms
proof (induction "length classes - k" arbitrary: k flags evidence ch)
  case 0
  then show ?case by simp
next
  case (Suc n)
  then have k: "k < length classes" by simp
  obtain f e c where step: "sweep_class classes k (flags, evidence, ch) = (f, e, c)"
    by (cases "sweep_class classes k (flags, evidence, ch)")
  with Suc.prems(3) k have
    "fold (sweep_class classes) [Suc k..<length classes] (f, e, c) = (flags', evidence', ch')"
    by (simp add: upt_conv_Cons)
  then show ?case
    using swept_step [OF Suc.prems(1) k step] Suc.hyps k
    by (intro Suc.hyps(1) [of "Suc k" f e c]) auto
qed

lemma fold_unchanged:
  "(\<And>i. i \<in> set is' \<Longrightarrow> sweep_class classes i (flags, evidence, ch) = (flags, evidence, ch))
     \<Longrightarrow> fold (sweep_class classes) is' (flags, evidence, ch) = (flags, evidence, ch)"
  by (induction is') auto

lemma swept_stable:
  assumes "swept classes direct modules (length classes) flags evidence"
  shows "sweep classes flags evidence = (flags, evidence, False)"
  unfolding sweep_def
proof (rule fold_unchanged)
  fix i assume "i \<in> set [0..<length classes]"
  then have i: "i < length classes" by simp
  have flag: "flags ! j \<longleftrightarrow> derives classes direct modules j" if "j < length classes" for j
    using assms that unfolding swept_def by simp
  have "flags ! i" if "proven_parent classes flags i"
  proof -
    from that obtain b j where "b \<in> set (raw_bases (classes ! i))" "j < i" "flags ! j"
      "resolve_local_class_index b (raw_scope (classes ! i)) classes = Some j"
      by (auto simp: proven_parent_def split: option.splits)
    with i flag show ?thesis
      by (auto intro: derives.local)
  qed
  then show "sweep_class classes i (flags, evidence, False) = (flags, evidence, False)"
    by (simp add: sweep_class_def)
qed

lemma swept_initial:
  "swept classes direct modules 0 (map (is_direct_class direct modules) classes)
     (map (\<lambda>c. if is_direct_class direct modules c then DIRECT else NONE) classes)"
  by (simp add: swept_def)

lemma resolve_class_inheritance_swept:
  assumes "resolve_class_inheritance classes direct modules = (flags, evidence)"
  shows "swept classes direct modules (length classes) flags evidence"
proof -
  let ?f = "map (is_direct_class direct modules) classes"
  let ?e = "map (\<lambda>c. if is_direct_class direct modules c then DIRECT else NONE) classes"
  obtain f e c where s: "sweep classes ?f ?e = (f, e, c)"
    by (cases "sweep classes ?f ?e")
  then have sw: "swept classes direct modules (length classes) f e"
    by (intro swept_fold [OF swept_initial]) (auto simp: sweep_def)
  have "inherit_loop classes ?f ?e = (f, e)"
  proof (cases c)
    case True
    have "inherit_loop classes ?f ?e = inherit_loop classes f e"
      using s True by (subst inherit_loop.simps) simp
    also have "\<dots> = (f, e)"
      using swept_stable [OF sw] sw by (subst inherit_loop.simps) (simp add: swept_def)
    finally show ?thesis .
  next
    case False
    with s show ?thesis
      by (subst inherit_loop.simps) simp
  qed
  with assms sw show ?thesis
    by (simp add: resolve_class_inheritance_def)
qed

end
