(* ===== verification/AstScan.thy ===== *)
theory AstScan
  imports AstScanner ClassInheritance
begin

text \<open>
  \<open>ASTScanner.scan\<close> of \<open>app/scanner/ast_scanner.py\<close>: the per-file loop over the validated
  inventory and the registry it produces.  \<open>parse\<close> is \<open>ast.parse\<close> (\<^const>\<open>None\<close> for
  \<open>SyntaxError\<close>) and \<open>ast_digest\<close> the SHA-256 of \<open>ast.dump\<close>.
\<close>

record parsed_python_file =
  pp_path :: string
  pp_module :: string
  pp_tree :: node

record ast_scan_result =
  asr_registry :: scanner_registry
  asr_parsed :: "parsed_python_file list"

section \<open>Type information of one file\<close>

definition materialize_classes ::
  "string \<Rightarrow> string \<Rightarrow> raw_class list \<Rightarrow> bool list \<Rightarrow> base_model_evidence list
     \<Rightarrow> scan_exn + class_record list" where
  "materialize_classes path modul raws flags evidence =
     traverseE (\<lambda>(raw, flag, ev). make_class_record
        \<lparr>cls_path = path, cls_module = modul, cls_name = raw_name raw,
         cls_qualified = raw_qualified raw, cls_scope = raw_scope raw,
         cls_bases = raw_bases raw, cls_is_base_model = flag, cls_evidence = ev,
         cls_location = raw_location raw\<rparr>) (zip raws (zip flags evidence))"

definition parameter_clue ::
  "string \<Rightarrow> string \<Rightarrow> raw_class list \<Rightarrow> bool list \<Rightarrow> string list \<Rightarrow> string list \<Rightarrow> raw_parameter
     \<Rightarrow> scan_exn + parameter_type_clue" where
  "parameter_clue path modul classes flags direct modules raw =
     (case resolve_type_reference (rp_type raw) (rp_scope raw) classes flags direct modules of
        (resolved_class, is_base_model) \<Rightarrow> make_parameter_clue
          \<lparr>par_path = path, par_module = modul, par_function = rp_function raw,
           par_name = rp_name raw, par_type = rp_type raw, par_class = resolved_class,
           par_is_base_model = is_base_model, par_location = rp_location raw\<rparr>)"

fun assignment_clues ::
  "string \<Rightarrow> string \<Rightarrow> raw_class list \<Rightarrow> bool list \<Rightarrow> string list \<Rightarrow> string list
     \<Rightarrow> raw_assignment list \<Rightarrow> scan_exn + assignment_type_clue list" where
  "assignment_clues path modul classes flags direct modules [] = Inr []"
| "assignment_clues path modul classes flags direct modules (raw # raws) =
     (case resolve_type_reference (ra_type raw) (ra_scope raw) classes flags direct modules of
        (resolved_class, is_base_model) \<Rightarrow>
          if ra_evidence raw = CONSTRUCTOR_CALL \<and> resolved_class = None \<and> \<not> is_base_model
          then assignment_clues path modul classes flags direct modules raws
          else
            bindE (make_assignment_clue
              \<lparr>asg_path = path, asg_module = modul, asg_scope = ra_scope raw,
               asg_target = ra_target raw, asg_type = ra_type raw,
               asg_evidence = ra_evidence raw, asg_class = resolved_class,
               asg_is_base_model = is_base_model, asg_location = ra_location raw\<rparr>)
            (\<lambda>clue. bindE (assignment_clues path modul classes flags direct modules raws)
            (\<lambda>clues. Inr (clue # clues))))"

definition materialize_type_information ::
  "string \<Rightarrow> string \<Rightarrow> symbols
     \<Rightarrow> scan_exn + (class_record list \<times> parameter_type_clue list \<times> assignment_type_clue list)"
where
  "materialize_type_information path modul s =
     (case pydantic_basemodel_aliases (sym_imports s) (sym_bindings s) of
        (direct, modules) \<Rightarrow>
          (case resolve_class_inheritance (sym_classes s) direct modules of
             (flags, evidence) \<Rightarrow>
               bindE (materialize_classes path modul (sym_classes s) flags evidence)
                 (\<lambda>classes.
               bindE (traverseE (parameter_clue path modul (sym_classes s) flags direct modules)
                        (sym_parameters s)) (\<lambda>parameters.
               bindE (assignment_clues path modul (sym_classes s) flags direct modules
                        (sym_assignments s)) (\<lambda>assignments.
                 Inr (classes, parameters, assignments))))))"

section \<open>The scan\<close>

record file_scan =
  fsc_file :: file_record
  fsc_imports :: "import_record list"
  fsc_classes :: "class_record list"
  fsc_parameters :: "parameter_type_clue list"
  fsc_assignments :: "assignment_type_clue list"
  fsc_parsed :: parsed_python_file

definition scan_file ::
  "(byte list \<Rightarrow> string) \<Rightarrow> (source_text \<Rightarrow> node option) \<Rightarrow> (node \<Rightarrow> string) \<Rightarrow> source_env
     \<Rightarrow> string list \<Rightarrow> python_file \<times> module_record \<Rightarrow> scan_exn + file_scan" where
  "scan_file sha parse ast_digest env task_root = (\<lambda>(inventory, modul).
     bindE (read_validated_source sha env task_root inventory) (\<lambda>(source_bytes, text).
     (case parse text of
        None \<Rightarrow> Inl (ScannerErr SYNTAX_ERROR)
      | Some tree \<Rightarrow>
          bindE (make_file_record
            \<lparr>file_path = pf_relative_path inventory, file_module = mod_name modul,
             file_is_package = mod_is_package modul, file_size_bytes = length source_bytes,
             file_line_count = pf_line_count inventory, file_sha256 = pf_sha256 inventory,
             file_ast_sha256 = ast_digest tree, file_node_count = node_count tree,
             file_statement_count = length (module_body tree)\<rparr>) (\<lambda>file.
          bindE (collect_symbols (pf_relative_path inventory) tree) (\<lambda>symbols.
          bindE (materialize_type_information (pf_relative_path inventory) (mod_name modul)
                   symbols) (\<lambda>(classes, parameters, assignments).
            Inr \<lparr>fsc_file = file, fsc_imports = sym_imports symbols, fsc_classes = classes,
                 fsc_parameters = parameters, fsc_assignments = assignments,
                 fsc_parsed = \<lparr>pp_path = pf_relative_path inventory,
                               pp_module = mod_name modul, pp_tree = tree\<rparr>\<rparr>))))))"

definition assemble_registry :: "module_record list \<Rightarrow> file_scan list \<Rightarrow> scanner_registry" where
  "assemble_registry modules scans =
     \<lparr>reg_files = map fsc_file scans, reg_modules = modules,
      reg_imports = sort_key import_key (concat (map fsc_imports scans)),
      reg_classes = sort_key class_key (concat (map fsc_classes scans)),
      reg_parameters = sort_key parameter_key (concat (map fsc_parameters scans)),
      reg_assignments = sort_key assignment_key (concat (map fsc_assignments scans))\<rparr>"

definition ast_scan ::
  "(byte list \<Rightarrow> string) \<Rightarrow> (source_text \<Rightarrow> node option) \<Rightarrow> (node \<Rightarrow> string) \<Rightarrow> source_env
     \<Rightarrow> zip_guard_result \<Rightarrow> scan_exn + ast_scan_result" where
  "ast_scan sha parse ast_digest env validated =
     bindE (validate_inventory_contract validated) (\<lambda>_.
     bindE (resolve_task_root env (zr_task_root validated)) (\<lambda>task_root.
     bindE (build_module_records (zr_python_files validated)) (\<lambda>modules.
     bindE (traverseE (scan_file sha parse ast_digest env task_root)
              (zip (zr_python_files validated) modules)) (\<lambda>scans.
     bindE (make_registry (assemble_registry modules scans)) (\<lambda>registry.
       Inr \<lparr>asr_registry = registry, asr_parsed = map fsc_parsed scans\<rparr>)))))"

section \<open>Lemmas: module names\<close>

lemma build_modules_Inr:
  "build_modules items names = Inr records \<longleftrightarrow>
     list_all2 (\<lambda>item r. module_name_of (pf_relative_path item)
                 = Inr (mod_name r, mod_is_package r) \<and> mod_path r = pf_relative_path item)
       items records
     \<and> distinct (map mod_name records) \<and> set (map mod_name records) \<inter> set names = {}"
proof (induction items arbitrary: names records)
  case Nil
  then show ?case by auto
next
  case (Cons item items)
  show ?case
  proof (cases records)
    case Nil
    then show ?thesis by (auto split: if_splits)
  next
    case (Cons r rs)
    have "build_modules (item # items) names = Inr (r # rs) \<longleftrightarrow>
        module_name_of (pf_relative_path item) = Inr (mod_name r, mod_is_package r)
        \<and> mod_path r = pf_relative_path item \<and> mod_name r \<notin> set names
        \<and> build_modules items (mod_name r # names) = Inr rs"
      by (cases r) (auto split: if_splits)
    with Cons.IH show ?thesis
      unfolding Cons by auto
  qed
qed

lemma build_module_records_Inr:
  "build_module_records files = Inr records \<longleftrightarrow>
     list_all2 (\<lambda>item r. module_name_of (pf_relative_path item)
                 = Inr (mod_name r, mod_is_package r) \<and> mod_path r = pf_relative_path item)
       files records
     \<and> distinct (map mod_name records)"
  by (simp add: build_module_records_def build_modules_Inr)

section \<open>Lemmas: locations of the collected symbols\<close>

lemma make_source_location_Inr [simp]:
  "make_source_location l = Inr l' \<longleftrightarrow> valid_location l \<and> l' = l"
  by (auto simp: make_source_location_def)

lemma node_location_path:
  "node_location path n fallback = Inr l \<Longrightarrow> loc_path l = path \<and> valid_location l"
  by (auto simp: node_location_def location_at_def split: option.splits)

text \<open>Where an event says it happened.\<close>

fun event_location :: "symbol_event \<Rightarrow> source_location option" where
  "event_location (ImportEvent i) = Some (imp_location i)"
| "event_location (ClassEvent c) = Some (raw_location c)"
| "event_location (ParameterEvent p) = Some (rp_location p)"
| "event_location (AssignmentEvent a) = Some (ra_location a)"
| "event_location (BindingEvent b) = None"

definition located :: "string \<Rightarrow> symbol_result \<Rightarrow> bool" where
  "located path r \<longleftrightarrow>
     (\<forall>e l. r = Inr e \<and> event_location e = Some l \<longrightarrow> loc_path l = path \<and> valid_location l)"

lemma located_Inl [simp]: "located path (Inl e)"
  by (simp add: located_def)

lemma located_binding [simp]: "located path (Inr (BindingEvent b))"
  by (simp add: located_def)

lemma located_at:
  "(\<And>l e. loc_path l = path \<Longrightarrow> valid_location l \<Longrightarrow> f l = Inr e \<Longrightarrow> event_location e = Some l)
     \<Longrightarrow> located path (bindE (node_location path n fallback) f)"
  by (auto simp: located_def dest!: node_location_path)

lemma import_events_located: "r \<in> set (import_events path sc stmt i names) \<Longrightarrow> located path r"
  by (induction path sc stmt i names rule: import_events.induct)
    (auto intro!: located_at simp: make_import_record_def split: node.splits if_splits)

lemma import_from_events_located:
  "r \<in> set (import_from_events path sc stmt m level i names) \<Longrightarrow> located path r"
  by (induction path sc stmt m level i names rule: import_from_events.induct)
    (auto intro!: located_at simp: make_import_record_def split: node.splits if_splits)

lemma parameter_events_located:
  "r \<in> set (parameter_events path sc f args) \<Longrightarrow> located path r"
  by (induction path sc f args rule: parameter_events.induct)
    (auto intro!: located_at split: node.splits option.splits)

lemma binding_events_located: "r \<in> set (binding_events sc targets) \<Longrightarrow> located path r"
  by (auto simp: binding_events_def split: if_splits)

lemma clue_events_Name:
  "clue_events path sc (Name p i ctx) ty ev =
     (case dotted_name ty of
        Some d \<Rightarrow>
          if records_assignment_clues sc then
            [bindE (node_location path (Name p i ctx) None) (\<lambda>l.
               Inr (AssignmentEvent \<lparr>ra_scope = scope_path sc, ra_target = i, ra_type = d,
                      ra_evidence = ev, ra_location = l\<rparr>))]
          else []
      | None \<Rightarrow> [])"
  unfolding clue_events_def node.case by (cases "dotted_name ty") simp_all

lemma clue_events_located:
  assumes "r \<in> set (clue_events path sc t ty ev)"
  shows "located path r"
proof (cases "\<exists>p i ctx. t = Name p i ctx")
  case True
  with assms show ?thesis
    by (auto intro!: located_at simp: clue_events_Name split: option.splits if_splits)
next
  case False
  then have "clue_events path sc t ty ev = []"
    unfolding clue_events_def by (cases t) simp_all
  with assms show ?thesis by simp
qed

lemma class_events_located: "r \<in> set (class_events path sc n name bases) \<Longrightarrow> located path r"
  by (auto intro!: located_at simp: class_events_def split: if_splits)

lemma function_events_located: "r \<in> set (function_events path sc name args) \<Longrightarrow> located path r"
  by (auto dest: parameter_events_located simp: function_events_def split: if_splits)

lemma ann_assign_events_located:
  "r \<in> set (ann_assign_events path sc target annotation) \<Longrightarrow> located path r"
  by (auto dest: binding_events_located clue_events_located simp: ann_assign_events_def)

lemma assign_events_located: "r \<in> set (assign_events path sc targets v) \<Longrightarrow> located path r"
  by (cases v)
    (auto dest: binding_events_located clue_events_located simp: assign_events_def
      split: list.splits)

lemmas events_located = import_events_located import_from_events_located
  class_events_located function_events_located assign_events_located
  ann_assign_events_located binding_events_located

lemma own_events_located: "r \<in> set (own_events path sc n) \<Longrightarrow> located path r"
  by (cases n) (simp_all add: own_events_def events_located)

lemma visit_located: "r \<in> set (visit path sc n) \<Longrightarrow> located path r"
proof (induction path sc n arbitrary: r rule: visit.induct)
  case (1 path sc n)
  from "1.prems" have "r \<in> set (own_events path sc n)
      \<or> (\<exists>x \<in> set (visited_children n). r \<in> set (visit path (inner_scopes sc n) x))"
    by (subst (asm) visit.simps) auto
  then show ?case
    using "1.IH" own_events_located by blast
qed

section \<open>Lemmas: from the events to the registry\<close>

lemma add_event_sets:
  "i \<in> set (sym_imports (add_event e s)) \<longleftrightarrow> ImportEvent i = e \<or> i \<in> set (sym_imports s)"
  "c \<in> set (sym_classes (add_event e s)) \<longleftrightarrow> ClassEvent c = e \<or> c \<in> set (sym_classes s)"
  "p \<in> set (sym_parameters (add_event e s)) \<longleftrightarrow>
     ParameterEvent p = e \<or> p \<in> set (sym_parameters s)"
  "a \<in> set (sym_assignments (add_event e s)) \<longleftrightarrow>
     AssignmentEvent a = e \<or> a \<in> set (sym_assignments s)"
  by (cases e; auto)+

lemma add_events_sets:
  "i \<in> set (sym_imports (foldr add_event es s)) \<longleftrightarrow> ImportEvent i \<in> set es \<or> i \<in> set (sym_imports s)"
  "c \<in> set (sym_classes (foldr add_event es s)) \<longleftrightarrow> ClassEvent c \<in> set es \<or> c \<in> set (sym_classes s)"
  "p \<in> set (sym_parameters (foldr add_event es s)) \<longleftrightarrow>
     ParameterEvent p \<in> set es \<or> p \<in> set (sym_parameters s)"
  "a \<in> set (sym_assignments (foldr add_event es s)) \<longleftrightarrow>
     AssignmentEvent a \<in> set es \<or> a \<in> set (sym_assignments s)"
  by (induction es) (auto simp: add_event_sets)

lemma traverseE_id_set: "traverseE id rs = Inr xs \<Longrightarrow> x \<in> set xs \<longleftrightarrow> Inr x \<in> set rs"
  by (induction rs arbitrary: xs) auto

lemma collect_symbols_located:
  assumes "collect_symbols path tree = Inr s"
  shows "i \<in> set (sym_imports s) \<Longrightarrow> loc_path (imp_location i) = path"
    and "c \<in> set (sym_classes s) \<Longrightarrow> loc_path (raw_location c) = path"
    and "p \<in> set (sym_parameters s) \<Longrightarrow> loc_path (rp_location p) = path"
    and "a \<in> set (sym_assignments s) \<Longrightarrow> loc_path (ra_location a) = path"
proof -
  from assms obtain es where es: "traverseE id (visit path [] tree) = Inr es"
    and s: "s = foldr add_event es no_symbols"
    by (auto simp: collect_symbols_def)
  have loc: "loc_path l = path" if "e \<in> set es" "event_location e = Some l" for e l
  proof -
    from that(1) have "Inr e \<in> set (visit path [] tree)"
      using traverseE_id_set [OF es] by simp
    from visit_located [OF this] that(2) show ?thesis
      by (simp add: located_def)
  qed
  show "i \<in> set (sym_imports s) \<Longrightarrow> loc_path (imp_location i) = path"
    "c \<in> set (sym_classes s) \<Longrightarrow> loc_path (raw_location c) = path"
    "p \<in> set (sym_parameters s) \<Longrightarrow> loc_path (rp_location p) = path"
    "a \<in> set (sym_assignments s) \<Longrightarrow> loc_path (ra_location a) = path"
    by (auto simp: s add_events_sets no_symbols_def dest: loc)
qed

lemma materialize_classes_Inr:
  assumes "materialize_classes path modul raws flags evidence = Inr classes"
    and "length flags = length raws" "length evidence = length raws"
  shows "list_all2 (\<lambda>raw c. cls_path c = path \<and> cls_name c = raw_name raw
       \<and> cls_qualified c = raw_qualified raw \<and> cls_scope c = raw_scope raw
       \<and> cls_location c = raw_location raw) raws classes"
    and "map cls_is_base_model classes = flags" and "map cls_evidence classes = evidence"
proof -
  from assms(1) have l2: "list_all2 (\<lambda>x c. make_class_record
        \<lparr>cls_path = path, cls_module = modul, cls_name = raw_name (fst x),
         cls_qualified = raw_qualified (fst x), cls_scope = raw_scope (fst x),
         cls_bases = raw_bases (fst x), cls_is_base_model = fst (snd x),
         cls_evidence = snd (snd x), cls_location = raw_location (fst x)\<rparr> = Inr c)
       (zip raws (zip flags evidence)) classes"
    by (simp add: materialize_classes_def traverseE_Inr case_prod_beta)
  have len: "length (zip raws (zip flags evidence)) = length raws"
    using assms(2,3) by simp
  have pt: "i < length raws \<Longrightarrow> make_class_record
        \<lparr>cls_path = path, cls_module = modul, cls_name = raw_name (raws ! i),
         cls_qualified = raw_qualified (raws ! i), cls_scope = raw_scope (raws ! i),
         cls_bases = raw_bases (raws ! i), cls_is_base_model = flags ! i,
         cls_evidence = evidence ! i, cls_location = raw_location (raws ! i)\<rparr>
         = Inr (classes ! i)" for i
    using list_all2_nthD [OF l2, of i] assms(2,3) by simp
  have lc: "length classes = length raws"
    using list_all2_lengthD [OF l2] len by simp
  have sel: "c = r" if "make_class_record r = Inr c" for r c
    using that by (simp add: make_class_record_def split: if_splits)
  show "list_all2 (\<lambda>raw c. cls_path c = path \<and> cls_name c = raw_name raw
       \<and> cls_qualified c = raw_qualified raw \<and> cls_scope c = raw_scope raw
       \<and> cls_location c = raw_location raw) raws classes"
    by (rule list_all2_all_nthI) (auto simp: lc dest!: pt sel)
  show "map cls_is_base_model classes = flags" "map cls_evidence classes = evidence"
    by (rule nth_equalityI; auto simp: lc assms(2,3) dest!: pt sel)+
qed

lemma parameter_clue_Inr:
  "parameter_clue path modul classes flags direct modules raw = Inr p \<Longrightarrow>
     par_path p = path \<and> par_location p = rp_location raw"
  by (auto simp: parameter_clue_def make_parameter_clue_def split: prod.splits if_splits)

lemma assignment_clues_Inr:
  "assignment_clues path modul classes flags direct modules raws = Inr cs \<Longrightarrow> c \<in> set cs \<Longrightarrow>
     asg_path c = path \<and> asg_location c \<in> ra_location ` set raws"
proof (induction raws arbitrary: cs)
  case (Cons raw raws)
  obtain rc b where r:
    "resolve_type_reference (ra_type raw) (ra_scope raw) classes flags direct modules = (rc, b)"
    by (cases "resolve_type_reference (ra_type raw) (ra_scope raw) classes flags direct modules")
  show ?case
  proof (cases "ra_evidence raw = CONSTRUCTOR_CALL \<and> rc = None \<and> \<not> b")
    case True
    with Cons r show ?thesis by auto
  next
    case False
    with Cons.prems(1) r have "\<exists>clue clues.
        asg_path clue = path \<and> asg_location clue = ra_location raw \<and> cs = clue # clues
        \<and> assignment_clues path modul classes flags direct modules raws = Inr clues"
      by (auto simp: make_assignment_clue_def split: if_splits)
    with Cons show ?thesis by auto
  qed
qed simp

text \<open>Everything a file contributes is located in that file.\<close>

definition file_scan_ok :: "python_file \<Rightarrow> module_record \<Rightarrow> file_scan \<Rightarrow> bool" where
  "file_scan_ok item m fs \<longleftrightarrow>
     file_path (fsc_file fs) = pf_relative_path item
     \<and> file_module (fsc_file fs) = mod_name m \<and> file_is_package (fsc_file fs) = mod_is_package m
     \<and> pp_path (fsc_parsed fs) = pf_relative_path item \<and> pp_module (fsc_parsed fs) = mod_name m
     \<and> (\<forall>i \<in> set (fsc_imports fs). loc_path (imp_location i) = pf_relative_path item)
     \<and> (\<forall>c \<in> set (fsc_classes fs). loc_path (cls_location c) = pf_relative_path item)
     \<and> (\<forall>p \<in> set (fsc_parameters fs). loc_path (par_location p) = pf_relative_path item)
     \<and> (\<forall>a \<in> set (fsc_assignments fs). loc_path (asg_location a) = pf_relative_path item)"

lemma materialize_located:
  assumes "materialize_type_information path modul s = Inr (classes, parameters, assignments)"
    and "collect_symbols path tree = Inr s"
  shows "c \<in> set classes \<Longrightarrow> loc_path (cls_location c) = path"
    and "p \<in> set parameters \<Longrightarrow> loc_path (par_location p) = path"
    and "a \<in> set assignments \<Longrightarrow> loc_path (asg_location a) = path"
proof -
  obtain direct modules where al:
    "pydantic_basemodel_aliases (sym_imports s) (sym_bindings s) = (direct, modules)"
    by (cases "pydantic_basemodel_aliases (sym_imports s) (sym_bindings s)")
  obtain flags evidence where inh:
    "resolve_class_inheritance (sym_classes s) direct modules = (flags, evidence)"
    by (cases "resolve_class_inheritance (sym_classes s) direct modules")
  note sw = resolve_class_inheritance_swept [OF inh]
  then have len: "length flags = length (sym_classes s)"
    "length evidence = length (sym_classes s)"
    by (simp_all add: swept_def)
  from assms(1) al inh have
    m: "materialize_classes path modul (sym_classes s) flags evidence = Inr classes"
      "traverseE (parameter_clue path modul (sym_classes s) flags direct modules)
        (sym_parameters s) = Inr parameters"
      "assignment_clues path modul (sym_classes s) flags direct modules (sym_assignments s)
        = Inr assignments"
    by (simp_all add: materialize_type_information_def)
  note loc = collect_symbols_located [OF assms(2)]
  show "loc_path (cls_location c) = path" if "c \<in> set classes"
  proof -
    from list_all2_in2 [OF materialize_classes_Inr(1) [OF m(1) len] that]
    obtain raw where "raw \<in> set (sym_classes s)" "cls_location c = raw_location raw" by blast
    with loc(2) show ?thesis by simp
  qed
  show "loc_path (par_location p) = path" if "p \<in> set parameters"
  proof -
    from list_all2_in2 [OF m(2) [unfolded traverseE_Inr] that]
    obtain raw where "raw \<in> set (sym_parameters s)"
      and "parameter_clue path modul (sym_classes s) flags direct modules raw = Inr p" ..
    with loc(3) parameter_clue_Inr show ?thesis by fastforce
  qed
  show "loc_path (asg_location a) = path" if "a \<in> set assignments"
    using assignment_clues_Inr [OF m(3) that] loc(4) by auto
qed

lemma scan_file_ok:
  assumes "scan_file sha parse ast_digest env root (item, m) = Inr fs"
  shows "file_scan_ok item m fs"
proof -
  from assms obtain bs src tree fr s classes parameters assignments where
    "parse src = Some tree" and s: "collect_symbols (pf_relative_path item) tree = Inr s"
    and mt: "materialize_type_information (pf_relative_path item) (mod_name m) s
       = Inr (classes, parameters, assignments)"
    and fr: "file_path fr = pf_relative_path item" "file_module fr = mod_name m"
      "file_is_package fr = mod_is_package m"
    and fs: "fs = \<lparr>fsc_file = fr, fsc_imports = sym_imports s, fsc_classes = classes,
       fsc_parameters = parameters, fsc_assignments = assignments,
       fsc_parsed = \<lparr>pp_path = pf_relative_path item, pp_module = mod_name m,
                     pp_tree = tree\<rparr>\<rparr>"
    by (auto simp: scan_file_def make_file_record_def split: option.splits if_splits)
  show ?thesis
    unfolding file_scan_ok_def fs
    using fr collect_symbols_located(1) [OF s] materialize_located [OF mt s] by simp
qed

section \<open>The registry of a scan is always valid\<close>

lemma sort_id_iff: "sort xs = xs \<longleftrightarrow> sorted xs" for xs :: "'a::linorder list"
  using sorted_by_iff [of "\<lambda>x. x" xs] by simp

lemma inventory_contract_sorted:
  "validate_inventory_contract v = Inr u \<Longrightarrow>
     sorted (map pf_relative_path (zr_python_files v))
     \<and> distinct (map pf_relative_path (zr_python_files v))"
  by (simp add: validate_inventory_contract_def Let_def) (metis sort_id_iff)

lemma in_fscs:
  assumes "list_all2 (\<lambda>(item, m) f. file_scan_ok item m f) (zip items ms) fs"
    and "f \<in> set fs"
  shows "\<exists>item \<in> set items. \<exists>m. file_scan_ok item m f"
  using list_all2_in2 [OF assms] by (auto dest: set_zip_leftD)

lemma scanned_paths:
  assumes "list_all2 (\<lambda>(item, m) f. file_scan_ok item m f) (zip items ms) fs"
    and "length items = length ms"
  shows "map file_path (map fsc_file fs) = map pf_relative_path items"
    and "\<forall>(f, m) \<in> set (zip (map fsc_file fs) ms).
           (file_module f, file_is_package f) = (mod_name m, mod_is_package m)"
proof -
  have len: "length fs = length items"
    using assms by (auto dest: list_all2_lengthD)
  have nth: "file_scan_ok (items ! i) (ms ! i) (fs ! i)" if "i < length items" for i
    using list_all2_nthD [OF assms(1), of i] that assms(2) by simp
  show "map file_path (map fsc_file fs) = map pf_relative_path items"
    using nth len by (intro nth_equalityI) (auto simp: file_scan_ok_def)
  show "\<forall>(f, m) \<in> set (zip (map fsc_file fs) ms).
           (file_module f, file_is_package f) = (mod_name m, mod_is_package m)"
    using nth len by (auto simp: in_set_zip file_scan_ok_def)
qed

lemma assembled_locations:
  assumes "list_all2 (\<lambda>(item, m) f. file_scan_ok item m f) (zip items ms) fs"
  shows "set (map (loc_path \<circ> imp_location) (reg_imports (assemble_registry ms fs))
           @ map (loc_path \<circ> cls_location) (reg_classes (assemble_registry ms fs))
           @ map (loc_path \<circ> par_location) (reg_parameters (assemble_registry ms fs))
           @ map (loc_path \<circ> asg_location) (reg_assignments (assemble_registry ms fs)))
         \<subseteq> set (map pf_relative_path items)"
proof -
  have "loc_path (imp_location x) \<in> pf_relative_path ` set items"
    if "x \<in> set (fsc_imports f)" "f \<in> set fs" for x f
    using in_fscs [OF assms that(2)] that(1) by (auto simp: file_scan_ok_def)
  moreover have "loc_path (cls_location x) \<in> pf_relative_path ` set items"
    if "x \<in> set (fsc_classes f)" "f \<in> set fs" for x f
    using in_fscs [OF assms that(2)] that(1) by (auto simp: file_scan_ok_def)
  moreover have "loc_path (par_location x) \<in> pf_relative_path ` set items"
    if "x \<in> set (fsc_parameters f)" "f \<in> set fs" for x f
    using in_fscs [OF assms that(2)] that(1) by (auto simp: file_scan_ok_def)
  moreover have "loc_path (asg_location x) \<in> pf_relative_path ` set items"
    if "x \<in> set (fsc_assignments f)" "f \<in> set fs" for x f
    using in_fscs [OF assms that(2)] that(1) by (auto simp: file_scan_ok_def)
  ultimately show ?thesis
    by (auto simp: assemble_registry_def)
qed

lemma assembled_registry_valid:
  assumes contract: "validate_inventory_contract v = Inr u"
    and modules: "build_module_records (zr_python_files v) = Inr ms"
    and scans: "traverseE (scan_file sha parse ast_digest env root)
                  (zip (zr_python_files v) ms) = Inr fs"
  shows "make_registry (assemble_registry ms fs) = Inr (assemble_registry ms fs)"
proof -
  let ?files = "zr_python_files v" and ?r = "assemble_registry ms fs"
  from modules have m: "list_all2 (\<lambda>item r. mod_path r = pf_relative_path item) ?files ms"
    "distinct (map mod_name ms)"
    by (auto simp: build_module_records_Inr elim: list_all2_mono)
  then have len: "length ?files = length ms"
    by (auto dest: list_all2_lengthD)
  from scans have l2: "list_all2 (\<lambda>(item, m) f. file_scan_ok item m f) (zip ?files ms) fs"
    unfolding traverseE_Inr by (rule list_all2_mono) (auto dest: scan_file_ok)
  have files: "map file_path (reg_files ?r) = map pf_relative_path ?files"
    using scanned_paths(1) [OF l2 len] by (simp add: assemble_registry_def)
  have mods: "map mod_path (reg_modules ?r) = map pf_relative_path ?files"
    using list_all2_map_eq [OF m(1), of pf_relative_path mod_path]
    by (simp add: assemble_registry_def)
  have sorted: "sort (map pf_relative_path ?files) = map pf_relative_path ?files"
    using inventory_contract_sorted [OF contract] by (simp add: sort_id_iff)
  have align: "\<not> (\<exists>(f, m) \<in> set (zip (reg_files ?r) (reg_modules ?r)).
      (file_module f, file_is_package f) \<noteq> (mod_name m, mod_is_package m))"
    using scanned_paths(2) [OF l2 len] by (auto simp: assemble_registry_def)
  have "distinct (map mod_name (reg_modules ?r))"
    using m(2) by (simp add: assemble_registry_def)
  moreover have "\<not> (\<exists>p \<in> set (map (loc_path \<circ> imp_location) (reg_imports ?r)
         @ map (loc_path \<circ> cls_location) (reg_classes ?r)
         @ map (loc_path \<circ> par_location) (reg_parameters ?r)
         @ map (loc_path \<circ> asg_location) (reg_assignments ?r)).
       p \<notin> set (map pf_relative_path ?files))"
    using assembled_locations [OF l2] by blast
  ultimately show ?thesis
    unfolding make_registry_def Let_def files mods sorted using align by (simp only: if_False simp_thms)
qed

lemma make_registry_same: "make_registry r = Inr r' \<Longrightarrow> r' = r"
  by (simp add: make_registry_def Let_def split: if_splits)

text \<open>The success of a scan, unfolded once.\<close>

lemma ast_scan_Inr:
  "ast_scan sha parse ast_digest env v = Inr res \<longleftrightarrow>
     (\<exists>u root ms fs. validate_inventory_contract v = Inr u
        \<and> resolve_task_root env (zr_task_root v) = Inr root
        \<and> build_module_records (zr_python_files v) = Inr ms
        \<and> traverseE (scan_file sha parse ast_digest env root) (zip (zr_python_files v) ms)
            = Inr fs
        \<and> res = \<lparr>asr_registry = assemble_registry ms fs, asr_parsed = map fsc_parsed fs\<rparr>)"
proof
  assume "ast_scan sha parse ast_digest env v = Inr res"
  then show "\<exists>u root ms fs. validate_inventory_contract v = Inr u
        \<and> resolve_task_root env (zr_task_root v) = Inr root
        \<and> build_module_records (zr_python_files v) = Inr ms
        \<and> traverseE (scan_file sha parse ast_digest env root) (zip (zr_python_files v) ms)
            = Inr fs
        \<and> res = \<lparr>asr_registry = assemble_registry ms fs, asr_parsed = map fsc_parsed fs\<rparr>"
    unfolding ast_scan_def by (fastforce dest: make_registry_same)
next
  assume "\<exists>u root ms fs. validate_inventory_contract v = Inr u
        \<and> resolve_task_root env (zr_task_root v) = Inr root
        \<and> build_module_records (zr_python_files v) = Inr ms
        \<and> traverseE (scan_file sha parse ast_digest env root) (zip (zr_python_files v) ms)
            = Inr fs
        \<and> res = \<lparr>asr_registry = assemble_registry ms fs, asr_parsed = map fsc_parsed fs\<rparr>"
  then show "ast_scan sha parse ast_digest env v = Inr res"
    using assembled_registry_valid by (auto simp: ast_scan_def)
qed

end
