(* ===== verification/RuleScanner.thy ===== *)
theory RuleScanner
  imports BindingIndex AstScan
begin

text \<open>
  \<open>RuleScanner\<close> of \<open>app/scanner/rule_scanner.py\<close>: the eight rules over one walk of each
  parsed tree.  As in the symbol collector, the visitor's list of findings is the list of
  what the walk emits, in order; the first emission that could not be built aborts the scan.
\<close>

definition GENERICS_MODULE :: string where "GENERICS_MODULE = ''pydantic.generics''"

definition VALIDATOR_SYMBOLS :: "string list" where
  "VALIDATOR_SYMBOLS = [''root_validator'', ''validate_arguments'', ''validator'']"

definition CONFIG_KEYS :: "string list" where
  "CONFIG_KEYS = [''orm_mode'', ''schema_extra'', ''allow_population_by_field_name'']"

definition BASE_MODEL_METHODS :: "string list" where
  "BASE_MODEL_METHODS =
     [''construct'', ''copy'', ''dict'', ''json'', ''json_schema'', ''parse_obj'',
      ''schema'', ''schema_json'', ''update_forward_refs'']"

definition DATA_LOADING_METHODS :: "string list" where
  "DATA_LOADING_METHODS = [''parse_raw'', ''parse_file'', ''from_orm'']"

definition REMOVED_FIELD_KEYWORDS :: "string list" where
  "REMOVED_FIELD_KEYWORDS =
     [''allow_mutation'', ''const'', ''final'', ''max_items'', ''min_items'', ''regex'',
      ''unique_items'']"

definition V2_FIELD_KEYWORDS :: "string list" where
  "V2_FIELD_KEYWORDS =
     [''alias'', ''alias_priority'', ''allow_inf_nan'', ''coerce_numbers_to_str'',
      ''decimal_places'', ''default'', ''default_factory'', ''deprecated'',
      ''description'', ''discriminator'', ''examples'', ''exclude'', ''exclude_if'',
      ''fail_fast'', ''field_title_generator'', ''frozen'', ''ge'', ''gt'', ''init'',
      ''init_var'', ''json_schema_extra'', ''kw_only'', ''le'', ''lt'', ''max_digits'',
      ''max_length'', ''min_length'', ''multiple_of'', ''pattern'', ''repr'',
      ''serialization_alias'', ''strict'', ''title'', ''union_mode'',
      ''validate_default'', ''validation_alias'']"

section \<open>Building a finding\<close>

definition evidence_facts :: "evidence_values \<Rightarrow> rule_exn + evidence_fact list" where
  "evidence_facts values =
     traverseE (\<lambda>(k, v). make_evidence_fact \<lparr>ev_key = k, ev_value = v\<rparr>)
       (sort_key (\<lambda>(k, v). evidence_key_value k) values)"

definition import_values ::
  "import_proof \<Rightarrow> string \<Rightarrow> string \<Rightarrow> string option \<Rightarrow> string option \<Rightarrow> evidence_values" where
  "import_values ip import_module import_symbol decorator_symbol reference_symbol =
     [(EV_IMPORT_MODULE, import_module), (EV_IMPORT_SYMBOL, import_symbol),
      (EV_LOCAL_SYMBOL, imp_local (ip_record ip))]
     @ map (Pair EV_DECORATOR_SYMBOL) (opt_list decorator_symbol)
     @ map (Pair EV_REFERENCE_SYMBOL) (opt_list reference_symbol)"

definition fact_values :: "evidence_fact list \<Rightarrow> evidence_values" where
  "fact_values facts = map (\<lambda>f. (ev_key f, ev_value f)) facts"

definition ast_location :: "node \<Rightarrow> rule_exn + finding_location" where
  "ast_location n =
     (case node_pos n of
        None \<Rightarrow> Inl (RuleScanErr INVALID_AST_LOCATION)
      | Some p \<Rightarrow> make_finding_location
          \<lparr>fl_start_line = pos_line p, fl_start_column = pos_col p,
           fl_end_line = pos_end_line p, fl_end_column = pos_end_col p\<rparr>)"

definition finding_at ::
  "rule_id \<Rightarrow> string \<Rightarrow> rule_exn + finding_location \<Rightarrow> string \<Rightarrow> matched_construct
     \<Rightarrow> evidence_fact list \<Rightarrow> rule_exn + finding" where
  "finding_at r path location old_api construct evidence =
     bindE (get_rule_spec r) (\<lambda>s.
     bindE location (\<lambda>l.
       make_finding
         \<lparr>fd_rule_id = r, fd_category = spec_category s, fd_path = path, fd_location = l,
          fd_old_api = old_api, fd_construct = construct, fd_evidence = evidence,
          fd_confidence = HIGH, fd_severity = spec_severity s,
          fd_requires_manual_review = False\<rparr>))"

text \<open>\<open>_finding\<close> for a node, \<open>_finding_from_location\<close> for an import record; the evidence is
  built first.\<close>

definition node_finding ::
  "rule_id \<Rightarrow> string \<Rightarrow> node \<Rightarrow> string \<Rightarrow> matched_construct \<Rightarrow> evidence_values
     \<Rightarrow> rule_exn + finding" where
  "node_finding r path n old_api construct values =
     bindE (evidence_facts values) (\<lambda>facts.
       finding_at r path (ast_location n) old_api construct facts)"

definition location_finding ::
  "rule_id \<Rightarrow> string \<Rightarrow> source_location \<Rightarrow> string \<Rightarrow> matched_construct \<Rightarrow> evidence_values
     \<Rightarrow> rule_exn + finding" where
  "location_finding r path l old_api construct values =
     bindE (evidence_facts values) (\<lambda>facts.
       finding_at r path
         (make_finding_location
           \<lparr>fl_start_line = loc_line l, fl_start_column = loc_column l,
            fl_end_line = loc_end_line l, fl_end_column = loc_end_column l\<rparr>)
         old_api construct facts)"

section \<open>Import findings\<close>

definition settings_import_findings ::
  "string \<Rightarrow> import_record list \<Rightarrow> (rule_exn + finding) list" where
  "settings_import_findings path imports =
     map (\<lambda>i. location_finding PYDANTIC_V1_SETTINGS path (imp_location i) ''BaseSettings''
            SETTINGS_IMPORT
            (import_values \<lparr>ip_record = i, ip_reference = imp_local i\<rparr> PYDANTIC_MODULE
               ''BaseSettings'' None None))
       (filter (\<lambda>i. imp_kind i = FROM \<and> imp_module i = Some PYDANTIC_MODULE
                  \<and> imp_name i = Some ''BaseSettings'' \<and> imp_level i = 0) imports)"

definition generic_model_import_findings ::
  "string \<Rightarrow> import_record list \<Rightarrow> (rule_exn + finding) list" where
  "generic_model_import_findings path imports =
     map (\<lambda>i. location_finding PYDANTIC_V1_GENERIC_MODEL path (imp_location i) ''GenericModel''
            GENERIC_MODEL_IMPORT
            (import_values \<lparr>ip_record = i, ip_reference = imp_local i\<rparr> GENERICS_MODULE
               ''GenericModel'' None None))
       (filter (\<lambda>i. imp_kind i = FROM \<and> imp_module i = Some GENERICS_MODULE
                  \<and> imp_name i = Some ''GenericModel'' \<and> imp_level i = 0) imports)"

section \<open>The visitor\<close>

record rule_context =
  rc_path :: string
  rc_bindings :: "binding_event list"
  rc_receivers :: receiver_index
  rc_classes :: "class_record list"

text \<open>\<open>_accessible_scopes\<close>: the current scope, the enclosing function scopes, the module.\<close>

definition accessible_scopes :: "scopes \<Rightarrow> string list list" where
  "accessible_scopes sc =
     (if sc = [] then [[]]
      else
        (let scs = scope_path sc
               # map (\<lambda>i. scope_path (take (i + 1) sc))
                   (filter (\<lambda>i. fst (sc ! i) = FunctionScope) (rev [0..<length sc - 1]))
         in if [] \<in> set scs then scs else scs @ [[]]))"

definition detect_generic_model_bases ::
  "rule_context \<Rightarrow> scopes \<Rightarrow> node list \<Rightarrow> (rule_exn + finding) list" where
  "detect_generic_model_bases rc sc bases =
     concat (map (\<lambda>base.
       case resolve_symbol (rc_bindings rc) base GENERICS_MODULE ''GenericModel''
              (accessible_scopes sc) of
         None \<Rightarrow> []
       | Some ip \<Rightarrow>
           [node_finding PYDANTIC_V1_GENERIC_MODEL (rc_path rc) (symbol_reference_node base)
              ''GenericModel'' GENERIC_MODEL_BASE
              (import_values ip GENERICS_MODULE ''GenericModel'' None
                 (Some (ip_reference ip)))]) bases)"

fun first_validator ::
  "rule_context \<Rightarrow> scopes \<Rightarrow> node \<Rightarrow> string list \<Rightarrow> (import_proof \<times> string) option" where
  "first_validator rc sc decorator [] = None"
| "first_validator rc sc decorator (candidate # candidates) =
     (case resolve_symbol (rc_bindings rc) decorator PYDANTIC_MODULE candidate
             (accessible_scopes sc) of
        Some ip \<Rightarrow> Some (ip, candidate)
      | None \<Rightarrow> first_validator rc sc decorator candidates)"

definition decorator_candidates :: "node \<Rightarrow> string list" where
  "decorator_candidates symbol_node =
     (case symbol_node of
        Attribute p v attr ctx \<Rightarrow> if attr \<in> set VALIDATOR_SYMBOLS then [attr] else []
      | _ \<Rightarrow> sort VALIDATOR_SYMBOLS)"

definition detect_decorators ::
  "rule_context \<Rightarrow> scopes \<Rightarrow> node list \<Rightarrow> (rule_exn + finding) list" where
  "detect_decorators rc sc decorators =
     concat (map (\<lambda>decorator.
       (let symbol_node = (case decorator of Call p f args ks \<Rightarrow> f | _ \<Rightarrow> decorator)
        in if dotted_name symbol_node = None then []
           else (case first_validator rc sc decorator (decorator_candidates symbol_node) of
               None \<Rightarrow> []
             | Some (ip, old_api) \<Rightarrow>
                 [node_finding PYDANTIC_V1_VALIDATOR (rc_path rc) decorator old_api DECORATOR
                    (import_values ip PYDANTIC_MODULE old_api
                       (Some (ip_reference ip)) None)]))) decorators)"

fun assignment_name_targets :: "node \<Rightarrow> node list" where
  "assignment_name_targets (Assign p targets v) =
     filter (\<lambda>t. case t of Name _ _ _ \<Rightarrow> True | _ \<Rightarrow> False) targets"
| "assignment_name_targets (AnnAssign p (Name q i ctx) annotation v) = [Name q i ctx]"
| "assignment_name_targets _ = []"

definition model_values :: "class_record \<Rightarrow> evidence_values" where
  "model_values c =
     [(EV_MODEL_EVIDENCE, evidence_value (cls_evidence c)),
      (EV_MODEL_QUALIFIED_NAME, cls_qualified c)]"

definition detect_config_keys ::
  "rule_context \<Rightarrow> class_record \<Rightarrow> node list \<Rightarrow> (rule_exn + finding) list" where
  "detect_config_keys rc c body =
     map (\<lambda>t. node_finding PYDANTIC_V1_CONFIG (rc_path rc) t (name_id t) CONFIG_KEY
                (put EV_CONFIG_KEY (name_id t) (model_values c)))
       (filter (\<lambda>t. name_id t \<in> set CONFIG_KEYS) (concat (map assignment_name_targets body)))"

definition detect_root_fields ::
  "rule_context \<Rightarrow> class_record \<Rightarrow> node \<Rightarrow> (rule_exn + finding) list" where
  "detect_root_fields rc c statement =
     map (\<lambda>t. node_finding PYDANTIC_V1_ROOT_MODEL (rc_path rc) t ''__root__'' ROOT_FIELD
                (model_values c))
       (filter (\<lambda>t. name_id t = ''__root__'') (assignment_name_targets statement))"

definition detect_model_constructs ::
  "rule_context \<Rightarrow> class_record \<Rightarrow> node list \<Rightarrow> (rule_exn + finding) list" where
  "detect_model_constructs rc c body =
     concat (map (\<lambda>statement.
       (case statement of
          ClassDef p name bases ks inner decorators \<Rightarrow>
            if name = ''Config'' then
              node_finding PYDANTIC_V1_CONFIG (rc_path rc) statement ''Config'' CONFIG_CLASS
                (model_values c)
              # detect_config_keys rc c inner
            else []
        | _ \<Rightarrow> [])
       @ detect_root_fields rc c statement) body)"

definition class_at :: "rule_context \<Rightarrow> string \<Rightarrow> nat \<times> nat \<Rightarrow> class_record option" where
  "class_at rc qualified start =
     map_of (rev (map (\<lambda>c. ((cls_qualified c, loc_line (cls_location c),
                             loc_column (cls_location c)), c)) (rc_classes rc)))
       (qualified, fst start, snd start)"

text \<open>\<open>_detect_field_keywords\<close>: a keyword of \<open>Field\<close> that v2 does not know.\<close>

definition field_keyword_kind :: "string \<Rightarrow> string option" where
  "field_keyword_kind arg =
     (if arg \<in> set REMOVED_FIELD_KEYWORDS then Some ''removed_or_changed''
      else if arg \<notin> set V2_FIELD_KEYWORDS then Some ''arbitrary_schema_extra''
      else None)"

fun field_keyword_findings ::
  "rule_context \<Rightarrow> import_proof \<Rightarrow> node list \<Rightarrow> (rule_exn + finding) list" where
  "field_keyword_findings rc ip [] = []"
| "field_keyword_findings rc ip (Keyword p (Some arg) v # ks) =
     (case field_keyword_kind arg of
        None \<Rightarrow> []
      | Some kind \<Rightarrow>
          [bindE (evidence_facts (import_values ip PYDANTIC_MODULE ''Field'' None
                    (Some (ip_reference ip)))) (\<lambda>facts.
             node_finding PYDANTIC_V1_FIELD (rc_path rc) (Keyword p (Some arg) v) arg
               FIELD_KEYWORD
               (put EV_FIELD_KEYWORD_KIND kind (put EV_FIELD_KEYWORD arg (fact_values facts))))])
     @ field_keyword_findings rc ip ks"
| "field_keyword_findings rc ip (_ # ks) = field_keyword_findings rc ip ks"

definition detect_field_keywords ::
  "rule_context \<Rightarrow> scopes \<Rightarrow> node \<Rightarrow> node list \<Rightarrow> (rule_exn + finding) list" where
  "detect_field_keywords rc sc call ks =
     (case resolve_symbol (rc_bindings rc) call PYDANTIC_MODULE ''Field''
             (accessible_scopes sc) of
        None \<Rightarrow> []
      | Some ip \<Rightarrow> field_keyword_findings rc ip ks)"

definition resolve_receiver ::
  "rule_context \<Rightarrow> scopes \<Rightarrow> node \<Rightarrow> rule_exn + evidence_values option" where
  "resolve_receiver rc sc receiver =
     (case resolve_receiver_binding (rc_receivers rc) receiver (accessible_scopes sc) of
        (Some values, _) \<Rightarrow> Inr (Some values)
      | (None, True) \<Rightarrow> Inr None
      | (None, False) \<Rightarrow>
          (case resolve_symbol (rc_bindings rc) receiver PYDANTIC_MODULE ''BaseModel''
                  (accessible_scopes sc) of
             None \<Rightarrow> Inr None
           | Some ip \<Rightarrow>
               bindE (evidence_facts (import_values ip PYDANTIC_MODULE ''BaseModel'' None
                        (Some (ip_reference ip)))) (\<lambda>facts.
                 Inr (Some
                   (put EV_TYPE_REFERENCE (ip_reference ip)
                   (put EV_RECEIVER_SYMBOL (ip_reference ip)
                   (put EV_RECEIVER_EVIDENCE
                      (if is_call receiver then ''inline_constructor_call''
                       else ''base_model_import'') (fact_values facts))))))))"

definition detect_base_model_call ::
  "rule_context \<Rightarrow> scopes \<Rightarrow> node \<Rightarrow> (rule_exn + finding) list" where
  "detect_base_model_call rc sc f =
     (case f of
        Attribute p v attr ctx \<Rightarrow>
          if attr \<notin> set BASE_MODEL_METHODS \<union> set DATA_LOADING_METHODS then []
          else (case resolve_receiver rc sc v of
              Inl e \<Rightarrow> [Inl e]
            | Inr None \<Rightarrow> []
            | Inr (Some values) \<Rightarrow>
                [if attr \<in> set DATA_LOADING_METHODS
                 then node_finding PYDANTIC_V1_DATA_LOADING (rc_path rc) f attr
                        DATA_LOADING_CALL values
                 else node_finding PYDANTIC_V1_BASE_MODEL_METHOD (rc_path rc) f attr
                        BASE_MODEL_METHOD_CALL values])
      | _ \<Rightarrow> [])"

definition detect_settings_reference ::
  "rule_context \<Rightarrow> scopes \<Rightarrow> node \<Rightarrow> string \<Rightarrow> expr_context \<Rightarrow> (rule_exn + finding) list" where
  "detect_settings_reference rc sc n attr ctx =
     (if attr = ''BaseSettings'' \<and> ctx = Load then
        (case resolve_symbol (rc_bindings rc) n PYDANTIC_MODULE ''BaseSettings''
                (accessible_scopes sc) of
           None \<Rightarrow> []
         | Some ip \<Rightarrow>
             [node_finding PYDANTIC_V1_SETTINGS (rc_path rc) n ''BaseSettings''
                SETTINGS_REFERENCE
                (import_values ip PYDANTIC_MODULE ''BaseSettings'' None
                   (Some (ip_reference ip)))])
      else [])"

fun default_values :: "node \<Rightarrow> node list" where
  "default_values (Arguments posonly args vararg kwonly kw_defaults kwarg defaults) =
     defaults @ concat (map opt_list kw_defaults)"
| "default_values _ = []"

definition class_constructs ::
  "rule_context \<Rightarrow> scopes \<Rightarrow> node \<Rightarrow> string \<Rightarrow> node list \<Rightarrow> (rule_exn + finding) list" where
  "class_constructs rc sc n name body =
     (case class_at rc (qualify sc name) (node_start n) of
        Some c \<Rightarrow> if cls_is_base_model c then detect_model_constructs rc c body else []
      | None \<Rightarrow> [])"

definition rule_steps ::
  "rule_context \<Rightarrow> scopes \<Rightarrow> node \<Rightarrow> (rule_exn + finding) step list" where
  "rule_steps rc sc n =
     (case n of
        ClassDef p name bases ks body decorators \<Rightarrow>
          map Emit (detect_decorators rc sc decorators @ detect_generic_model_bases rc sc bases)
          @ map (Visit sc) (decorators @ bases @ keyword_values ks)
          @ map Emit (class_constructs rc sc n name body)
          @ map (Visit (sc @ [(ClassScope, name)])) body
      | FunctionDef is_async p name args body decorators returns \<Rightarrow>
          map Emit (detect_decorators rc sc decorators)
          @ map (Visit sc) (decorators @ default_values args @ opt_list returns)
          @ map (Visit (sc @ [(FunctionScope, name)])) body
      | Call p f args ks \<Rightarrow>
          map Emit (detect_field_keywords rc sc n ks @ detect_base_model_call rc sc f)
          @ map (Visit sc) (children n)
      | Attribute p v attr ctx \<Rightarrow>
          map Emit (detect_settings_reference rc sc n attr ctx) @ map (Visit sc) (children n)
      | _ \<Rightarrow> map (Visit sc) (children n))"

lemma default_values_children: "v \<in> set (default_values args) \<Longrightarrow> v \<in> set (children args)"
  by (cases args) auto

lemma rule_steps_size:
  assumes v: "Visit sc' m \<in> set (rule_steps rc sc n)"
  shows "size m < size n"
proof -
  have emit: "Visit sc' m \<notin> set (map Emit xs)" for xs :: "(rule_exn + finding) list"
    by auto
  consider (child) "m \<in> set (children n)"
    | (kw) p name bases ks body decorators where
        "n = ClassDef p name bases ks body decorators" "m \<in> set (keyword_values ks)"
    | (default) a p name args body decorators returns where
        "n = FunctionDef a p name args body decorators returns" "m \<in> set (default_values args)"
    using v by (cases n) (auto simp: rule_steps_def emit)
  then show ?thesis
  proof cases
    case child
    then show ?thesis by (rule child_size)
  next
    case kw
    then show ?thesis using keyword_values_size [OF kw(2)] by simp
  next
    case default
    from child_size [OF default_values_children [OF default(2)]] default(1)
    show ?thesis by simp
  qed
qed

function visit_rules :: "rule_context \<Rightarrow> scopes \<Rightarrow> node \<Rightarrow> (rule_exn + finding) list" where
  "visit_rules rc sc n =
     concat (map (\<lambda>s. case s of Emit e \<Rightarrow> [e] | Visit sc' m \<Rightarrow> visit_rules rc sc' m)
       (rule_steps rc sc n))"
  by pat_completeness auto
termination
  by (relation "measure (\<lambda>(rc, sc, n). size n)") (auto intro: rule_steps_size)

declare visit_rules.simps [simp del]

section \<open>The scan\<close>

definition is_module :: "node \<Rightarrow> bool" where
  "is_module n = (case n of Module body ignores \<Rightarrow> True | _ \<Rightarrow> False)"

definition validate_scan_result ::
  "(node \<Rightarrow> string) \<Rightarrow> ast_scan_result \<Rightarrow> rule_exn + unit" where
  "validate_scan_result ast_digest r =
     (let files = reg_files (asr_registry r); parsed = asr_parsed r
      in raise_if
           (length files \<noteq> length parsed
            \<or> (\<exists>(f, p) \<in> set (zip files parsed).
                 \<not> is_module (pp_tree p) \<or> pp_path p \<noteq> file_path f
                 \<or> pp_module p \<noteq> file_module f
                 \<or> ast_digest (pp_tree p) \<noteq> file_ast_sha256 f))
           (RuleScanErr INVALID_SCAN_RESULT))"

definition file_context ::
  "scanner_registry \<Rightarrow> parsed_python_file \<Rightarrow> rule_context \<times> import_record list" where
  "file_context reg p =
     (let imports = filter (\<lambda>i. loc_path (imp_location i) = pp_path p) (reg_imports reg);
          classes = filter (\<lambda>c. cls_path c = pp_path p) (reg_classes reg)
      in (\<lparr>rc_path = pp_path p, rc_bindings = binding_index (pp_tree p) imports,
           rc_receivers = make_receiver_index (pp_tree p) classes
             (filter (\<lambda>q. par_path q = pp_path p) (reg_parameters reg))
             (filter (\<lambda>a. asg_path a = pp_path p) (reg_assignments reg)),
           rc_classes = classes\<rparr>, imports))"

definition file_findings ::
  "scanner_registry \<Rightarrow> parsed_python_file \<Rightarrow> (rule_exn + finding) list" where
  "file_findings reg p =
     (case file_context reg p of
        (rc, imports) \<Rightarrow>
          settings_import_findings (pp_path p) imports
          @ generic_model_import_findings (pp_path p) imports
          @ visit_rules rc [] (pp_tree p))"

definition rule_scan ::
  "(node \<Rightarrow> string) \<Rightarrow> ast_scan_result \<Rightarrow> rule_exn + finding list" where
  "rule_scan ast_digest r =
     bindE (validate_scan_result ast_digest r) (\<lambda>_.
     bindE (traverseE id (concat (map (file_findings (asr_registry r)) (asr_parsed r))))
       (\<lambda>findings. make_rule_scan_result (sort_key finding_sort_key findings)))"

section \<open>What the visitor can emit\<close>

lemma make_finding_location_Inr [simp]:
  "make_finding_location l = Inr l' \<longleftrightarrow> valid_finding_location l \<and> l' = l"
  by (auto simp: make_finding_location_def)

lemma finding_at_Inr:
  "finding_at r path loc api c ev = Inr f \<Longrightarrow>
     valid_finding f \<and> fd_rule_id f = r \<and> fd_path f = path \<and> fd_old_api f = api"
  by (auto simp: finding_at_def)

lemma ast_location_Inr: "ast_location n = Inr l \<Longrightarrow> valid_finding_location l"
  by (auto simp: ast_location_def split: option.splits)

lemma finding_at_location:
  "finding_at r path loc api c ev = Inr f \<Longrightarrow> loc = Inr (fd_location f)"
  by (auto simp: finding_at_def)

text \<open>
  The API names of a rule: those of its registry entry, and for \<open>Field\<close>, whose rule is
  open-ended, every keyword that v2 removed or does not know.

  The contract of an emission: a valid finding of the visited file, at a valid location,
  whose old API is one of its rule; or one of the two errors a finding can end in.
\<close>

definition rule_api :: "rule_id \<Rightarrow> string \<Rightarrow> bool" where
  "rule_api r api \<longleftrightarrow>
     (if r = PYDANTIC_V1_FIELD then api \<in> set REMOVED_FIELD_KEYWORDS \<or> api \<notin> set V2_FIELD_KEYWORDS
      else \<exists>s. get_rule_spec r = Inr s \<and> api \<in> set (spec_old_apis s))"

definition finding_error :: "rule_exn \<Rightarrow> bool" where
  "finding_error e \<longleftrightarrow> e = RuleValidationErr \<or> e = RuleScanErr INVALID_AST_LOCATION"

definition emission_ok :: "string \<Rightarrow> rule_exn + finding \<Rightarrow> bool" where
  "emission_ok path x \<longleftrightarrow>
     (case x of
        Inr f \<Rightarrow> valid_finding f \<and> fd_path f = path \<and> valid_finding_location (fd_location f)
          \<and> rule_api (fd_rule_id f) (fd_old_api f)
      | Inl e \<Rightarrow> finding_error e)"

lemma emission_Inl [simp]: "emission_ok path (Inl e) = finding_error e"
  by (simp add: emission_ok_def)

lemma evidence_facts_Inl: "evidence_facts values = Inl e \<Longrightarrow> e = RuleValidationErr"
  by (auto simp: evidence_facts_def make_evidence_fact_def dest!: traverseE_Inl split: if_splits)

lemma location_errors:
  "ast_location n = Inl e \<Longrightarrow> finding_error e"
  "make_finding_location l = Inl e \<Longrightarrow> finding_error e"
  by (auto simp: ast_location_def make_finding_location_def finding_error_def
      split: option.splits if_splits)

lemma finding_at_ok:
  assumes "rule_api r api" and "\<And>l. loc = Inr l \<Longrightarrow> valid_finding_location l"
    and "\<And>e. loc = Inl e \<Longrightarrow> finding_error e"
  shows "emission_ok path (finding_at r path loc api c ev)"
proof -
  obtain s where s: "get_rule_spec r = Inr s"
    using get_rule_spec_total [of r] by blast
  show ?thesis
  proof (cases loc)
    case (Inl e)
    with assms(3) s show ?thesis by (simp add: finding_at_def)
  next
    case (Inr l)
    with assms(1,2) s show ?thesis
      by (simp add: finding_at_def make_finding_def emission_ok_def finding_error_def)
  qed
qed

lemma node_finding_ok:
  "rule_api r api \<Longrightarrow> emission_ok path (node_finding r path n api c values)"
  by (cases "evidence_facts values")
    (auto simp: node_finding_def finding_error_def intro!: finding_at_ok
      dest: ast_location_Inr evidence_facts_Inl location_errors [unfolded finding_error_def])

lemma location_finding_ok:
  "rule_api r api \<Longrightarrow> emission_ok path (location_finding r path l api c values)"
  by (cases "evidence_facts values")
    (auto simp: location_finding_def finding_error_def intro!: finding_at_ok
      dest: evidence_facts_Inl location_errors [unfolded finding_error_def])

lemma get_rule_spec_simps:
  "get_rule_spec PYDANTIC_V1_SETTINGS = Inr (rule PYDANTIC_V1_SETTINGS SETTINGS HIGH [''BaseSettings''])"
  "get_rule_spec PYDANTIC_V1_ROOT_MODEL = Inr (rule PYDANTIC_V1_ROOT_MODEL ROOT_MODEL MEDIUM [''__root__''])"
  "get_rule_spec PYDANTIC_V1_GENERIC_MODEL =
     Inr (rule PYDANTIC_V1_GENERIC_MODEL GENERIC_MODEL MEDIUM [''GenericModel''])"
  "get_rule_spec PYDANTIC_V1_VALIDATOR =
     Inr (rule PYDANTIC_V1_VALIDATOR VALIDATOR HIGH VALIDATOR_SYMBOLS)"
  "get_rule_spec PYDANTIC_V1_CONFIG = Inr (rule PYDANTIC_V1_CONFIG CONFIG HIGH
     [''Config'', ''allow_population_by_field_name'', ''orm_mode'', ''schema_extra''])"
  "get_rule_spec PYDANTIC_V1_BASE_MODEL_METHOD =
     Inr (rule PYDANTIC_V1_BASE_MODEL_METHOD BASE_MODEL_METHOD MEDIUM BASE_MODEL_METHODS)"
  "get_rule_spec PYDANTIC_V1_DATA_LOADING = Inr (rule PYDANTIC_V1_DATA_LOADING DATA_LOADING HIGH
     [''from_orm'', ''parse_file'', ''parse_raw''])"
  by (simp_all add: get_rule_spec_def PRODUCTION_RULE_SPECS_def rule_def VALIDATOR_SYMBOLS_def
      BASE_MODEL_METHODS_def)

lemma rule_apis:
  "rule_api PYDANTIC_V1_SETTINGS ''BaseSettings''" "rule_api PYDANTIC_V1_ROOT_MODEL ''__root__''"
  "rule_api PYDANTIC_V1_GENERIC_MODEL ''GenericModel''" "rule_api PYDANTIC_V1_CONFIG ''Config''"
  "field_keyword_kind api \<noteq> None \<Longrightarrow> rule_api PYDANTIC_V1_FIELD api"
  "api \<in> set VALIDATOR_SYMBOLS \<Longrightarrow> rule_api PYDANTIC_V1_VALIDATOR api"
  "api \<in> set CONFIG_KEYS \<Longrightarrow> rule_api PYDANTIC_V1_CONFIG api"
  "api \<in> set BASE_MODEL_METHODS \<Longrightarrow> rule_api PYDANTIC_V1_BASE_MODEL_METHOD api"
  "api \<in> set DATA_LOADING_METHODS \<Longrightarrow> rule_api PYDANTIC_V1_DATA_LOADING api"
  unfolding rule_api_def get_rule_spec_simps
  by (auto simp: rule_def CONFIG_KEYS_def DATA_LOADING_METHODS_def field_keyword_kind_def
      split: if_splits)

lemma settings_import_ok: "e \<in> set (settings_import_findings path imports) \<Longrightarrow> emission_ok path e"
  by (auto simp: settings_import_findings_def intro!: location_finding_ok rule_apis)

lemma generic_import_ok:
  "e \<in> set (generic_model_import_findings path imports) \<Longrightarrow> emission_ok path e"
  by (auto simp: generic_model_import_findings_def intro!: location_finding_ok rule_apis)

lemma generic_bases_ok:
  "e \<in> set (detect_generic_model_bases rc sc bases) \<Longrightarrow> emission_ok (rc_path rc) e"
  by (auto simp: detect_generic_model_bases_def intro!: node_finding_ok rule_apis
      split: option.splits)

lemma first_validator_in:
  "first_validator rc sc d cs = Some (ip, api) \<Longrightarrow> api \<in> set cs"
  by (induction cs) (auto split: option.splits)

lemma decorator_candidates_sub: "set (decorator_candidates n) \<subseteq> set VALIDATOR_SYMBOLS"
  by (cases n) (auto simp: decorator_candidates_def)

lemma decorators_ok:
  "e \<in> set (detect_decorators rc sc decorators) \<Longrightarrow> emission_ok (rc_path rc) e"
  unfolding detect_decorators_def Let_def
  by (auto split: if_splits option.splits intro!: node_finding_ok rule_apis
      dest!: first_validator_in [OF sym] dest: decorator_candidates_sub [THEN subsetD])

lemma model_constructs_ok:
  "e \<in> set (detect_model_constructs rc c body) \<Longrightarrow> emission_ok (rc_path rc) e"
proof (induction body)
  case Nil
  then show ?case by (simp add: detect_model_constructs_def)
next
  case (Cons s body)
  have root: "emission_ok (rc_path rc) x" if "x \<in> set (detect_root_fields rc c s)" for x
    using that by (auto simp: detect_root_fields_def intro!: node_finding_ok rule_apis)
  have keys: "emission_ok (rc_path rc) x" if "x \<in> set (detect_config_keys rc c b)" for x b
    using that by (auto simp: detect_config_keys_def intro!: node_finding_ok rule_apis)
  from Cons show ?case
    by (cases s) (auto simp: detect_model_constructs_def root intro!: node_finding_ok rule_apis
        dest: keys root split: if_splits)
qed

lemma field_keywords_ok:
  "e \<in> set (field_keyword_findings rc ip ks) \<Longrightarrow> emission_ok (rc_path rc) e"
proof (induction rc ip ks rule: field_keyword_findings.induct)
  case (2 rc ip p arg v ks)
  have "emission_ok (rc_path rc) (bindE (evidence_facts vs) (\<lambda>facts.
      node_finding PYDANTIC_V1_FIELD (rc_path rc) n arg FIELD_KEYWORD (g facts)))"
    if "field_keyword_kind arg = Some kind" for vs n g kind
    using that
    by (cases "evidence_facts vs")
      (auto simp: node_finding_ok rule_apis finding_error_def dest: evidence_facts_Inl)
  with 2 show ?case
    by (cases "field_keyword_kind arg") auto
qed simp_all

lemma resolve_receiver_Inl: "resolve_receiver rc sc n = Inl e \<Longrightarrow> finding_error e"
  unfolding resolve_receiver_def finding_error_def
  by (auto split: prod.splits option.splits bool.splits simp: bindE_eq_Inl
      dest: evidence_facts_Inl)

lemma base_model_call_ok:
  assumes "e \<in> set (detect_base_model_call rc sc f)"
  shows "emission_ok (rc_path rc) e"
proof (cases "\<exists>p v attr ctx. f = Attribute p v attr ctx")
  case True
  then obtain p v attr ctx where f: "f = Attribute p v attr ctx" by blast
  have "detect_base_model_call rc sc f =
      (if attr \<notin> set BASE_MODEL_METHODS \<union> set DATA_LOADING_METHODS then []
       else (case resolve_receiver rc sc v of
           Inl e \<Rightarrow> [Inl e]
         | Inr None \<Rightarrow> []
         | Inr (Some values) \<Rightarrow>
             [if attr \<in> set DATA_LOADING_METHODS
              then node_finding PYDANTIC_V1_DATA_LOADING (rc_path rc) f attr
                     DATA_LOADING_CALL values
              else node_finding PYDANTIC_V1_BASE_MODEL_METHOD (rc_path rc) f attr
                     BASE_MODEL_METHOD_CALL values]))"
    unfolding f detect_base_model_call_def node.case ..
  with assms show ?thesis
    by (auto intro!: node_finding_ok rule_apis split: if_splits sum.splits option.splits
        dest: resolve_receiver_Inl)
next
  case False
  then have "detect_base_model_call rc sc f = []"
    unfolding detect_base_model_call_def by (cases f) simp_all
  with assms show ?thesis by simp
qed

lemma settings_reference_ok:
  assumes "e \<in> set (detect_settings_reference rc sc n attr ctx)"
  shows "emission_ok (rc_path rc) e"
proof (cases "attr = ''BaseSettings'' \<and> ctx = Load")
  case False
  then have "detect_settings_reference rc sc n attr ctx = []"
    unfolding detect_settings_reference_def by (rule if_not_P)
  with assms show ?thesis by simp
next
  case True
  from assms show ?thesis
    unfolding detect_settings_reference_def if_P [OF True]
    by (auto intro!: node_finding_ok rule_apis split: option.splits)
qed

lemma class_constructs_ok:
  "e \<in> set (class_constructs rc sc n name body) \<Longrightarrow> emission_ok (rc_path rc) e"
  by (auto simp: class_constructs_def dest: model_constructs_ok split: option.splits if_splits)

lemma field_detect_ok:
  "e \<in> set (detect_field_keywords rc sc n ks) \<Longrightarrow> emission_ok (rc_path rc) e"
  by (auto simp: detect_field_keywords_def dest: field_keywords_ok split: option.splits)

lemma rule_steps_ok: "Emit e \<in> set (rule_steps rc sc n) \<Longrightarrow> emission_ok (rc_path rc) e"
  by (cases n) (auto simp: rule_steps_def
      dest: decorators_ok generic_bases_ok class_constructs_ok field_detect_ok
        base_model_call_ok settings_reference_ok)

lemma visit_rules_ok: "e \<in> set (visit_rules rc sc n) \<Longrightarrow> emission_ok (rc_path rc) e"
proof (induction rc sc n arbitrary: e rule: visit_rules.induct)
  case (1 rc sc n)
  from "1.prems" have "Emit e \<in> set (rule_steps rc sc n)
      \<or> (\<exists>sc' m. Visit sc' m \<in> set (rule_steps rc sc n) \<and> e \<in> set (visit_rules rc sc' m))"
    by (subst (asm) visit_rules.simps) (auto split: step.splits, metis step.exhaust)
  then show ?case
    using "1.IH" rule_steps_ok by blast
qed

lemma file_findings_ok: "e \<in> set (file_findings reg p) \<Longrightarrow> emission_ok (pp_path p) e"
  using visit_rules_ok [of e "fst (file_context reg p)" "[]" "pp_tree p"]
  by (auto simp: file_findings_def file_context_def Let_def
      dest: settings_import_ok generic_import_ok)

text \<open>The calls of the visitor below a node, each with the scope it runs in.\<close>

inductive walked :: "rule_context \<Rightarrow> scopes \<Rightarrow> node \<Rightarrow> scopes \<Rightarrow> node \<Rightarrow> bool" for rc where
  walked_here: "walked rc sc n sc n"
| walked_below: "Visit sc' m \<in> set (rule_steps rc sc n) \<Longrightarrow> walked rc sc' m sc'' k
    \<Longrightarrow> walked rc sc n sc'' k"

lemma walked_emits:
  assumes "walked rc sc n sc' k" and "Emit e \<in> set (rule_steps rc sc' k)"
  shows "e \<in> set (visit_rules rc sc n)"
  using assms
proof (induction rule: walked.induct)
  case (walked_here sc n)
  then show ?case by (subst visit_rules.simps) force
next
  case (walked_below sc' m sc n sc'' k)
  then have "e \<in> set (visit_rules rc sc' m)" by blast
  with walked_below.hyps(1) show ?case by (subst visit_rules.simps) force
qed

lemma rule_scan_Inr:
  "rule_scan ast_digest r = Inr fs \<longleftrightarrow>
     validate_scan_result ast_digest r = Inr ()
     \<and> (\<exists>emitted. concat (map (file_findings (asr_registry r)) (asr_parsed r)) = map Inr emitted
          \<and> fs = sort_key finding_sort_key emitted \<and> distinct emitted)"
proof -
  have "traverseE id es = Inr xs \<longleftrightarrow> es = map Inr xs" for es :: "(rule_exn + finding) list" and xs
    by (induction es arbitrary: xs) auto
  then show ?thesis
    by (auto simp: rule_scan_def make_rule_scan_result_Inr)
qed

end
