(* ===== verification/ImportGraph.thy ===== *)
theory ImportGraph
  imports ScannerModels RuleModels
begin

text \<open>
  \<open>app/scanner/import_graph.py\<close>: the local import graph built from the scanner's registry,
  and the files one import away from a file with findings.

  \<open>GraphErr\<close> is the \<open>ImportGraphError\<close> of the code, \<open>GraphValidationErr\<close> a pydantic
  \<open>ValidationError\<close> (or the \<open>ValueError\<close> of \<open>_validate_relative_python_path\<close>) that the code
  does not convert.
\<close>

datatype graph_error_type = INVALID_REGISTRY | INVALID_RULE_RESULT

datatype graph_exn = GraphErr graph_error_type | GraphValidationErr

section \<open>Records and their checks\<close>

record local_import_edge =
  ed_importer_module :: string
  ed_importer_path :: string
  ed_imported_module :: string
  ed_imported_path :: string

record local_import_graph =
  gr_modules :: "module_record list"
  gr_edges :: "local_import_edge list"

record direct_affected_file =
  df_path :: string
  df_module :: string
  df_finding_count :: nat
  df_rule_ids :: "rule_id list"

record one_hop_importer =
  oh_direct_path :: string
  oh_direct_module :: string
  oh_importer_path :: string
  oh_importer_module :: string

record one_hop_impact =
  im_findings :: "finding list"
  im_direct_files :: "direct_affected_file list"
  im_importers :: "one_hop_importer list"

definition short_path :: "string \<Rightarrow> bool" where
  "short_path p \<longleftrightarrow> 1 \<le> length p \<and> length p \<le> 1024 \<and> valid_python_path p"

definition valid_edge :: "local_import_edge \<Rightarrow> bool" where
  "valid_edge e \<longleftrightarrow>
     ed_importer_module e \<noteq> [] \<and> ed_imported_module e \<noteq> []
     \<and> short_path (ed_importer_path e) \<and> short_path (ed_imported_path e)"

definition make_edge :: "local_import_edge \<Rightarrow> graph_exn + local_import_edge" where
  "make_edge e = (if valid_edge e then Inr e else Inl GraphValidationErr)"

definition edge_key :: "local_import_edge \<Rightarrow> string \<times> string \<times> string \<times> string" where
  "edge_key e =
     (ed_importer_path e, ed_imported_path e, ed_importer_module e, ed_imported_module e)"

text \<open>A dict comprehension over the modules: a later module replaces an earlier one.\<close>

definition modules_by :: "(module_record \<Rightarrow> string) \<Rightarrow> module_record list \<Rightarrow> string \<rightharpoonup> module_record"
where
  "modules_by key modules = map_of (rev (map (\<lambda>m. (key m, m)) modules))"

definition valid_graph :: "local_import_graph \<Rightarrow> bool" where
  "valid_graph g \<longleftrightarrow>
     (let module_paths = map mod_path (gr_modules g);
          by_path = modules_by mod_path (gr_modules g)
      in sort module_paths = module_paths \<and> distinct module_paths
         \<and> distinct (map mod_name (gr_modules g))
         \<and> list_all valid_python_path module_paths
         \<and> sort_key edge_key (gr_edges g) = gr_edges g \<and> distinct (gr_edges g)
         \<and> list_all (\<lambda>e.
              case (by_path (ed_importer_path e), by_path (ed_imported_path e)) of
                (Some importer, Some imported) \<Rightarrow>
                  mod_name importer = ed_importer_module e
                  \<and> mod_name imported = ed_imported_module e
              | _ \<Rightarrow> False) (gr_edges g))"

definition make_graph :: "local_import_graph \<Rightarrow> graph_exn + local_import_graph" where
  "make_graph g = (if valid_graph g then Inr g else Inl GraphValidationErr)"

definition get_importers ::
  "local_import_graph \<Rightarrow> string \<Rightarrow> graph_exn + local_import_edge list" where
  "get_importers g imported_path =
     (if \<not> valid_python_path imported_path then Inl GraphValidationErr
      else Inr (filter (\<lambda>e. ed_imported_path e = imported_path
                          \<and> ed_importer_path e \<noteq> imported_path) (gr_edges g)))"

definition sorted_rule_ids :: "rule_id list \<Rightarrow> rule_id list" where
  "sorted_rule_ids rs = sort_key rule_id_value (remdups rs)"

definition make_direct_file ::
  "direct_affected_file \<Rightarrow> graph_exn + direct_affected_file" where
  "make_direct_file d =
     (if short_path (df_path d) \<and> df_module d \<noteq> [] \<and> 1 \<le> df_finding_count d
         \<and> 1 \<le> length (df_rule_ids d)
         \<and> sort_key rule_id_value (df_rule_ids d) = df_rule_ids d \<and> distinct (df_rule_ids d)
      then Inr d else Inl GraphValidationErr)"

definition make_importer :: "one_hop_importer \<Rightarrow> graph_exn + one_hop_importer" where
  "make_importer i =
     (if short_path (oh_direct_path i) \<and> short_path (oh_importer_path i)
         \<and> oh_direct_module i \<noteq> [] \<and> oh_importer_module i \<noteq> []
         \<and> oh_direct_path i \<noteq> oh_importer_path i
      then Inr i else Inl GraphValidationErr)"

definition importer_key :: "one_hop_importer \<Rightarrow> string \<times> string \<times> string \<times> string" where
  "importer_key i =
     (oh_direct_path i, oh_importer_path i, oh_direct_module i, oh_importer_module i)"

definition findings_of :: "finding list \<Rightarrow> string \<Rightarrow> finding list" where
  "findings_of fs p = filter (\<lambda>f. fd_path f = p) fs"

definition valid_impact :: "one_hop_impact \<Rightarrow> bool" where
  "valid_impact r \<longleftrightarrow>
     (let fs = im_findings r; file_paths = map df_path (im_direct_files r)
      in sort_key finding_sort_key fs = fs \<and> distinct fs
         \<and> sort file_paths = file_paths \<and> distinct file_paths
         \<and> set (map fd_path fs) = set file_paths
         \<and> list_all (\<lambda>d.
              df_finding_count d = length (findings_of fs (df_path d))
              \<and> df_rule_ids d
                  = sorted_rule_ids (map fd_rule_id (findings_of fs (df_path d))))
              (im_direct_files r)
         \<and> sort_key importer_key (im_importers r) = im_importers r
         \<and> distinct (im_importers r)
         \<and> list_all (\<lambda>i. map_of (rev (map (\<lambda>d. (df_path d, df_module d)) (im_direct_files r)))
                             (oh_direct_path i) = Some (oh_direct_module i))
              (im_importers r))"

definition make_impact :: "one_hop_impact \<Rightarrow> graph_exn + one_hop_impact" where
  "make_impact r = (if valid_impact r then Inr r else Inl GraphValidationErr)"

section \<open>Resolving an import\<close>

definition from_import_base :: "module_record \<Rightarrow> import_record \<Rightarrow> string option" where
  "from_import_base importer r =
     (if imp_level r = 0 then imp_module r
      else if mod_is_package importer \<and> mod_path importer = ''__init__.py'' then None
      else
        (let package_parts =
               (if mod_is_package importer then split_on CHR ''.'' (mod_name importer)
                else butlast (split_on CHR ''.'' (mod_name importer)))
         in if imp_level r > length package_parts then None
            else
              (let base_parts = take (length package_parts - imp_level r + 1) package_parts
                     @ (case imp_module r of
                          None \<Rightarrow> [] | Some m \<Rightarrow> split_on CHR ''.'' m)
               in if base_parts = [] then None else Some (join ''.'' base_parts))))"

definition resolve_imported_module ::
  "module_record \<Rightarrow> import_record \<Rightarrow> (string \<rightharpoonup> module_record) \<Rightarrow> module_record option" where
  "resolve_imported_module importer r modules_by_name =
     (if imp_kind r = IMPORT then
        (if imp_level r \<noteq> 0 then None
         else (case imp_module r of None \<Rightarrow> None | Some m \<Rightarrow> modules_by_name m))
      else
        (case (from_import_base importer r, imp_name r) of
           (Some base_name, Some imported_name) \<Rightarrow>
             (case (if imported_name \<noteq> ''*''
                    then modules_by_name (base_name @ ''.'' @ imported_name) else None) of
                Some child \<Rightarrow> Some child
              | None \<Rightarrow>
                  (case modules_by_name base_name of
                     None \<Rightarrow> None
                   | Some base \<Rightarrow>
                       if imported_name = ''*'' \<or> \<not> mod_is_package base
                       then Some base else None))
         | _ \<Rightarrow> None))"

section \<open>Building the graph\<close>

definition validated_registry :: "scanner_registry \<Rightarrow> graph_exn + scanner_registry" where
  "validated_registry r =
     (case make_registry r of Inl _ \<Rightarrow> Inl (GraphErr INVALID_REGISTRY) | Inr r' \<Rightarrow> Inr r')"

definition validated_graph :: "local_import_graph \<Rightarrow> graph_exn + local_import_graph" where
  "validated_graph g =
     (case make_graph g of Inl _ \<Rightarrow> Inl (GraphErr INVALID_REGISTRY) | Inr g' \<Rightarrow> Inr g')"

definition validated_rule_result :: "finding list \<Rightarrow> graph_exn + finding list" where
  "validated_rule_result fs =
     (case make_rule_scan_result fs of
        Inl _ \<Rightarrow> Inl (GraphErr INVALID_RULE_RESULT) | Inr fs' \<Rightarrow> Inr fs')"

text \<open>The loop over \<open>checked.imports\<close>; an import of an unknown path would be a \<open>KeyError\<close>.\<close>

fun import_edges ::
  "(string \<rightharpoonup> module_record) \<Rightarrow> (string \<rightharpoonup> module_record) \<Rightarrow> import_record list
     \<Rightarrow> graph_exn + local_import_edge list" where
  "import_edges by_name by_path [] = Inr []"
| "import_edges by_name by_path (r # rs) =
     (case by_path (loc_path (imp_location r)) of
        None \<Rightarrow> Inl GraphValidationErr
      | Some importer \<Rightarrow>
          (case resolve_imported_module importer r by_name of
             None \<Rightarrow> import_edges by_name by_path rs
           | Some imported \<Rightarrow>
               bindE (make_edge
                 \<lparr>ed_importer_module = mod_name importer, ed_importer_path = mod_path importer,
                  ed_imported_module = mod_name imported, ed_imported_path = mod_path imported\<rparr>)
               (\<lambda>edge. bindE (import_edges by_name by_path rs) (\<lambda>edges. Inr (edge # edges)))))"

definition build_graph :: "scanner_registry \<Rightarrow> graph_exn + local_import_graph" where
  "build_graph registry =
     bindE (validated_registry registry) (\<lambda>checked.
     bindE (import_edges (modules_by mod_name (reg_modules checked))
              (modules_by mod_path (reg_modules checked)) (reg_imports checked)) (\<lambda>edges.
       make_graph \<lparr>gr_modules = reg_modules checked,
                   gr_edges = sort_key edge_key (remdups edges)\<rparr>))"

section \<open>One hop\<close>

definition direct_file_of ::
  "(string \<rightharpoonup> module_record) \<Rightarrow> finding list \<Rightarrow> string \<Rightarrow> graph_exn + direct_affected_file" where
  "direct_file_of by_path fs p =
     (case by_path p of
        None \<Rightarrow> Inl (GraphErr INVALID_RULE_RESULT)
      | Some m \<Rightarrow> make_direct_file
          \<lparr>df_path = p, df_module = mod_name m,
           df_finding_count = length (findings_of fs p),
           df_rule_ids = sorted_rule_ids (map fd_rule_id (findings_of fs p))\<rparr>)"

definition importers_of ::
  "(string \<rightharpoonup> module_record) \<Rightarrow> local_import_graph \<Rightarrow> string
     \<Rightarrow> graph_exn + one_hop_importer list" where
  "importers_of by_path g p =
     (case by_path p of
        None \<Rightarrow> Inl (GraphErr INVALID_RULE_RESULT)
      | Some m \<Rightarrow>
          bindE (get_importers g p) (\<lambda>edges.
            traverseE (\<lambda>e. make_importer
              \<lparr>oh_direct_path = p, oh_direct_module = mod_name m,
               oh_importer_path = ed_importer_path e,
               oh_importer_module = ed_importer_module e\<rparr>) edges))"

definition analyze_impact ::
  "local_import_graph \<Rightarrow> finding list \<Rightarrow> graph_exn + one_hop_impact" where
  "analyze_impact graph rule_result =
     bindE (validated_graph graph) (\<lambda>g.
     bindE (validated_rule_result rule_result) (\<lambda>fs.
       (let by_path = modules_by mod_path (gr_modules g);
            paths = sort (remdups (map fd_path fs))
        in if \<exists>f \<in> set fs. by_path (fd_path f) = None
           then Inl (GraphErr INVALID_RULE_RESULT)
           else
             bindE (traverseE (\<lambda>p.
               bindE (direct_file_of by_path fs p) (\<lambda>d.
               bindE (importers_of by_path g p) (\<lambda>is. Inr (d, is)))) paths)
             (\<lambda>rows. make_impact
                \<lparr>im_findings = fs, im_direct_files = map fst rows,
                 im_importers = sort_key importer_key (concat (map snd rows))\<rparr>))))"

section \<open>Lemmas: the graph\<close>

lemma modules_by_Some:
  assumes "distinct (map key ms)"
  shows "modules_by key ms k = Some m \<longleftrightarrow> m \<in> set ms \<and> key m = k"
proof -
  have "distinct (map fst (rev (map (\<lambda>m. (key m, m)) ms)))"
    using assms by (simp add: rev_map [symmetric] comp_def)
  then show ?thesis
    unfolding modules_by_def by (auto simp: map_of_eq_Some_iff)
qed

text \<open>Which edge an import record of the registry stands for.\<close>

definition import_edge ::
  "module_record list \<Rightarrow> import_record \<Rightarrow> local_import_edge option" where
  "import_edge ms r =
     (case modules_by mod_path ms (loc_path (imp_location r)) of
        None \<Rightarrow> None
      | Some importer \<Rightarrow>
          (case resolve_imported_module importer r (modules_by mod_name ms) of
             None \<Rightarrow> None
           | Some imported \<Rightarrow> Some
               \<lparr>ed_importer_module = mod_name importer, ed_importer_path = mod_path importer,
                ed_imported_module = mod_name imported, ed_imported_path = mod_path imported\<rparr>))"

definition good_modules :: "module_record list \<Rightarrow> bool" where
  "good_modules ms \<longleftrightarrow> (\<forall>m \<in> set ms. mod_name m \<noteq> [] \<and> short_path (mod_path m))"

lemma resolve_in_modules:
  assumes "distinct (map mod_name ms)"
    and "resolve_imported_module importer r (modules_by mod_name ms) = Some m"
  shows "m \<in> set ms"
  using assms(2) modules_by_Some [OF assms(1)]
  by (auto simp: resolve_imported_module_def split: if_splits option.splits)

lemma import_edge_modules:
  assumes "distinct (map mod_path ms)" "distinct (map mod_name ms)"
    and "import_edge ms r = Some e"
  shows "\<exists>importer \<in> set ms. \<exists>imported \<in> set ms.
     mod_path importer = loc_path (imp_location r)
     \<and> resolve_imported_module importer r (modules_by mod_name ms) = Some imported
     \<and> e = \<lparr>ed_importer_module = mod_name importer, ed_importer_path = mod_path importer,
           ed_imported_module = mod_name imported, ed_imported_path = mod_path imported\<rparr>"
  using assms(3) modules_by_Some [OF assms(1)] resolve_in_modules [OF assms(2)]
  by (auto simp: import_edge_def split: option.splits)

lemma import_edges_Inr:
  assumes "distinct (map mod_path ms)" "distinct (map mod_name ms)" "good_modules ms"
    and "\<forall>r \<in> set rs. loc_path (imp_location r) \<in> set (map mod_path ms)"
  shows "import_edges (modules_by mod_name ms) (modules_by mod_path ms) rs
     = Inr (List.map_filter (import_edge ms) rs)"
  using assms(4)
proof (induction rs)
  case (Cons r rs)
  then obtain importer where importer: "importer \<in> set ms"
    "mod_path importer = loc_path (imp_location r)"
    by auto
  then have by_path: "modules_by mod_path ms (loc_path (imp_location r)) = Some importer"
    using modules_by_Some [OF assms(1)] by simp
  show ?case
  proof (cases "resolve_imported_module importer r (modules_by mod_name ms)")
    case None
    with by_path Cons show ?thesis
      by (simp add: map_filter_simps import_edge_def)
  next
    case (Some imported)
    then have "imported \<in> set ms"
      by (rule resolve_in_modules [OF assms(2)])
    with importer assms(3) have "valid_edge
        \<lparr>ed_importer_module = mod_name importer, ed_importer_path = mod_path importer,
         ed_imported_module = mod_name imported, ed_imported_path = mod_path imported\<rparr>"
      by (auto simp: valid_edge_def good_modules_def)
    with by_path Some Cons show ?thesis
      by (simp add: map_filter_simps import_edge_def make_edge_def)
  qed
qed (simp add: map_filter_simps)

lemma registry_facts:
  assumes "make_registry r = Inr r"
  shows "sorted (map mod_path (reg_modules r))"
    and "distinct (map mod_name (reg_modules r))"
    and "\<forall>i \<in> set (reg_imports r). loc_path (imp_location i) \<in> set (map mod_path (reg_modules r))"
proof -
  from assms have eq: "sort (map file_path (reg_files r)) = map file_path (reg_files r)"
    "map mod_path (reg_modules r) = map file_path (reg_files r)"
    "distinct (map mod_name (reg_modules r))"
    "\<forall>p \<in> set (map (loc_path \<circ> imp_location) (reg_imports r)). p \<in> set (map file_path (reg_files r))"
    by (auto simp: make_registry_def Let_def split: if_splits)
  from eq(1) have "sorted (map file_path (reg_files r))"
    by (metis sorted_sort)
  with eq show "sorted (map mod_path (reg_modules r))"
    "distinct (map mod_name (reg_modules r))"
    "\<forall>i \<in> set (reg_imports r). loc_path (imp_location i) \<in> set (map mod_path (reg_modules r))"
    by simp_all
qed

lemma edge_key_inj: "edge_key a = edge_key b \<Longrightarrow> a = b"
  by (cases a; cases b) (simp add: edge_key_def)

interpretation edges: canonical_order edge_key "\<lambda>_. True"
  by unfold_locales (rule edge_key_inj)

lemma built_graph_valid:
  assumes "sorted (map mod_path ms)" "distinct (map mod_path ms)" "distinct (map mod_name ms)"
    and "good_modules ms" and "\<forall>e \<in> set es. \<exists>r. import_edge ms r = Some e"
  shows "valid_graph \<lparr>gr_modules = ms, gr_edges = sort_key edge_key (remdups es)\<rparr>"
proof -
  have "case (modules_by mod_path ms (ed_importer_path e), modules_by mod_path ms (ed_imported_path e)) of
          (Some importer, Some imported) \<Rightarrow>
            mod_name importer = ed_importer_module e \<and> mod_name imported = ed_imported_module e
        | _ \<Rightarrow> False" if "e \<in> set es" for e
  proof -
    from that assms(5) obtain r where "import_edge ms r = Some e" by blast
    from import_edge_modules [OF assms(2,3) this] obtain importer imported where
      in_ms: "importer \<in> set ms" "imported \<in> set ms"
      and e: "e = \<lparr>ed_importer_module = mod_name importer, ed_importer_path = mod_path importer,
        ed_imported_module = mod_name imported, ed_imported_path = mod_path imported\<rparr>"
      by blast
    have "modules_by mod_path ms (mod_path m) = Some m" if "m \<in> set ms" for m
      using that modules_by_Some [OF assms(2)] by simp
    with in_ms show ?thesis
      by (simp add: e)
  qed
  then have edges: "list_all (\<lambda>e. case (modules_by mod_path ms (ed_importer_path e),
          modules_by mod_path ms (ed_imported_path e)) of
        (Some importer, Some imported) \<Rightarrow>
          mod_name importer = ed_importer_module e \<and> mod_name imported = ed_imported_module e
      | _ \<Rightarrow> False) (sort_key edge_key (remdups es))"
    by (simp add: list_all_iff)
  have "sort (map mod_path ms) = map mod_path ms"
    using sorted_by_iff [of "\<lambda>x. x" "map mod_path ms"] assms(1) by simp
  moreover have "list_all valid_python_path (map mod_path ms)"
    using assms(4) by (auto simp: good_modules_def short_path_def list_all_iff)
  moreover have "sort_key edge_key (sort_key edge_key (remdups es)) = sort_key edge_key (remdups es)"
    by simp
  ultimately show ?thesis
    using assms(2,3) edges unfolding valid_graph_def Let_def local_import_graph.simps
    by (intro conjI) simp_all
qed

lemma build_graph_Inr:
  assumes "make_registry reg = Inr reg" and "good_modules (reg_modules reg)"
    and "distinct (map mod_path (reg_modules reg))"
  shows "build_graph reg = Inr \<lparr>gr_modules = reg_modules reg,
     gr_edges = sort_key edge_key (remdups (List.map_filter (import_edge (reg_modules reg))
                  (reg_imports reg)))\<rparr>"
proof -
  note reg = registry_facts [OF assms(1)]
  have "\<forall>e \<in> set (List.map_filter (import_edge (reg_modules reg)) (reg_imports reg)).
      \<exists>r. import_edge (reg_modules reg) r = Some e"
    by (auto simp: map_filter_def)
  from built_graph_valid [OF reg(1) assms(3) reg(2) assms(2) this] show ?thesis
    using import_edges_Inr [OF assms(3) reg(2) assms(2) reg(3)] assms(1)
    by (simp add: build_graph_def validated_registry_def make_graph_def)
qed

section \<open>Lemmas: one hop\<close>

text \<open>
  What the analyzer relies on: for a file, the edges into it from other files, in the order
  of the importing file, one per importing file.
\<close>

locale importer_lookup =
  fixes importers :: "string \<Rightarrow> local_import_edge list"
  assumes into: "e \<in> set (importers p) \<Longrightarrow> ed_imported_path e = p"
    and no_self: "e \<in> set (importers p) \<Longrightarrow> ed_importer_path e \<noteq> p"
    and strict: "sorted_wrt (<) (map ed_importer_path (importers p))"
begin

definition hops :: "(string \<Rightarrow> string) \<Rightarrow> string list \<Rightarrow> one_hop_importer list" where
  "hops modul paths = concat (map (\<lambda>p. map (\<lambda>e.
     \<lparr>oh_direct_path = p, oh_direct_module = modul p, oh_importer_path = ed_importer_path e,
      oh_importer_module = ed_importer_module e\<rparr>) (importers p)) paths)"

lemma hops_keys:
  "sorted_wrt (<) paths \<Longrightarrow> sorted_wrt (<) (map importer_key (hops modul paths))"
proof (induction paths)
  case Nil
  then show ?case by (simp add: hops_def)
next
  case (Cons p ps)
  let ?row = "\<lambda>p. map (\<lambda>e. \<lparr>oh_direct_path = p, oh_direct_module = modul p,
     oh_importer_path = ed_importer_path e, oh_importer_module = ed_importer_module e\<rparr>)
     (importers p)"
  have "sorted_wrt (<) (map importer_key (?row p))"
    using strict [of p] unfolding map_map
    by (auto simp: sorted_wrt_map importer_key_def intro: sorted_wrt_mono_rel [rotated])
  moreover have "sorted_wrt (<) (map importer_key (hops modul ps))"
    using Cons by simp
  moreover have "importer_key x < importer_key y"
    if "x \<in> set (?row p)" "y \<in> set (hops modul ps)" for x y
    using that Cons.prems by (auto simp: hops_def importer_key_def)
  ultimately show ?case
    by (auto simp: hops_def sorted_wrt_append)
qed

lemma hops_no_self: "h \<in> set (hops modul paths) \<Longrightarrow> oh_direct_path h \<noteq> oh_importer_path h"
  unfolding hops_def by (clarsimp, drule no_self, simp)

end

lemma valid_graph_facts:
  assumes "valid_graph g"
  shows "sorted (map mod_path (gr_modules g))" "distinct (map mod_path (gr_modules g))"
    "distinct (map mod_name (gr_modules g))"
    "\<forall>m \<in> set (gr_modules g). valid_python_path (mod_path m)"
    "sorted (map edge_key (gr_edges g))" "distinct (gr_edges g)"
proof -
  from assms have "sort (map mod_path (gr_modules g)) = map mod_path (gr_modules g)"
    "sort_key edge_key (gr_edges g) = gr_edges g"
    "list_all valid_python_path (map mod_path (gr_modules g))"
    unfolding valid_graph_def Let_def by blast+
  then show "sorted (map mod_path (gr_modules g))" "sorted (map edge_key (gr_edges g))"
    "\<forall>m \<in> set (gr_modules g). valid_python_path (mod_path m)"
    using sorted_by_iff [of "\<lambda>x. x" "map mod_path (gr_modules g)"]
    by (auto simp: sorted_by_iff list_all_iff)
  from assms show "distinct (map mod_path (gr_modules g))"
    "distinct (map mod_name (gr_modules g))" "distinct (gr_edges g)"
    unfolding valid_graph_def Let_def by blast+
qed

lemma valid_graph_edge:
  assumes "valid_graph g" and "e \<in> set (gr_edges g)"
  shows "\<exists>a \<in> set (gr_modules g). \<exists>b \<in> set (gr_modules g).
     e = \<lparr>ed_importer_module = mod_name a, ed_importer_path = mod_path a,
          ed_imported_module = mod_name b, ed_imported_path = mod_path b\<rparr>"
proof -
  note facts = valid_graph_facts [OF assms(1)]
  let ?by = "modules_by mod_path (gr_modules g)"
  from assms have "case (?by (ed_importer_path e), ?by (ed_imported_path e)) of
      (Some a, Some b) \<Rightarrow> mod_name a = ed_importer_module e \<and> mod_name b = ed_imported_module e
    | _ \<Rightarrow> False"
    unfolding valid_graph_def Let_def list_all_iff by blast
  then obtain a b where ab: "?by (ed_importer_path e) = Some a" "?by (ed_imported_path e) = Some b"
    "mod_name a = ed_importer_module e" "mod_name b = ed_imported_module e"
    by (auto split: option.splits)
  then have "a \<in> set (gr_modules g)" "b \<in> set (gr_modules g)"
    "mod_path a = ed_importer_path e" "mod_path b = ed_imported_path e"
    by (simp_all add: modules_by_Some [OF facts(2)])
  with ab(3,4) show ?thesis
    by (cases e) auto
qed

text \<open>On a valid graph the edges into a file are determined by the importing file.\<close>

definition into_file :: "local_import_graph \<Rightarrow> string \<Rightarrow> local_import_edge list" where
  "into_file g p =
     filter (\<lambda>e. ed_imported_path e = p \<and> ed_importer_path e \<noteq> p) (gr_edges g)"

lemma sorted_wrt_filter_into:
  assumes g: "valid_graph g"
  shows "sorted_wrt (<) (map ed_importer_path (into_file g p))"
proof -
  note facts = valid_graph_facts [OF g]
  have "sorted_wrt (<) (map edge_key (gr_edges g))"
    using edges.strict_sorted [OF facts(5,6)] by simp
  then have strict: "sorted_wrt (\<lambda>a b. edge_key a < edge_key b) (into_file g p)"
    unfolding into_file_def by (intro sorted_wrt_filter) (simp add: sorted_wrt_map)
  have same: "a = b" if "a \<in> set (into_file g p)" "b \<in> set (into_file g p)"
    "ed_importer_path a = ed_importer_path b" for a b
  proof -
    have inj: "m = m'" if "m \<in> set (gr_modules g)" "m' \<in> set (gr_modules g)"
      "mod_path m = mod_path m'" for m m'
      using that facts(2) unfolding distinct_map inj_on_def by blast
    from that(1,2) have ab: "a \<in> set (gr_edges g)" "b \<in> set (gr_edges g)"
      "ed_imported_path a = ed_imported_path b"
      by (simp_all add: into_file_def)
    obtain m n m' n' where "m \<in> set (gr_modules g)" "n \<in> set (gr_modules g)"
      "m' \<in> set (gr_modules g)" "n' \<in> set (gr_modules g)"
      "a = \<lparr>ed_importer_module = mod_name m, ed_importer_path = mod_path m,
            ed_imported_module = mod_name n, ed_imported_path = mod_path n\<rparr>"
      "b = \<lparr>ed_importer_module = mod_name m', ed_importer_path = mod_path m',
            ed_imported_module = mod_name n', ed_imported_path = mod_path n'\<rparr>"
      using valid_graph_edge [OF g ab(1)] valid_graph_edge [OF g ab(2)] by blast
    moreover from this have "m = m'" "n = n'"
      using inj that(3) ab(3) by simp_all
    ultimately show ?thesis by simp
  qed
  have "ed_importer_path a < ed_importer_path b"
    if "a \<in> set (into_file g p)" "b \<in> set (into_file g p)" "edge_key a < edge_key b" for a b
  proof -
    from that(3) have "ed_importer_path a \<le> ed_importer_path b"
      unfolding edge_key_def less_prod_simp by (elim disjE conjE) simp_all
    moreover have "ed_importer_path a \<noteq> ed_importer_path b"
      using same [OF that(1,2)] that(3) by auto
    ultimately show ?thesis by simp
  qed
  with strict show ?thesis
    unfolding sorted_wrt_map by (rule sorted_wrt_mono_rel [rotated])
qed

definition graph_importers ::
  "local_import_graph \<Rightarrow> string \<Rightarrow> local_import_edge list" where
  "graph_importers g p = (if valid_graph g then into_file g p else [])"

interpretation graph: importer_lookup "graph_importers g" for g
  by unfold_locales
    (auto simp: graph_importers_def sorted_wrt_filter_into, auto simp: into_file_def)

text \<open>The module name of a file and the row of a directly affected one.\<close>

definition module_at :: "local_import_graph \<Rightarrow> string \<Rightarrow> string" where
  "module_at g p =
     (case modules_by mod_path (gr_modules g) p of None \<Rightarrow> [] | Some m \<Rightarrow> mod_name m)"

definition direct_row :: "local_import_graph \<Rightarrow> finding list \<Rightarrow> string \<Rightarrow> direct_affected_file" where
  "direct_row g fs p =
     \<lparr>df_path = p, df_module = module_at g p, df_finding_count = length (findings_of fs p),
      df_rule_ids = sorted_rule_ids (map fd_rule_id (findings_of fs p))\<rparr>"

lemma findings_of_nonempty: "p \<in> set (map fd_path fs) \<Longrightarrow> findings_of fs p \<noteq> []"
  by (auto simp: findings_of_def filter_empty_conv)

lemma sorted_rule_ids_props:
  "sort_key rule_id_value (sorted_rule_ids rs) = sorted_rule_ids rs"
  "distinct (sorted_rule_ids rs)" "set (sorted_rule_ids rs) = set rs"
  "rs \<noteq> [] \<Longrightarrow> sorted_rule_ids rs \<noteq> []"
proof -
  show set: "set (sorted_rule_ids rs) = set rs"
    by (simp add: sorted_rule_ids_def)
  show "rs \<noteq> [] \<Longrightarrow> sorted_rule_ids rs \<noteq> []"
    using set by (metis set_empty)
qed (simp_all add: sorted_rule_ids_def)

lemma direct_file_of_Inr:
  assumes by_path: "modules_by mod_path (gr_modules g) p = Some m"
    and m: "mod_name m \<noteq> []" "short_path p"
    and p: "p \<in> set (map fd_path fs)"
  shows "direct_file_of (modules_by mod_path (gr_modules g)) fs p = Inr (direct_row g fs p)"
proof -
  have "findings_of fs p \<noteq> []"
    using p by (rule findings_of_nonempty)
  moreover from this have "sorted_rule_ids (map fd_rule_id (findings_of fs p)) \<noteq> []"
    by (intro sorted_rule_ids_props(4)) simp
  ultimately show ?thesis
    using by_path m
    by (simp add: direct_file_of_def make_direct_file_def direct_row_def module_at_def
        sorted_rule_ids_props Suc_le_eq)
qed

lemma importers_of_Inr:
  assumes g: "valid_graph g" and good: "good_modules (gr_modules g)"
    and by_path: "modules_by mod_path (gr_modules g) p = Some m"
  shows "importers_of (modules_by mod_path (gr_modules g)) g p
     = Inr (graph.hops g (module_at g) [p])"
proof -
  have "m \<in> set (gr_modules g)" "mod_path m = p"
    using by_path modules_by_Some [OF valid_graph_facts(2) [OF g]] by simp_all
  with good have p: "short_path p" "valid_python_path p" "mod_name m \<noteq> []"
    by (auto simp: good_modules_def short_path_def)
  have edge: "ed_importer_path e \<noteq> p" "short_path (ed_importer_path e)"
    "ed_importer_module e \<noteq> []" if "e \<in> set (into_file g p)" for e
    using that valid_graph_edge [OF g, of e] good
    by (auto simp: into_file_def good_modules_def)
  have "make_importer \<lparr>oh_direct_path = p, oh_direct_module = mod_name m,
      oh_importer_path = ed_importer_path e, oh_importer_module = ed_importer_module e\<rparr>
    = Inr \<lparr>oh_direct_path = p, oh_direct_module = mod_name m,
      oh_importer_path = ed_importer_path e, oh_importer_module = ed_importer_module e\<rparr>"
    if "e \<in> set (into_file g p)" for e
    using edge [OF that] p by (auto simp: make_importer_def)
  then show ?thesis
    using p by_path g
    by (simp add: importers_of_def get_importers_def into_file_def [symmetric] traverseE_total
        graph.hops_def graph_importers_def module_at_def)
qed

lemma hops_concat:
  "concat (map (\<lambda>p. graph.hops g modul [p]) paths) = graph.hops g modul paths"
  by (simp add: graph.hops_def)

definition finding_paths :: "finding list \<Rightarrow> string list" where
  "finding_paths fs = sort (remdups (map fd_path fs))"

lemma finding_paths_props:
  "set (finding_paths fs) = fd_path ` set fs" "sorted_wrt (<) (finding_paths fs)"
  "distinct (finding_paths fs)" "sort (finding_paths fs) = finding_paths fs"
  by (simp_all add: finding_paths_def strict_sorted_iff)

definition impact_of :: "local_import_graph \<Rightarrow> finding list \<Rightarrow> one_hop_impact" where
  "impact_of g fs =
     \<lparr>im_findings = fs, im_direct_files = map (direct_row g fs) (finding_paths fs),
      im_importers = graph.hops g (module_at g) (finding_paths fs)\<rparr>"

lemma hops_sorted:
  assumes "sorted_wrt (<) paths"
  shows "sort_key importer_key (graph.hops g modul paths) = graph.hops g modul paths"
    and "distinct (graph.hops g modul paths)"
  using graph.hops_keys [OF assms, of g modul]
  by (simp_all add: sort_key_id strict_sorted_imp_sorted strict_sorted_iff distinct_map)

lemma impact_of_valid:
  assumes "sorted (map finding_sort_key fs)" "distinct fs"
  shows "valid_impact (impact_of g fs)"
proof -
  let ?paths = "finding_paths fs"
  have paths: "map df_path (map (direct_row g fs) ?paths) = ?paths"
    by (simp add: direct_row_def comp_def)
  have "map_of (rev (map (\<lambda>d. (df_path d, df_module d)) (map (direct_row g fs) ?paths))) p
      = Some (module_at g p)" if "p \<in> set ?paths" for p
    using that finding_paths_props(3) [of fs]
    by (intro map_of_is_SomeI) (simp_all add: direct_row_def rev_map [symmetric] comp_def)
  then have modules: "list_all (\<lambda>i. map_of (rev (map (\<lambda>d. (df_path d, df_module d))
        (map (direct_row g fs) ?paths))) (oh_direct_path i) = Some (oh_direct_module i))
      (graph.hops g (module_at g) ?paths)"
    unfolding list_all_iff graph.hops_def by clarsimp
  have rows: "list_all (\<lambda>d. df_finding_count d = length (findings_of fs (df_path d))
        \<and> df_rule_ids d = sorted_rule_ids (map fd_rule_id (findings_of fs (df_path d))))
      (map (direct_row g fs) ?paths)"
    by (simp add: list_all_iff direct_row_def)
  show ?thesis
    unfolding valid_impact_def Let_def impact_of_def one_hop_impact.simps paths
    using assms modules rows hops_sorted [OF finding_paths_props(2)]
    by (intro conjI) (simp_all add: sort_key_id finding_paths_props)
qed

lemma known_module:
  assumes g: "valid_graph g" and good: "good_modules (gr_modules g)"
    and p: "p \<in> set (map mod_path (gr_modules g))"
  shows "\<exists>m. modules_by mod_path (gr_modules g) p = Some m \<and> mod_name m \<noteq> [] \<and> short_path p"
proof -
  from p obtain m where "m \<in> set (gr_modules g)" "mod_path m = p" by auto
  with good modules_by_Some [OF valid_graph_facts(2) [OF g]] show ?thesis
    unfolding good_modules_def by blast
qed

lemma analyze_impact_Inr:
  assumes g: "valid_graph g" and good: "good_modules (gr_modules g)"
    and fs: "sorted (map finding_sort_key fs)" "distinct fs"
    and known: "set (map fd_path fs) \<subseteq> set (map mod_path (gr_modules g))"
  shows "analyze_impact g fs = Inr (impact_of g fs)"
proof -
  let ?by = "modules_by mod_path (gr_modules g)"
  have by_path: "\<exists>m. ?by p = Some m \<and> mod_name m \<noteq> [] \<and> short_path p"
    if "p \<in> fd_path ` set fs" for p
    using that known by (intro known_module [OF g good]) auto
  have row: "bindE (direct_file_of ?by fs p) (\<lambda>d. bindE (importers_of ?by g p) (\<lambda>is. Inr (d, is)))
      = Inr (direct_row g fs p, graph.hops g (module_at g) [p])"
    if "p \<in> set (finding_paths fs)" for p
  proof -
    from that have p: "p \<in> fd_path ` set fs"
      by (simp add: finding_paths_props)
    then obtain m where "?by p = Some m" "mod_name m \<noteq> []" "short_path p"
      using by_path by blast
    with p direct_file_of_Inr [of g p m fs] importers_of_Inr [OF g good, of p m] show ?thesis
      by simp
  qed
  have rows: "traverseE (\<lambda>p. bindE (direct_file_of ?by fs p)
        (\<lambda>d. bindE (importers_of ?by g p) (\<lambda>is. Inr (d, is)))) (finding_paths fs)
      = Inr (map (\<lambda>p. (direct_row g fs p, graph.hops g (module_at g) [p])) (finding_paths fs))"
    using row by (rule traverseE_total)
  have known': "\<not> (\<exists>f \<in> set fs. ?by (fd_path f) = None)"
    using by_path by fastforce
  have checked: "validated_graph g = Inr g" "validated_rule_result fs = Inr fs"
    using g fs make_rule_scan_result_Inr [of fs fs]
    by (simp_all add: validated_graph_def make_graph_def validated_rule_result_def)
  have "make_impact \<lparr>im_findings = fs, im_direct_files = map (direct_row g fs) (finding_paths fs),
      im_importers = sort_key importer_key (graph.hops g (module_at g) (finding_paths fs))\<rparr>
    = Inr (impact_of g fs)"
    using impact_of_valid [OF fs, of g] hops_sorted(1) [OF finding_paths_props(2)]
    by (simp add: make_impact_def impact_of_def)
  then show ?thesis
    using known' rows
    by (simp add: analyze_impact_def checked Let_def finding_paths_def [symmetric] comp_def
        hops_concat)
qed

section \<open>Relative imports against Python's own resolution\<close>

text \<open>
  The reference is \<open>importlib\<close>: \<open>__package__\<close> of the importing module (its own name for a
  package, the part before the last dot otherwise), then one component stripped for every
  leading dot beyond the first, then the module of the statement appended.
\<close>

definition python_package :: "module_record \<Rightarrow> string" where
  "python_package m =
     (if mod_is_package m then mod_name m
      else (case rpartition CHR ''.'' (mod_name m) of (pre, _, _) \<Rightarrow> pre))"

fun strip_levels :: "nat \<Rightarrow> string \<Rightarrow> string option" where
  "strip_levels 0 package = Some package"
| "strip_levels (Suc n) package =
     (case rpartition CHR ''.'' package of
        (pre, found, _) \<Rightarrow> if found then strip_levels n pre else None)"

definition importlib_resolve :: "string \<Rightarrow> nat \<Rightarrow> string option \<Rightarrow> string option" where
  "importlib_resolve package level name =
     (if package = [] then None
      else (case strip_levels (level - 1) package of
          None \<Rightarrow> None
        | Some base \<Rightarrow> Some (case name of
              None \<Rightarrow> base | Some n \<Rightarrow> if n = [] then base else base @ ''.'' @ n)))"

lemma join_append:
  "xs \<noteq> [] \<Longrightarrow> ys \<noteq> [] \<Longrightarrow> join sep (xs @ ys) = join sep xs @ sep @ join sep ys"
proof (induction sep xs rule: join.induct)
  case (2 sep x)
  then show ?case by (cases ys) auto
qed auto

lemma rpartition_snoc:
  assumes "xs \<noteq> []" and "d \<notin> set y"
  shows "rpartition d (join [d] (xs @ [y])) = (join [d] xs, True, y)"
proof -
  have j: "join [d] (xs @ [y]) = join [d] xs @ d # y"
    using assms(1) by (simp add: join_append)
  have "takeWhile (\<lambda>c. c \<noteq> d) (rev y @ d # z) = rev y" for z
    using assms(2) by (subst takeWhile_append2) auto
  then have tail: "takeWhile (\<lambda>c. c \<noteq> d) (rev (join [d] xs @ d # y)) = rev y"
    by simp
  show ?thesis
    unfolding rpartition_def j tail Let_def by simp
qed

lemma rpartition_none: "d \<notin> set y \<Longrightarrow> rpartition d y = ([], False, y)"
  by (simp add: rpartition_def takeWhile_eq_all_conv [THEN iffD2])

definition dotted_parts :: "string list \<Rightarrow> bool" where
  "dotted_parts ps \<longleftrightarrow> (\<forall>p \<in> set ps. p \<noteq> [] \<and> CHR ''.'' \<notin> set p)"

lemma join_nonempty: "ps \<noteq> [] \<Longrightarrow> dotted_parts ps \<Longrightarrow> join ''.'' ps \<noteq> []"
  by (cases ps; cases "tl ps") (auto simp: dotted_parts_def)

lemma strip_levels_join:
  assumes "ps \<noteq> []" and "dotted_parts ps"
  shows "strip_levels n (join ''.'' ps)
     = (if n < length ps then Some (join ''.'' (take (length ps - n) ps)) else None)"
  using assms
proof (induction n arbitrary: ps)
  case (Suc n)
  obtain qs q where ps: "ps = qs @ [q]"
    using Suc.prems(1) by (cases ps rule: rev_cases) auto
  then have q: "CHR ''.'' \<notin> set q" and qs: "dotted_parts qs"
    using Suc.prems(2) by (auto simp: dotted_parts_def)
  show ?case
  proof (cases "qs = []")
    case True
    with ps q show ?thesis by (simp add: rpartition_none)
  next
    case False
    then have "strip_levels (Suc n) (join ''.'' ps) = strip_levels n (join ''.'' qs)"
      using rpartition_snoc [OF False q] ps by simp
    with Suc.IH [OF False qs] ps show ?thesis by simp
  qed
qed simp

text \<open>The components of the package a module lives in.\<close>

definition package_parts :: "module_record \<Rightarrow> string list" where
  "package_parts m =
     (if mod_is_package m then split_on CHR ''.'' (mod_name m)
      else butlast (split_on CHR ''.'' (mod_name m)))"

lemma python_package_parts:
  assumes "mod_name m = join ''.'' ps" "ps \<noteq> []" "dotted_parts ps"
  shows "package_parts m = (if mod_is_package m then ps else butlast ps)"
    and "python_package m = join ''.'' (package_parts m)"
proof -
  have split: "split_on CHR ''.'' (mod_name m) = ps"
    using assms unfolding dotted_parts_def by (auto intro!: split_on_join)
  then show parts: "package_parts m = (if mod_is_package m then ps else butlast ps)"
    by (simp add: package_parts_def)
  obtain qs q where ps: "ps = qs @ [q]"
    using assms(2) by (cases ps rule: rev_cases) auto
  have q: "CHR ''.'' \<notin> set q"
    using assms(3) ps by (auto simp: dotted_parts_def)
  have "rpartition CHR ''.'' (mod_name m) = (join ''.'' qs, qs \<noteq> [], q)"
    using rpartition_snoc [OF _ q, of qs] rpartition_none [OF q] assms(1) ps
    by (cases "qs = []") simp_all
  then show "python_package m = join ''.'' (package_parts m)"
    using assms(1) ps by (simp add: python_package_def parts)
qed

end
