(* ===== verification/ScanProps.thy ===== *)
theory ScanProps
  imports RuleScanner ImportGraph ZipProps
begin

text \<open>
  The properties of the scanner, the rules and the import graph, with small inputs on which
  their hypotheses hold.
\<close>

section \<open>Module names\<close>






section \<open>Classes\<close>

text \<open>C12: one sweep over the classes in source order already reaches the fixed point of the
  inheritance loop: a class can only inherit from an earlier one.\<close>

theorem one_sweep_suffices:
  "resolve_class_inheritance classes direct modules =
     (case sweep classes (map (is_direct_class direct modules) classes)
             (map (\<lambda>c. if is_direct_class direct modules c then DIRECT else NONE) classes) of
        (flags, evidence, changed) \<Rightarrow> (flags, evidence))"
proof -
  let ?f = "map (is_direct_class direct modules) classes"
  let ?e = "map (\<lambda>c. if is_direct_class direct modules c then DIRECT else NONE) classes"
  obtain f e c where s: "sweep classes ?f ?e = (f, e, c)"
    by (cases "sweep classes ?f ?e")
  then have sw: "swept classes direct modules (length classes) f e"
    by (intro swept_fold [OF swept_initial]) (auto simp: sweep_def)
  then have "inherit_loop classes f e = (f, e)"
    using swept_stable [OF sw] by (subst inherit_loop.simps) (simp add: swept_def)
  with s show ?thesis
    by (subst resolve_class_inheritance_def, subst inherit_loop.simps) simp
qed

text \<open>C11: a class record says \<open>BaseModel\<close> subclass exactly for the classes derived from
  pydantic's \<open>BaseModel\<close> inside the file, and its evidence says \<open>direct\<close> exactly for the
  module-level classes that name it as a base.\<close>

theorem base_model_classes_exact:
  assumes "materialize_type_information path modul s = Inr (classes, parameters, assignments)"
    and "pydantic_basemodel_aliases (sym_imports s) (sym_bindings s) = (direct, modules)"
    and "i < length (sym_classes s)"
  shows "length classes = length (sym_classes s)
     \<and> (cls_is_base_model (classes ! i) \<longleftrightarrow> derives (sym_classes s) direct modules i)
     \<and> (cls_evidence (classes ! i) = DIRECT \<longleftrightarrow>
          is_direct_class direct modules (sym_classes s ! i))"
proof -
  obtain flags evidence where inh:
    "resolve_class_inheritance (sym_classes s) direct modules = (flags, evidence)"
    by (cases "resolve_class_inheritance (sym_classes s) direct modules")
  note sw = resolve_class_inheritance_swept [OF inh, unfolded swept_def]
  from assms(1,2) inh have
    "materialize_classes path modul (sym_classes s) flags evidence = Inr classes"
    by (simp add: materialize_type_information_def)
  note m = materialize_classes_Inr [OF this]
  have "map cls_is_base_model classes = flags" "map cls_evidence classes = evidence"
    using sw m(2,3) by blast+
  moreover from this have "length classes = length (sym_classes s)"
    using sw by (metis length_map)
  ultimately have "length classes = length (sym_classes s)"
    "cls_is_base_model (classes ! i) = flags ! i" "cls_evidence (classes ! i) = evidence ! i"
    using assms(3) by (metis nth_map)+
  with sw assms(3) show ?thesis by simp
qed

definition sample_location :: "nat \<Rightarrow> source_location" where
  "sample_location n = \<lparr>loc_path = ''a.py'', loc_line = n, loc_column = 0, loc_end_line = n,
     loc_end_column = 9\<rparr>"

definition sample_import :: import_record where
  "sample_import = \<lparr>imp_kind = FROM, imp_module = Some ''pydantic'',
     imp_name = Some ''BaseModel'', imp_local = ''BM'', imp_alias = Some ''BM'',
     imp_level = 0, imp_index = 0, imp_scope = [], imp_location = sample_location 1\<rparr>"

definition sample_class :: "nat \<Rightarrow> string \<Rightarrow> string \<Rightarrow> raw_class" where
  "sample_class n name base = \<lparr>raw_name = name, raw_qualified = name, raw_scope = [],
     raw_bases = [base], raw_location = sample_location n\<rparr>"

definition sample_symbols :: symbols where
  "sample_symbols = \<lparr>sym_imports = [sample_import],
     sym_classes = [sample_class 2 ''A'' ''BM'', sample_class 3 ''B'' ''A''],
     sym_parameters = [], sym_assignments = [], sym_bindings = [''A'', ''B'']\<rparr>"

lemma sample_aliases:
  "pydantic_basemodel_aliases (sym_imports sample_symbols) (sym_bindings sample_symbols)
     = ([''BM''], [])"
  by code_simp

theorem base_model_classes_exact_witness:
  "\<exists>classes ps as. materialize_type_information ''a.py'' ''a'' sample_symbols
      = Inr (classes, ps, as) \<and> cls_evidence (classes ! 0) = DIRECT"
proof -
  have "\<exists>r. materialize_type_information ''a.py'' ''a'' sample_symbols = Inr r"
  proof (cases "materialize_type_information ''a.py'' ''a'' sample_symbols")
    case (Inl e)
    moreover have "\<not> isl (materialize_type_information ''a.py'' ''a'' sample_symbols)"
      by code_simp
    ultimately show ?thesis by simp
  qed blast
  then obtain classes ps as where
    m: "materialize_type_information ''a.py'' ''a'' sample_symbols = Inr (classes, ps, as)"
    by (metis prod_cases3)
  have "0 < length (sym_classes sample_symbols)"
    by (simp add: sample_symbols_def)
  from base_model_classes_exact [OF m sample_aliases this]
  have "cls_evidence (classes ! 0) = DIRECT
      \<longleftrightarrow> is_direct_class [''BM''] [] (sym_classes sample_symbols ! 0)" by blast
  moreover have "is_direct_class [''BM''] [] (sym_classes sample_symbols ! 0)"
    by code_simp
  ultimately show ?thesis using m by blast
qed

section \<open>The scan\<close>

text \<open>C10: a scan succeeds exactly when the inventory contract holds, the task root resolves to
  itself, the module names are valid and distinct and every file can be read, parsed and
  collected; the registry assembled from the files never fails its own checks.\<close>

theorem scan_decision:
  "ast_scan sha parse ast_digest env v = Inr res \<longleftrightarrow>
     (\<exists>u root ms fs. validate_inventory_contract v = Inr u
        \<and> resolve_task_root env (zr_task_root v) = Inr root
        \<and> build_module_records (zr_python_files v) = Inr ms
        \<and> traverseE (scan_file sha parse ast_digest env root) (zip (zr_python_files v) ms)
            = Inr fs
        \<and> res = \<lparr>asr_registry = assemble_registry ms fs, asr_parsed = map fsc_parsed fs\<rparr>)"
  by (rule ast_scan_Inr)

text \<open>The operating system's answers about a world without links.\<close>

definition world_env :: "(string \<Rightarrow> string) \<Rightarrow> world \<Rightarrow> source_env" where
  "world_env fs w =
     \<lparr>se_lstat = (\<lambda>p. case w (map fs p) of None \<Rightarrow> OsMissing | Some e \<Rightarrow> OsOk e),
      se_resolve = OsOk,
      se_open = (\<lambda>p. case w (map fs p) of
                   Some (Regular bs) \<Rightarrow> OsOk \<lparr>unread = bs, broken = False\<rparr>
                 | _ \<Rightarrow> OsFailed)\<rparr>"

definition inventory_of :: "python_payload \<Rightarrow> python_file" where
  "inventory_of p = \<lparr>pf_relative_path = payload_posix p, pf_size_bytes = length (payload_bytes p),
     pf_line_count = payload_line_count p, pf_sha256 = payload_sha256 p\<rparr>"

lemma extracted_payload:
  assumes "clash_free fs (map payload_path ps)" and "p \<in> set ps"
  shows "extracted fs root ps w (under fs root p) = Some (Regular (payload_bytes p))"
proof -
  have "find (\<lambda>q. under fs root q = under fs root p) ps = Some p"
    using assms
  proof (induction ps)
    case (Cons q qs)
    have "clash_free fs (map payload_path qs)"
      using Cons.prems(1) by (auto simp: clash_free_def)
    moreover have "under fs root q \<noteq> under fs root p" if "p \<in> set qs"
      using Cons.prems(1) that by (auto simp: clash_free_def under_def)
    ultimately show ?case
      using Cons by auto
  qed simp
  then show ?thesis by (simp add: extracted_def)
qed

lemma payload_path_of_posix:
  assumes "python_path (payload_path p)"
  shows "all_path_parts (pure_posix_path (payload_posix p)) = payload_path p"
proof -
  have "pure_posix_path (payload_posix p) = \<lparr>path_root = [], path_parts = payload_path p\<rparr>"
    unfolding payload_posix_def using assms
    by (intro pure_posix_path_join) (auto simp: python_path_def safe_component_def keep_part_def)
  then show ?thesis by (simp add: all_path_parts_def)
qed

lemma read_exact_world:
  "w (map fs target) = Some (Regular bs) \<Longrightarrow>
     read_exact_bounded (world_env fs w) target (length bs) = Inr bs"
  using exact_reader.pull_total [of "\<lparr>unread = bs, broken = False\<rparr>" 0 "length bs" "[]"]
  by (simp add: read_exact_bounded_def world_env_def)

text \<open>C9: reading a file of the inventory from the freshly extracted task root returns exactly
  the validated bytes and their text: none of the scanner's identity checks can fail.\<close>

theorem scan_reads_what_was_extracted:
  assumes va: "validate_archive nf sha open_archive bytes limits = Inr va"
    and ref: "\<forall>a b. fs a = fs b \<longrightarrow> nf a = nf b"
    and p: "p \<in> set (va_payloads va)"
  shows "\<exists>t. utf8_sig_decode (payload_bytes p) = Some t
     \<and> read_validated_source sha (world_env fs (extracted fs root (va_payloads va) w)) root
         (inventory_of p) = Inr (payload_bytes p, t)"
proof -
  let ?w = "extracted fs root (va_payloads va) w"
  from validated_contents [OF va p] obtain t where t: "payload_sha256 p = sha (payload_bytes p)"
    "utf8_sig_decode (payload_bytes p) = Some t" "payload_line_count p = length (splitlines t)"
    by blast
  have "?w (under fs root p) = Some (Regular (payload_bytes p))"
    using clash_free_refine [OF ref validated_paths(1) [OF va]] p by (rule extracted_payload)
  then have w: "?w (map fs (root @ payload_path p)) = Some (Regular (payload_bytes p))"
    unfolding under_def .
  have path: "all_path_parts (pure_posix_path (payload_posix p)) = payload_path p"
    using validated_paths(2) [OF va p] by (rule payload_path_of_posix)
  have read: "read_exact_bounded (world_env fs ?w) (root @ payload_path p)
      (length (payload_bytes p)) = Inr (payload_bytes p)"
    using w by (rule read_exact_world)
  have env: "se_lstat (world_env fs ?w) (root @ payload_path p)
      = OsOk (Regular (payload_bytes p))"
    "se_resolve (world_env fs ?w) = OsOk"
    using w by (simp_all add: world_env_def)
  have "read_validated_source sha (world_env fs ?w) root (inventory_of p)
      = Inr (payload_bytes p, t)"
    unfolding read_validated_source_def Let_def inventory_of_def python_file.simps path env
    using t read by simp
  with t(2) show ?thesis by blast
qed

theorem scan_reads_what_was_extracted_witness:
  "read_validated_source sample_digest
     (world_env id (extracted id [''r''] (va_payloads sample_validated) Map.empty)) [''r'']
     (inventory_of sample_payload) = Inr ([0x78, 0x0A], [0x78, 0x0A])"
proof -
  have "sample_payload \<in> set (va_payloads sample_validated)"
    by (simp add: sample_validated_def)
  from scan_reads_what_was_extracted [OF sample_validate [of "[]"] _ this, of id "[''r'']"
      Map.empty]
  show ?thesis
    by (simp add: sample_payload_def sample_text)
qed

end
