(* ===== verification/RuleProps.thy ===== *)
theory RuleProps
  imports ScanProps
begin

text \<open>
  The properties of the rule scanner and of the import graph.
\<close>

section \<open>Name resolution\<close>

lemma deciding_scope_Some:
  "deciding_scope events name position scopes = Some (scope, bs) \<longleftrightarrow>
     (\<exists>before after. scopes = before @ scope # after
        \<and> (\<forall>s \<in> set before. bindings_before events s name position = [])
        \<and> bs = bindings_before events scope name position \<and> bs \<noteq> [])"
proof (induction scopes)
  case Nil
  then show ?case by simp
next
  case (Cons s scopes)
  show ?case
  proof (cases "bindings_before events s name position")
    case Nil
    have "(\<exists>before after. s # scopes = before @ scope # after
          \<and> (\<forall>s \<in> set before. bindings_before events s name position = [])
          \<and> bs = bindings_before events scope name position \<and> bs \<noteq> [])
        \<longleftrightarrow> (\<exists>before after. scopes = before @ scope # after
          \<and> (\<forall>s \<in> set before. bindings_before events s name position = [])
          \<and> bs = bindings_before events scope name position \<and> bs \<noteq> [])"
      (is "?l = ?r")
    proof
      assume ?l
      then obtain before after where b: "s # scopes = before @ scope # after"
        "\<forall>s \<in> set before. bindings_before events s name position = []"
        "bs = bindings_before events scope name position" "bs \<noteq> []" by blast
      with Nil show ?r by (cases before) auto
    next
      assume ?r
      then obtain before after where "scopes = before @ scope # after"
        "\<forall>s \<in> set before. bindings_before events s name position = []"
        "bs = bindings_before events scope name position" "bs \<noteq> []" by blast
      with Nil show ?l by (intro exI [of _ "s # before"] exI [of _ after]) simp
    qed
    with Nil Cons show ?thesis by simp
  next
    case (Cons b rest)
    then show ?thesis
      by (auto simp: Cons_eq_append_conv)
  qed
qed

lemma deciding_scope_map:
  "deciding_scope events name position (map f ls) = Some (scope, bs) \<longleftrightarrow>
     (\<exists>before k after. ls = before @ k # after \<and> scope = f k
        \<and> (\<forall>j \<in> set before. bindings_before events (f j) name position = [])
        \<and> bs = bindings_before events scope name position \<and> bs \<noteq> [])"
    (is "?l \<longleftrightarrow> ?r")
proof
  assume ?l
  then obtain before after where m: "map f ls = before @ scope # after"
    and r: "\<forall>s \<in> set before. bindings_before events s name position = []"
      "bs = bindings_before events scope name position" "bs \<noteq> []"
    unfolding deciding_scope_Some by blast
  from m obtain b k a where "ls = b @ k # a" "before = map f b" "scope = f k"
    by (auto simp: map_eq_append_conv map_eq_Cons_conv)
  with r show ?r by auto
next
  assume ?r
  then obtain b k a where "ls = b @ k # a" "scope = f k"
    "\<forall>j \<in> set b. bindings_before events (f j) name position = []"
    "bs = bindings_before events scope name position" "bs \<noteq> []" by blast
  then show ?l
    unfolding deciding_scope_Some by (intro exI [of _ "map f b"] exI [of _ "map f a"]) simp
qed

text \<open>C14: a name counts as an imported symbol only on proof: in the first accessible scope that
  binds its head before the use there is exactly one binding, it is an import, and the
  import makes the reference denote the target; no earlier scope binds the name.  A second
  binding, or one that is not an import, is never overlooked.\<close>

theorem resolved_symbol_proved:
  assumes "resolve_symbol events n target_module target_symbol scopes = Some ip"
  shows "\<exists>scope before after b.
     scopes = before @ scope # after
     \<and> dotted_name (symbol_reference_node n) = Some (ip_reference ip)
     \<and> (\<forall>s \<in> set before. bindings_before events s
          (hd (split_on CHR ''.'' (ip_reference ip))) (node_start (symbol_reference_node n)) = [])
     \<and> bindings_before events scope (hd (split_on CHR ''.'' (ip_reference ip)))
          (node_start (symbol_reference_node n)) = [b]
     \<and> be_import b = Some (ip_record ip)
     \<and> canonical_import_reference (ip_record ip) (ip_reference ip)
          = Some (target_module @ ''.'' @ target_symbol)"
proof -
  from assms obtain reference scope bs where
    ref: "dotted_name (symbol_reference_node n) = Some reference"
    and dec: "deciding_scope events (hd (split_on CHR ''.'' reference))
       (node_start (symbol_reference_node n)) scopes = Some (scope, bs)"
    and rest: "(case bs of
        [b] \<Rightarrow> (case be_import b of None \<Rightarrow> None | Some r \<Rightarrow>
            if canonical_import_reference r reference
                 = Some (target_module @ ''.'' @ target_symbol)
            then Some \<lparr>ip_record = r, ip_reference = reference\<rparr> else None)
      | _ \<Rightarrow> None) = Some ip"
    unfolding resolve_symbol_def Let_def by (auto split: option.splits if_split_asm)
  from rest obtain b where b: "bs = [b]" "be_import b = Some (ip_record ip)"
    "reference = ip_reference ip"
    "canonical_import_reference (ip_record ip) (ip_reference ip)
       = Some (target_module @ ''.'' @ target_symbol)"
    by (auto split: list.splits option.splits if_split_asm)
  with dec ref show ?thesis
    unfolding deciding_scope_Some by metis
qed

definition sample_pos :: "nat \<Rightarrow> nat \<Rightarrow> pos" where
  "sample_pos line col = \<lparr>pos_line = line, pos_col = col, pos_end_line = line,
     pos_end_col = col + 9\<rparr>"

definition sample_name :: node where
  "sample_name = Name (sample_pos 5 0) ''BM'' Load"

lemma sample_resolve:
  "resolve_symbol [import_binding sample_import] sample_name ''pydantic'' ''BaseModel'' [[]]
     = Some \<lparr>ip_record = sample_import, ip_reference = ''BM''\<rparr>"
  by code_simp

theorem resolved_symbol_proved_witness:
  "canonical_import_reference sample_import ''BM'' = Some ''pydantic.BaseModel''"
  using resolved_symbol_proved [OF sample_resolve] by auto

text \<open>The nesting levels whose bindings a use can see: the module, its own scope, and those of
  the enclosing functions; an enclosing class body is not among them.\<close>

definition visible_levels :: "scopes \<Rightarrow> nat set" where
  "visible_levels sc =
     {k. k \<le> length sc \<and> (k = 0 \<or> k = length sc \<or> fst (sc ! (k - 1)) = FunctionScope)}"

lemma accessible_levels:
  obtains levels where "accessible_scopes sc = map (\<lambda>k. scope_path (take k sc)) levels"
    and "sorted_wrt (>) levels" and "set levels = visible_levels sc"
proof (cases "sc = []")
  case True
  then show thesis
    by (intro that [of "[0]"]) (auto simp: accessible_scopes_def scope_path_def visible_levels_def)
next
  case False
  define enclosing where
    "enclosing = filter (\<lambda>i. fst (sc ! i) = FunctionScope) (rev [0..<length sc - 1])"
  define levels where "levels = length sc # map Suc enclosing @ [0]"
  have "accessible_scopes sc = map (\<lambda>k. scope_path (take k sc)) levels"
    using False by (auto simp: accessible_scopes_def levels_def enclosing_def scope_path_def Let_def)
  moreover have "sorted_wrt (>) (rev [0..<n])" for n :: nat
    by (simp add: sorted_wrt_rev)
  then have "sorted_wrt (>) enclosing"
    unfolding enclosing_def by (rule sorted_wrt_filter)
  then have "sorted_wrt (>) levels"
    using False by (auto simp: levels_def enclosing_def sorted_wrt_append sorted_wrt_map)
  moreover have "set levels = visible_levels sc"
  proof (intro set_eqI iffI)
    fix k
    assume "k \<in> set levels"
    then show "k \<in> visible_levels sc"
      by (auto simp: levels_def enclosing_def visible_levels_def)
  next
    fix k
    assume "k \<in> visible_levels sc"
    then show "k \<in> set levels"
      by (cases k) (auto simp: levels_def enclosing_def visible_levels_def image_iff)
  qed
  ultimately show thesis by (rule that)
qed

text \<open>C17: the search goes strictly from the inside out over the levels a use can see, its own
  scope first and the module last, skipping the enclosing class bodies, as in Python; so the
  scope that decides a name is the innermost visible one that binds it before the use.\<close>

theorem accessible_scopes_python:
  "(\<exists>levels. accessible_scopes sc = map (\<lambda>k. scope_path (take k sc)) levels
      \<and> sorted_wrt (>) levels \<and> set levels = visible_levels sc)
   \<and> (deciding_scope events name position (accessible_scopes sc) = Some (scope, bs) \<longleftrightarrow>
        (\<exists>k \<in> visible_levels sc. scope = scope_path (take k sc)
           \<and> bs = bindings_before events scope name position \<and> bs \<noteq> []
           \<and> (\<forall>j \<in> visible_levels sc. k < j \<longrightarrow>
                bindings_before events (scope_path (take j sc)) name position = [])))"
proof -
  obtain levels where acc: "accessible_scopes sc = map (\<lambda>k. scope_path (take k sc)) levels"
    and desc: "sorted_wrt (>) levels" and lev: "set levels = visible_levels sc"
    by (rule accessible_levels)
  define unbound where
    "unbound j \<longleftrightarrow> bindings_before events (scope_path (take j sc)) name position = []" for j
  have split: "(\<forall>j \<in> set before. unbound j) \<longleftrightarrow> (\<forall>j \<in> visible_levels sc. k < j \<longrightarrow> unbound j)"
    if "levels = before @ k # after" for before k after
    using desc unfolding lev [symmetric] that by (auto simp: sorted_wrt_append)
  have "deciding_scope events name position (accessible_scopes sc) = Some (scope, bs) \<longleftrightarrow>
      (\<exists>before k after. levels = before @ k # after \<and> scope = scope_path (take k sc)
         \<and> (\<forall>j \<in> set before. unbound j)
         \<and> bs = bindings_before events scope name position \<and> bs \<noteq> [])"
    unfolding acc unbound_def by (rule deciding_scope_map)
  also have "\<dots> \<longleftrightarrow> (\<exists>before k after. levels = before @ k # after \<and> scope = scope_path (take k sc)
         \<and> (\<forall>j \<in> visible_levels sc. k < j \<longrightarrow> unbound j)
         \<and> bs = bindings_before events scope name position \<and> bs \<noteq> [])"
    using split by (intro ex_cong1 conj_cong refl) blast+
  also have "\<dots> \<longleftrightarrow> (\<exists>k \<in> visible_levels sc. scope = scope_path (take k sc)
           \<and> bs = bindings_before events scope name position \<and> bs \<noteq> []
           \<and> (\<forall>j \<in> visible_levels sc. k < j \<longrightarrow> unbound j))"
    unfolding lev [symmetric] in_set_conv_decomp by (simp only: Bex_def in_set_conv_decomp) blast
  finally show ?thesis
    using acc desc lev unfolding unbound_def by auto
qed

text \<open>A method of a class inside a function: its uses see the function and the module only.\<close>

theorem accessible_scopes_python_witness:
  "\<exists>bs. deciding_scope
     [import_binding (sample_import\<lparr>imp_scope := [''f'', ''C'']\<rparr>),
      import_binding (sample_import\<lparr>imp_scope := [''f'']\<rparr>), import_binding sample_import] ''BM'' (5, 0)
     (accessible_scopes [(FunctionScope, ''f''), (ClassScope, ''C''), (FunctionScope, ''m'')])
     = Some ([''f''], bs)"
proof -
  let ?es = "[import_binding (sample_import\<lparr>imp_scope := [''f'', ''C'']\<rparr>),
      import_binding (sample_import\<lparr>imp_scope := [''f'']\<rparr>), import_binding sample_import]"
  let ?sc = "[(FunctionScope, ''f''), (ClassScope, ''C''), (FunctionScope, ''m'')]"
  have "visible_levels ?sc = {0, 1, 3}"
    by (auto simp: visible_levels_def nth_Cons' numeral_eq_Suc le_Suc_eq)
  moreover have "bindings_before ?es (scope_path (take 1 ?sc)) ''BM'' (5, 0) \<noteq> []"
    "bindings_before ?es (scope_path (take 3 ?sc)) ''BM'' (5, 0) = []"
    "scope_path (take 1 ?sc) = [''f'']"
    by code_simp+
  ultimately show ?thesis
    using accessible_scopes_python [of ?sc ?es "''BM''" "(5, 0)" "[''f'']"
      "bindings_before ?es [''f''] ''BM'' (5, 0)"] by auto
qed

section \<open>Findings\<close>

lemma emitted_ok:
  assumes "concat (map (file_findings reg) ps) = map Inr emitted" and "f \<in> set emitted"
  shows "\<exists>p \<in> set ps. emission_ok (pp_path p) (Inr f)"
proof -
  have "Inr f \<in> set (concat (map (file_findings reg) ps))"
    using assms by simp
  then obtain p where "p \<in> set ps" "Inr f \<in> set (file_findings reg p)" by auto
  with file_findings_ok show ?thesis by blast
qed

text \<open>C15: the findings of a scan come in strict order of the sort key, without duplicates; each
  is a valid finding in a scanned file.  Its old API is one the registry entry of its rule
  lists; only the open-ended \<open>PYDANTIC_V1_FIELD\<close> rule reports names outside its entry, and
  then the name is a keyword of \<open>Field\<close> that v2 removed or does not know.\<close>

theorem rule_scan_sound:
  assumes "rule_scan ast_digest r = Inr fs"
  shows "sorted_wrt (<) (map finding_sort_key fs) \<and> distinct fs
     \<and> (\<forall>f \<in> set fs. valid_finding f \<and> valid_finding_location (fd_location f)
          \<and> fd_path f \<in> set (map pp_path (asr_parsed r))
          \<and> (if fd_rule_id f = PYDANTIC_V1_FIELD
             then fd_old_api f \<in> set REMOVED_FIELD_KEYWORDS \<or> fd_old_api f \<notin> set V2_FIELD_KEYWORDS
             else \<exists>s. get_rule_spec (fd_rule_id f) = Inr s
                  \<and> fd_old_api f \<in> set (spec_old_apis s)))"
proof -
  from assms obtain emitted where
    e: "concat (map (file_findings (asr_registry r)) (asr_parsed r)) = map Inr emitted"
    and fs: "fs = sort_key finding_sort_key emitted" "distinct emitted"
    by (auto simp: rule_scan_Inr)
  have ok: "\<exists>p \<in> set (asr_parsed r). emission_ok (pp_path p) (Inr f)" if "f \<in> set fs" for f
    using that emitted_ok [OF e] by (simp add: fs)
  then have each: "valid_finding f \<and> valid_finding_location (fd_location f)
          \<and> fd_path f \<in> set (map pp_path (asr_parsed r))
          \<and> (if fd_rule_id f = PYDANTIC_V1_FIELD
             then fd_old_api f \<in> set REMOVED_FIELD_KEYWORDS \<or> fd_old_api f \<notin> set V2_FIELD_KEYWORDS
             else \<exists>s. get_rule_spec (fd_rule_id f) = Inr s
                  \<and> fd_old_api f \<in> set (spec_old_apis s))" if "f \<in> set fs" for f
    using ok [OF that] by (auto simp: emission_ok_def rule_api_def)
  moreover have "sorted_wrt (<) (map finding_sort_key fs)"
    using each by (intro findings.strict_sorted) (simp_all add: fs)
  ultimately show ?thesis
    using fs by simp
qed

definition sample_settings :: import_record where
  "sample_settings = \<lparr>imp_kind = FROM, imp_module = Some ''pydantic'',
     imp_name = Some ''BaseSettings'', imp_local = ''BaseSettings'', imp_alias = None,
     imp_level = 0, imp_index = 0, imp_scope = [], imp_location = sample_location 1\<rparr>"

text \<open>The scan of a file that holds \<open>from pydantic import BaseSettings\<close> and nothing else.\<close>

definition sample_scan :: "ast_scan_result" where
  "sample_scan = \<lparr>asr_registry =
       \<lparr>reg_files = [\<lparr>file_path = ''a.py'', file_module = ''a'', file_is_package = False,
          file_size_bytes = 37,
          file_line_count = 1, file_sha256 = [], file_ast_sha256 = ''d'',
          file_node_count = 3, file_statement_count = 1\<rparr>],
        reg_modules = [\<lparr>mod_path = ''a.py'', mod_name = ''a'', mod_is_package = False\<rparr>],
        reg_imports = [sample_settings], reg_classes = [], reg_parameters = [],
        reg_assignments = []\<rparr>,
     asr_parsed = [\<lparr>pp_path = ''a.py'', pp_module = ''a'',
       pp_tree = Module [ImportFrom (sample_pos 1 0) (Some ''pydantic'')
          [Alias (sample_pos 1 0) ''BaseSettings'' None] 0] []\<rparr>]\<rparr>"

lemma sample_rule_scan: "\<exists>f. rule_scan (\<lambda>_. ''d'') sample_scan = Inr [f]"
proof -
  have "length (projr (rule_scan (\<lambda>_. ''d'') sample_scan)) = 1
    \<and> \<not> isl (rule_scan (\<lambda>_. ''d'') sample_scan)"
    by code_simp
  then show ?thesis
    by (cases "rule_scan (\<lambda>_. ''d'') sample_scan") (auto simp: length_Suc_conv)
qed

theorem rule_scan_sound_witness:
  "\<exists>f. rule_scan (\<lambda>_. ''d'') sample_scan = Inr [f] \<and> fd_path f = ''a.py'' \<and> valid_finding f"
proof -
  obtain f where f: "rule_scan (\<lambda>_. ''d'') sample_scan = Inr [f]"
    using sample_rule_scan by blast
  have "map pp_path (asr_parsed sample_scan) = [''a.py'']"
    by (simp add: sample_scan_def)
  with rule_scan_sound [OF f] f show ?thesis
    by auto
qed

text \<open>C16: the result does not depend on the order in which the walks find things: a scan whose
  walks emit the same findings in another order succeeds as well, with the same list.\<close>

theorem rule_scan_order_independent:
  assumes "rule_scan ast_digest r = Inr fs" and "validate_scan_result ast_digest' r' = Inr ()"
    and "mset (concat (map (file_findings (asr_registry r)) (asr_parsed r)))
       = mset (concat (map (file_findings (asr_registry r')) (asr_parsed r')))"
  shows "rule_scan ast_digest' r' = Inr fs"
proof -
  let ?es' = "concat (map (file_findings (asr_registry r')) (asr_parsed r'))"
  from assms(1) obtain es where
    e: "concat (map (file_findings (asr_registry r)) (asr_parsed r)) = map Inr es"
    "fs = sort_key finding_sort_key es" "distinct es"
    by (auto simp: rule_scan_Inr)
  have perm: "mset ?es' = mset (map Inr es)"
    using assms(3) e(1) by simp
  then have "set ?es' = Inr ` set es"
    by (metis set_map set_mset_mset)
  then have "map (Inr \<circ> projr) ?es' = ?es'"
    by (intro map_idI) auto
  then have e': "?es' = map Inr (map projr ?es')"
    by simp
  have "mset (map projr ?es') = mset (map projr (map Inr es :: (rule_exn + finding) list))"
    unfolding mset_map perm by simp
  then have same: "mset (map projr ?es') = mset es"
    by (simp add: comp_def)
  have "\<forall>f \<in> set es. valid_finding f"
    using emitted_ok [OF e(1)] unfolding emission_ok_def by fastforce
  then have "sort_key finding_sort_key (map projr ?es') = sort_key finding_sort_key es"
    using findings.sorted_unique [OF same] mset_eq_setD [OF same] by blast
  moreover have "distinct (map projr ?es')"
    using mset_eq_imp_distinct_iff [OF same] e(3) by blast
  ultimately show ?thesis
    using e' e(2) assms(2) unfolding rule_scan_Inr by (intro conjI exI [of _ "map projr ?es'"]) simp_all
qed

text \<open>The same file twice, under two names; the walks take the files in either order.\<close>

definition sample_pair :: "bool \<Rightarrow> ast_scan_result" where
  "sample_pair flip =
     (let file = (\<lambda>p m. \<lparr>file_path = p, file_module = m, file_is_package = False,
            file_size_bytes = 37, file_line_count = 1, file_sha256 = [], file_ast_sha256 = ''d'',
            file_node_count = 3, file_statement_count = 1\<rparr>);
          parsed = (\<lambda>p m. (hd (asr_parsed sample_scan))\<lparr>pp_path := p, pp_module := m\<rparr>)
      in \<lparr>asr_registry = (asr_registry sample_scan)
            \<lparr>reg_files := (if flip then [file ''b.py'' ''b'', file ''a.py'' ''a'']
                 else [file ''a.py'' ''a'', file ''b.py'' ''b'']),
             reg_imports := [sample_settings, sample_settings
               \<lparr>imp_location := (sample_location 1)\<lparr>loc_path := ''b.py''\<rparr>\<rparr>]\<rparr>,
          asr_parsed = (if flip then [parsed ''b.py'' ''b'', parsed ''a.py'' ''a'']
              else [parsed ''a.py'' ''a'', parsed ''b.py'' ''b''])\<rparr>)"

theorem rule_scan_order_independent_witness:
  "rule_scan (\<lambda>_. ''d'') (sample_pair True) = rule_scan (\<lambda>_. ''d'') (sample_pair False)
   \<and> \<not> isl (rule_scan (\<lambda>_. ''d'') (sample_pair False))"
proof -
  have ok: "\<not> isl (rule_scan (\<lambda>_. ''d'') (sample_pair False))" by code_simp
  then have r: "rule_scan (\<lambda>_. ''d'') (sample_pair False)
      = Inr (projr (rule_scan (\<lambda>_. ''d'') (sample_pair False)))"
    by (metis sum.collapse(2))
  have v: "validate_scan_result (\<lambda>_. ''d'') (sample_pair True) = Inr ()" by code_simp
  have perm: "mset (concat (map (file_findings (asr_registry (sample_pair False)))
        (asr_parsed (sample_pair False))))
    = mset (concat (map (file_findings (asr_registry (sample_pair True)))
        (asr_parsed (sample_pair True))))"
    by (simp add: sample_pair_def Let_def file_findings_def file_context_def)
  from rule_scan_order_independent [OF r v perm] r ok show ?thesis by simp
qed

lemma long_keyword_emission:
  assumes "field_keyword_kind arg = Some kind" and "128 < length arg"
    and "Keyword p (Some arg) v \<in> set ks"
  shows "\<exists>e. Inl e \<in> set (field_keyword_findings rc ip ks)"
proof -
  have "\<nexists>f. finding_at PYDANTIC_V1_FIELD path loc arg FIELD_KEYWORD ev = Inr f" for path loc ev
    using assms(2) by (auto simp: finding_at_def valid_finding_def)
  then have no: "\<nexists>f. bindE m (\<lambda>facts. node_finding PYDANTIC_V1_FIELD path n arg FIELD_KEYWORD (g facts)) = Inr f"
    for m path n g
    by (auto simp: node_finding_def)
  have head: "\<exists>e. Inl e \<in> set (x # xs)" if "\<nexists>f. x = Inr f" for x :: "rule_exn + finding" and xs
    using that by (cases x) auto
  show ?thesis
    using assms(3)
  proof (induction rc ip ks rule: field_keyword_findings.induct)
    case (2 rc ip q b u ks)
    show ?case
    proof (cases "Keyword q (Some b) u = Keyword p (Some arg) v")
      case True
      then have "b = arg" by simp
      show ?thesis
        unfolding field_keyword_findings.simps \<open>b = arg\<close> assms(1) option.case append_Cons append_Nil
        by (rule head) (rule no)
    qed (use 2 in auto)
  qed auto
qed

lemma traverseE_id_Inl: "Inl e \<in> set xs \<Longrightarrow> \<nexists>fs. traverseE id xs = Inr fs"
  by (induction xs) (auto simp: bindE_eq_Inl)

lemma scan_raises:
  assumes "validate_scan_result ast_digest r = Inr ()"
    and "Inl e \<in> set (concat (map (file_findings (asr_registry r)) (asr_parsed r)))"
    and "Inl (RuleScanErr INVALID_AST_LOCATION)
       \<notin> set (concat (map (file_findings (asr_registry r)) (asr_parsed r)))"
  shows "rule_scan ast_digest r = Inl RuleValidationErr"
proof -
  let ?xs = "concat (map (file_findings (asr_registry r)) (asr_parsed r))"
  have "\<nexists>fs. traverseE id ?xs = Inr fs"
    using traverseE_id_Inl [OF assms(2)] .
  then obtain e' where e': "traverseE id ?xs = Inl e'"
    by (cases "traverseE id ?xs") auto
  then have "Inl e' \<in> set ?xs"
    using traverseE_Inl [OF e'] by auto
  then obtain p where "p \<in> set (asr_parsed r)" "Inl e' \<in> set (file_findings (asr_registry r) p)"
    by auto
  then have "finding_error e'"
    using file_findings_ok by (metis emission_Inl)
  with assms(3) \<open>Inl e' \<in> set ?xs\<close> have "e' = RuleValidationErr"
    unfolding finding_error_def by metis
  with e' assms(1) show ?thesis
    by (simp add: rule_scan_def)
qed

text \<open>C18: one call of pydantic's \<open>Field\<close> with a keyword that is unknown to v2 and longer than 128
  characters makes the scan of the whole project raise pydantic's \<open>ValidationError\<close>: wherever
  the visitor meets the call, the finding's own length limit refuses the report.  (The last
  hypothesis is the parser's: every node that is reported has its position.)\<close>

theorem long_field_keyword_raises:
  assumes "validate_scan_result ast_digest r = Inr ()" and "p \<in> set (asr_parsed r)"
    and "walked (fst (file_context (asr_registry r) p)) [] (pp_tree p) sc (Call q f args ks)"
    and "resolve_symbol (rc_bindings (fst (file_context (asr_registry r) p))) (Call q f args ks)
       PYDANTIC_MODULE ''Field'' (accessible_scopes sc) = Some ip"
    and "Keyword kp (Some arg) v \<in> set ks"
    and "arg \<notin> set V2_FIELD_KEYWORDS" and "128 < length arg"
    and "Inl (RuleScanErr INVALID_AST_LOCATION)
       \<notin> set (concat (map (file_findings (asr_registry r)) (asr_parsed r)))"
  shows "rule_scan ast_digest r = Inl RuleValidationErr"
proof -
  let ?rc = "fst (file_context (asr_registry r) p)"
  obtain kind where "field_keyword_kind arg = Some kind"
    using assms(6) by (cases "arg \<in> set REMOVED_FIELD_KEYWORDS") (simp_all add: field_keyword_kind_def)
  then obtain e where "Inl e \<in> set (field_keyword_findings ?rc ip ks)"
    using long_keyword_emission assms(5,7) by blast
  then have "Emit (Inl e) \<in> set (rule_steps ?rc sc (Call q f args ks))"
    using assms(4) by (simp add: rule_steps_def detect_field_keywords_def)
  then have "Inl e \<in> set (visit_rules ?rc [] (pp_tree p))"
    using walked_emits [OF assms(3)] by blast
  then have "Inl e \<in> set (file_findings (asr_registry r) p)"
    by (cases "file_context (asr_registry r) p") (simp add: file_findings_def)
  with assms(2) show ?thesis
    by (intro scan_raises [OF assms(1) _ assms(8)]) auto
qed

text \<open>\<open>from pydantic import Field\<close>, then \<open>Field(kk...k=Field)\<close> with a keyword of 129 letters.\<close>

definition field_import :: import_record where
  "field_import = sample_settings\<lparr>imp_name := Some ''Field'', imp_local := ''Field''\<rparr>"

definition field_keyword :: node where
  "field_keyword = Keyword (sample_pos 2 6) (Some (replicate 129 CHR ''k''))
     (Name (sample_pos 2 140) ''Field'' Load)"

definition field_call :: node where
  "field_call = Call (sample_pos 2 0) (Name (sample_pos 2 0) ''Field'' Load) [] [field_keyword]"

definition field_file :: parsed_python_file where
  "field_file = \<lparr>pp_path = ''a.py'', pp_module = ''a'',
     pp_tree = Module [ImportFrom (sample_pos 1 0) (Some ''pydantic'')
       [Alias (sample_pos 1 0) ''Field'' None] 0, field_call] []\<rparr>"

definition field_scan :: ast_scan_result where
  "field_scan = sample_scan
     \<lparr>asr_registry := (asr_registry sample_scan)\<lparr>reg_imports := [field_import]\<rparr>,
      asr_parsed := [field_file]\<rparr>"

lemma field_scan_walked:
  "walked (fst (file_context (asr_registry field_scan) field_file)) [] (pp_tree field_file) []
     (Call (sample_pos 2 0) (Name (sample_pos 2 0) ''Field'' Load) [] [field_keyword])"
  by (rule walked_below [OF _ walked_here]) (simp add: field_file_def rule_steps_def field_call_def)

theorem long_field_keyword_raises_witness:
  "rule_scan (\<lambda>_. ''d'') field_scan = Inl RuleValidationErr"
proof (rule long_field_keyword_raises [OF _ _ field_scan_walked])
  show "validate_scan_result (\<lambda>_. ''d'') field_scan = Inr ()" by code_simp
  show "field_file \<in> set (asr_parsed field_scan)" by (simp add: field_scan_def)
  show "resolve_symbol (rc_bindings (fst (file_context (asr_registry field_scan) field_file)))
      (Call (sample_pos 2 0) (Name (sample_pos 2 0) ''Field'' Load) [] [field_keyword])
      PYDANTIC_MODULE ''Field'' (accessible_scopes [])
      = Some \<lparr>ip_record = field_import, ip_reference = ''Field''\<rparr>" by code_simp
  show "Keyword (sample_pos 2 6) (Some (replicate 129 CHR ''k''))
      (Name (sample_pos 2 140) ''Field'' Load) \<in> set [field_keyword]"
    by (simp add: field_keyword_def)
  show "replicate 129 CHR ''k'' \<notin> set V2_FIELD_KEYWORDS" by code_simp
  have "list_all (\<lambda>x. x \<noteq> Inl (RuleScanErr INVALID_AST_LOCATION))
      (concat (map (file_findings (asr_registry field_scan)) (asr_parsed field_scan)))"
    by code_simp
  then show "Inl (RuleScanErr INVALID_AST_LOCATION)
      \<notin> set (concat (map (file_findings (asr_registry field_scan)) (asr_parsed field_scan)))"
    unfolding list_all_iff by blast
qed simp

end
