(* ===== verification/GraphProps.thy ===== *)
theory GraphProps
  imports ImportGraph
begin

text \<open>
  The properties of the import graph and of the one-hop impact analysis.
\<close>

lemma import_edge_iff:
  assumes "distinct (map mod_path ms)" "distinct (map mod_name ms)"
  shows "import_edge ms r = Some e \<longleftrightarrow>
     (\<exists>importer \<in> set ms. \<exists>imported \<in> set ms.
        mod_path importer = loc_path (imp_location r)
        \<and> resolve_imported_module importer r (modules_by mod_name ms) = Some imported
        \<and> e = \<lparr>ed_importer_module = mod_name importer, ed_importer_path = mod_path importer,
              ed_imported_module = mod_name imported, ed_imported_path = mod_path imported\<rparr>)"
    (is "_ \<longleftrightarrow> ?r")
proof
  assume "import_edge ms r = Some e"
  with assms show ?r by (rule import_edge_modules)
next
  assume ?r
  then obtain importer imported where i: "importer \<in> set ms"
    "mod_path importer = loc_path (imp_location r)"
    "resolve_imported_module importer r (modules_by mod_name ms) = Some imported"
    "e = \<lparr>ed_importer_module = mod_name importer, ed_importer_path = mod_path importer,
          ed_imported_module = mod_name imported, ed_imported_path = mod_path imported\<rparr>"
    by blast
  then have "modules_by mod_path ms (loc_path (imp_location r)) = Some importer"
    by (simp add: modules_by_Some [OF assms(1)])
  with i show "import_edge ms r = Some e"
    by (simp add: import_edge_def)
qed

text \<open>C19: the graph is exactly what the import records say: from a checked registry with
  distinct module paths the build succeeds, keeps the modules, lists the edges in strict
  order, and there is an edge just when an import record of the importing file resolves to
  the imported module.\<close>

theorem graph_edges_exact:
  assumes "make_registry reg = Inr reg" and "good_modules (reg_modules reg)"
    and "distinct (map mod_path (reg_modules reg))"
  shows "\<exists>g. build_graph reg = Inr g \<and> gr_modules g = reg_modules reg
     \<and> sorted_wrt (<) (map edge_key (gr_edges g))
     \<and> (\<forall>e. e \<in> set (gr_edges g) \<longleftrightarrow>
          (\<exists>r \<in> set (reg_imports reg). \<exists>importer \<in> set (reg_modules reg).
           \<exists>imported \<in> set (reg_modules reg).
             mod_path importer = loc_path (imp_location r)
             \<and> resolve_imported_module importer r (modules_by mod_name (reg_modules reg))
                 = Some imported
             \<and> e = \<lparr>ed_importer_module = mod_name importer,
                   ed_importer_path = mod_path importer,
                   ed_imported_module = mod_name imported,
                   ed_imported_path = mod_path imported\<rparr>))"
proof -
  let ?es = "List.map_filter (import_edge (reg_modules reg)) (reg_imports reg)"
  have "e \<in> set ?es \<longleftrightarrow> (\<exists>r \<in> set (reg_imports reg). import_edge (reg_modules reg) r = Some e)" for e
    by (auto simp: map_filter_def) force
  moreover have "sorted_wrt (<) (map edge_key (sort_key edge_key (remdups ?es)))"
    by (intro edges.strict_sorted) simp_all
  ultimately show ?thesis
    unfolding build_graph_Inr [OF assms] sum.inject
    using import_edge_iff [OF assms(3) registry_facts(2) [OF assms(1)]] by simp
qed

lemma hops_member:
  "i \<in> set (graph.hops g modul paths) \<longleftrightarrow>
     (\<exists>e. ed_imported_path e \<in> set paths \<and> e \<in> set (graph_importers g (ed_imported_path e))
        \<and> i = \<lparr>oh_direct_path = ed_imported_path e, oh_direct_module = modul (ed_imported_path e),
              oh_importer_path = ed_importer_path e,
              oh_importer_module = ed_importer_module e\<rparr>)"
    (is "_ \<longleftrightarrow> (\<exists>e. ?row e)")
proof
  assume "i \<in> set (graph.hops g modul paths)"
  then obtain p e where "p \<in> set paths" "e \<in> set (graph_importers g p)"
    "i = \<lparr>oh_direct_path = p, oh_direct_module = modul p, oh_importer_path = ed_importer_path e,
          oh_importer_module = ed_importer_module e\<rparr>"
    unfolding graph.hops_def by auto
  moreover from this(2) have "ed_imported_path e = p" by (rule graph.into)
  ultimately show "\<exists>e. ?row e" by blast
next
  assume "\<exists>e. ?row e"
  then show "i \<in> set (graph.hops g modul paths)"
    unfolding graph.hops_def by auto
qed

text \<open>C20: the impact of a scan is exactly one hop.  On a valid graph and a checked list of
  findings in its files the analysis succeeds; the directly affected files are those with
  findings, and an importer is reported just when some edge of the graph goes from another
  file into a directly affected one.  Importers of importers are never reported; both lists
  come in strict order.\<close>

theorem one_hop_exact:
  assumes "valid_graph g" and "good_modules (gr_modules g)"
    and "sorted (map finding_sort_key fs)" "distinct fs"
    and "set (map fd_path fs) \<subseteq> set (map mod_path (gr_modules g))"
  shows "\<exists>r. analyze_impact g fs = Inr r \<and> im_findings r = fs
     \<and> set (map df_path (im_direct_files r)) = fd_path ` set fs
     \<and> sorted_wrt (<) (map df_path (im_direct_files r))
     \<and> sorted_wrt (<) (map importer_key (im_importers r))
     \<and> (\<forall>i. i \<in> set (im_importers r) \<longleftrightarrow>
          (\<exists>e \<in> set (gr_edges g). ed_imported_path e \<in> fd_path ` set fs
             \<and> ed_importer_path e \<noteq> ed_imported_path e
             \<and> i = \<lparr>oh_direct_path = ed_imported_path e, oh_direct_module = ed_imported_module e,
                   oh_importer_path = ed_importer_path e,
                   oh_importer_module = ed_importer_module e\<rparr>))"
proof -
  let ?r = "impact_of g fs"
  have modul: "module_at g (ed_imported_path e) = ed_imported_module e"
    if "e \<in> set (gr_edges g)" for e
  proof -
    from valid_graph_edge [OF assms(1) that] obtain b where
      "b \<in> set (gr_modules g)" "ed_imported_path e = mod_path b" "ed_imported_module e = mod_name b"
      by auto
    then show ?thesis
      by (simp add: module_at_def modules_by_Some [OF valid_graph_facts(2) [OF assms(1)],
            of "mod_path b" b, THEN iffD2])
  qed
  have "i \<in> set (im_importers ?r) \<longleftrightarrow>
      (\<exists>e \<in> set (gr_edges g). ed_imported_path e \<in> fd_path ` set fs
         \<and> ed_importer_path e \<noteq> ed_imported_path e
         \<and> i = \<lparr>oh_direct_path = ed_imported_path e,
               oh_direct_module = module_at g (ed_imported_path e),
               oh_importer_path = ed_importer_path e,
               oh_importer_module = ed_importer_module e\<rparr>)" for i
    using assms(1) unfolding impact_of_def one_hop_impact.simps hops_member
    by (auto simp: finding_paths_props graph_importers_def into_file_def)
  with modul have "i \<in> set (im_importers ?r) \<longleftrightarrow>
      (\<exists>e \<in> set (gr_edges g). ed_imported_path e \<in> fd_path ` set fs
         \<and> ed_importer_path e \<noteq> ed_imported_path e
         \<and> i = \<lparr>oh_direct_path = ed_imported_path e, oh_direct_module = ed_imported_module e,
               oh_importer_path = ed_importer_path e,
               oh_importer_module = ed_importer_module e\<rparr>)" for i
    by (metis (no_types, lifting))
  moreover have "map df_path (im_direct_files ?r) = finding_paths fs"
    by (simp add: impact_of_def direct_row_def comp_def)
  moreover have "sorted_wrt (<) (map importer_key (im_importers ?r))"
    unfolding impact_of_def by (simp add: graph.hops_keys finding_paths_props)
  ultimately show ?thesis
    using analyze_impact_Inr [OF assms] finding_paths_props [of fs]
    by (intro exI [of _ ?r]) (simp add: impact_of_def)
qed

text \<open>C21: a relative import is resolved as Python resolves it: with a leading dot in the
  statement, outside a root package, the base module is what \<open>importlib\<close> computes from the
  package of the importing module, and nothing when the dots leave the package.\<close>

theorem relative_import_importlib:
  assumes name: "mod_name importer = join ''.'' ps" "ps \<noteq> []" "dotted_parts ps"
    and root: "\<not> (mod_is_package importer \<and> mod_path importer = ''__init__.py'')"
    and level: "0 < imp_level r" and modul: "imp_module r \<noteq> Some []"
  shows "from_import_base importer r
     = importlib_resolve (python_package importer) (imp_level r) (imp_module r)"
proof -
  let ?pp = "package_parts importer"
  note pp = python_package_parts [OF name]
  have dotted: "dotted_parts ?pp"
    using name(3) unfolding pp(1) by (auto simp: dotted_parts_def dest: in_set_butlastD)
  have base: "from_import_base importer r =
      (if imp_level r > length ?pp then None
       else (let base_parts = take (length ?pp - imp_level r + 1) ?pp
               @ (case imp_module r of None \<Rightarrow> [] | Some m \<Rightarrow> split_on CHR ''.'' m)
             in if base_parts = [] then None else Some (join ''.'' base_parts)))"
    using level root by (auto simp: from_import_base_def package_parts_def Let_def)
  show ?thesis
  proof (cases "?pp = []")
    case True
    then show ?thesis
      using level by (simp add: base importlib_resolve_def pp(2))
  next
    case ne: False
    then have nonempty: "join ''.'' ?pp \<noteq> []"
      using dotted by (rule join_nonempty)
    note strip = strip_levels_join [OF ne dotted, of "imp_level r - 1"]
    show ?thesis
    proof (cases "imp_level r > length ?pp")
      case True
      then show ?thesis
        using nonempty strip ne by (simp add: base importlib_resolve_def pp(2))
    next
      case False
      then have take: "length ?pp - imp_level r + 1 = length ?pp - (imp_level r - 1)"
        "imp_level r - 1 < length ?pp"
        using level by simp_all
      have kept: "take (length ?pp - (imp_level r - 1)) ?pp \<noteq> []"
        using ne take(2) by simp
      show ?thesis
        using False nonempty strip take kept modul
        by (auto simp: base importlib_resolve_def pp(2) Let_def join_append join_split_on
            split: option.split)
    qed
  qed
qed

section \<open>A project of two modules\<close>

text \<open>\<open>pkg/b.py\<close> holds \<open>from .a import X\<close>; the findings are in \<open>pkg/a.py\<close>.\<close>

definition two_modules :: "module_record list" where
  "two_modules = [\<lparr>mod_path = ''pkg/a.py'', mod_name = ''pkg.a'', mod_is_package = False\<rparr>,
     \<lparr>mod_path = ''pkg/b.py'', mod_name = ''pkg.b'', mod_is_package = False\<rparr>]"

definition relative_import :: import_record where
  "relative_import = \<lparr>imp_kind = FROM, imp_module = Some ''a'', imp_name = Some ''X'',
     imp_local = ''X'', imp_alias = None, imp_level = 1, imp_index = 0, imp_scope = [],
     imp_location = \<lparr>loc_path = ''pkg/b.py'', loc_line = 1, loc_column = 0, loc_end_line = 1,
       loc_end_column = 16\<rparr>\<rparr>"

definition two_files :: scanner_registry where
  "two_files = \<lparr>reg_files = map (\<lambda>m. \<lparr>file_path = mod_path m, file_module = mod_name m,
       file_is_package = mod_is_package m, file_size_bytes = 1, file_line_count = 1,
       file_sha256 = [], file_ast_sha256 = [], file_node_count = 1, file_statement_count = 1\<rparr>)
       two_modules,
     reg_modules = two_modules, reg_imports = [relative_import], reg_classes = [],
     reg_parameters = [], reg_assignments = []\<rparr>"

definition two_edges :: "local_import_edge list" where
  "two_edges = [\<lparr>ed_importer_module = ''pkg.b'', ed_importer_path = ''pkg/b.py'',
     ed_imported_module = ''pkg.a'', ed_imported_path = ''pkg/a.py''\<rparr>]"

lemma two_modules_good:
  "good_modules two_modules" "distinct (map mod_path two_modules)"
  by (simp_all add: good_modules_def two_modules_def short_path_def valid_python_path_def)
    code_simp+

theorem graph_edges_exact_witness:
  "\<exists>g. build_graph two_files = Inr g \<and> hd two_edges \<in> set (gr_edges g)"
proof -
  have reg: "make_registry two_files = Inr two_files"
    by code_simp
  have "good_modules (reg_modules two_files)" "distinct (map mod_path (reg_modules two_files))"
    using two_modules_good by (simp_all add: two_files_def)
  from graph_edges_exact [OF reg this] obtain g where g: "build_graph two_files = Inr g"
    and edges: "\<And>e r a b. r \<in> set (reg_imports two_files) \<Longrightarrow> a \<in> set (reg_modules two_files)
      \<Longrightarrow> b \<in> set (reg_modules two_files) \<Longrightarrow> mod_path a = loc_path (imp_location r)
      \<Longrightarrow> resolve_imported_module a r (modules_by mod_name (reg_modules two_files)) = Some b
      \<Longrightarrow> e = \<lparr>ed_importer_module = mod_name a, ed_importer_path = mod_path a,
           ed_imported_module = mod_name b, ed_imported_path = mod_path b\<rparr>
      \<Longrightarrow> e \<in> set (gr_edges g)"
    by blast
  have resolved: "resolve_imported_module (two_modules ! 1) relative_import
      (modules_by mod_name two_modules) = Some (two_modules ! 0)"
    by code_simp
  have "hd two_edges \<in> set (gr_edges g)"
    by (rule edges [of relative_import "two_modules ! 1" "two_modules ! 0"])
      (use resolved in \<open>simp_all add: two_files_def two_modules_def relative_import_def
         two_edges_def\<close>)
  with g show ?thesis by blast
qed

definition hit :: finding where
  "hit = \<lparr>fd_rule_id = PYDANTIC_V1_SETTINGS, fd_category = SETTINGS, fd_path = ''pkg/a.py'',
     fd_location = \<lparr>fl_start_line = 1, fl_start_column = 0, fl_end_line = 1, fl_end_column = 5\<rparr>,
     fd_old_api = ''BaseSettings'', fd_construct = SETTINGS_IMPORT, fd_evidence = [],
     fd_confidence = HIGH, fd_severity = HIGH, fd_requires_manual_review = False\<rparr>"

theorem one_hop_exact_witness:
  "\<exists>r i. analyze_impact \<lparr>gr_modules = two_modules, gr_edges = two_edges\<rparr> [hit] = Inr r
     \<and> i \<in> set (im_importers r) \<and> oh_importer_path i = ''pkg/b.py''"
proof -
  let ?g = "\<lparr>gr_modules = two_modules, gr_edges = two_edges\<rparr>"
  have valid: "valid_graph ?g" by code_simp
  have good: "good_modules (gr_modules ?g)"
    using two_modules_good by simp
  have sorted: "sorted (map finding_sort_key [hit])" "distinct [hit]" by simp_all
  have known: "set (map fd_path [hit]) \<subseteq> set (map mod_path (gr_modules ?g))"
    by (simp add: hit_def two_modules_def)
  obtain r where r: "analyze_impact ?g [hit] = Inr r"
    and exact: "\<forall>i. i \<in> set (im_importers r) \<longleftrightarrow>
          (\<exists>e \<in> set (gr_edges ?g). ed_imported_path e \<in> fd_path ` set [hit]
             \<and> ed_importer_path e \<noteq> ed_imported_path e
             \<and> i = \<lparr>oh_direct_path = ed_imported_path e, oh_direct_module = ed_imported_module e,
                   oh_importer_path = ed_importer_path e,
                   oh_importer_module = ed_importer_module e\<rparr>)"
    using one_hop_exact [OF valid good sorted known] by blast
  have "\<lparr>oh_direct_path = ''pkg/a.py'', oh_direct_module = ''pkg.a'',
      oh_importer_path = ''pkg/b.py'', oh_importer_module = ''pkg.b''\<rparr> \<in> set (im_importers r)"
    unfolding exact [rule_format] by (simp add: two_edges_def hit_def)
  with r show ?thesis by fastforce
qed

theorem relative_import_importlib_witness:
  "from_import_base (two_modules ! 1) relative_import
     = importlib_resolve (python_package (two_modules ! 1)) 1 (Some ''a'')
   \<and> from_import_base (two_modules ! 1) relative_import = Some ''pkg.a''"
proof -
  have name: "mod_name (two_modules ! 1) = join ''.'' [''pkg'', ''b'']"
    "[''pkg'', ''b''] \<noteq> []" "dotted_parts [''pkg'', ''b'']"
    by (simp_all add: two_modules_def dotted_parts_def)
  have "from_import_base (two_modules ! 1) relative_import = Some ''pkg.a''"
    by code_simp
  with relative_import_importlib [OF name, of relative_import] show ?thesis
    by (simp add: two_modules_def relative_import_def)
qed

end
