(* ===== verification/Bm25.thy ===== *)
theory Bm25
  imports PyText ScannerModels Complex_Main
begin

text \<open>
  \<open>app/retrieval/bm25.py\<close>: the tokenizer, the in-memory index and the ranking.

  A finite Python \<open>float\<close> is the rational number it denotes and every arithmetic operation
  rounds its exact result, so a rounding function \<open>rnd\<close> is an argument of the scoring
  (IEEE 754 round to nearest; nothing below depends on which); \<open>log1p\<close> is another one.  The
  texts are strings of the code points below 256, with the word characters and the case
  folding of \<open>PyText\<close>.

  \<open>provenance\<close> holds the fields that \<open>MarkdownChunk\<close>, \<open>BM25SearchResult\<close> and
  \<open>DenseSearchResult\<close> share.
\<close>

type_synonym pyfloat = rat

definition BM25_TOP_K_MAX :: nat where "BM25_TOP_K_MAX = 8"

record provenance =
  pv_chunk_id :: string
  pv_heading_path :: "string list"
  pv_text :: string
  pv_content_sha256 :: string
  pv_source_id :: string
  pv_source_url :: string
  pv_git_ref :: string
  pv_commit_sha :: string
  pv_source_path :: string
  pv_snapshot_sha256 :: string

record component_result =
  cr_rank :: nat
  cr_score :: pyfloat
  cr_provenance :: provenance

text \<open>\<open>QueryValueErr\<close> is a \<open>ValueError\<close>, \<open>FusionErr\<close> the \<open>HybridFusionContractError\<close>,
  \<open>ResultErr\<close> pydantic's \<open>ValidationError\<close>.\<close>

datatype retrieval_exn = QueryValueErr | FusionErr | ResultErr | ComponentErr string

section \<open>Result models\<close>

definition is_commit :: "string \<Rightarrow> bool" where
  "is_commit s \<longleftrightarrow> length s = 40 \<and> set s \<subseteq> set ''0123456789abcdef''"

definition is_sha256_id :: "string \<Rightarrow> bool" where
  "is_sha256_id s \<longleftrightarrow> take 7 s = ''sha256:'' \<and> is_digest (drop 7 s)"

definition valid_provenance :: "provenance \<Rightarrow> bool" where
  "valid_provenance p \<longleftrightarrow>
     is_sha256_id (pv_chunk_id p) \<and> pv_text p \<noteq> [] \<and> is_digest (pv_content_sha256 p)
     \<and> pv_source_id p \<noteq> [] \<and> pv_source_url p \<noteq> [] \<and> pv_git_ref p \<noteq> []
     \<and> is_commit (pv_commit_sha p) \<and> pv_source_path p \<noteq> []
     \<and> is_digest (pv_snapshot_sha256 p)"

definition make_bm25_result :: "component_result \<Rightarrow> retrieval_exn + component_result" where
  "make_bm25_result r =
     (if 0 < cr_rank r \<and> 0 < cr_score r \<and> valid_provenance (cr_provenance r)
      then Inr r else Inl ResultErr)"

section \<open>Queries and tokens\<close>

definition validate_raw_query :: "string \<Rightarrow> retrieval_exn + string" where
  "validate_raw_query query =
     (let normalized = strip query
      in if normalized = [] then Inl QueryValueErr
         else if prefix ''query:'' (casefold normalized)
              \<or> prefix ''passage:'' (casefold normalized)
         then Inl QueryValueErr else Inr normalized)"

definition is_separator :: "char \<Rightarrow> bool" where
  "is_separator c \<longleftrightarrow> c \<in> {CHR ''.'', CHR ''_'', CHR ''-''}"

text \<open>
  \<open>_TOKEN_PATTERN.finditer\<close>.  The pattern is a run of word characters, then separators each
  followed by another run; after its first character a match goes on greedily with word
  characters and with separators that a word character follows.
\<close>

fun match_more :: "string \<Rightarrow> string \<times> string" where
  "match_more [] = ([], [])"
| "match_more (c # s) =
     (if is_word c \<or> (is_separator c \<and> s \<noteq> [] \<and> is_word (hd s))
      then (case match_more s of (t, rest) \<Rightarrow> (c # t, rest))
      else ([], c # s))"

lemma match_more_split: "match_more s = (t, rest) \<Longrightarrow> s = t @ rest"
  by (induction s arbitrary: t rest) (auto split: if_splits prod.splits)

function find_tokens :: "string \<Rightarrow> string list" where
  "find_tokens [] = []"
| "find_tokens (c # s) =
     (if is_word c
      then (case match_more s of (t, rest) \<Rightarrow> (c # t) # find_tokens rest)
      else find_tokens s)"
  by pat_completeness auto

termination
  by (relation "measure length") (auto dest!: sym [THEN match_more_split])

text \<open>\<open>tokenize_for_bm25\<close>: every compound token, followed by its components.\<close>

fun split_separators :: "string \<Rightarrow> string list" where
  "split_separators [] = [[]]"
| "split_separators (c # s) =
     (if is_separator c then [] # split_separators s
      else (case split_separators s of [] \<Rightarrow> [[c]] | w # ws \<Rightarrow> (c # w) # ws))"

definition token_family :: "string \<Rightarrow> string list" where
  "token_family t =
     (let compound = casefold t
      in compound # (if \<exists>c \<in> set compound. is_separator c
                     then filter (\<lambda>w. w \<noteq> []) (split_separators compound) else []))"

definition tokenize_for_bm25 :: "string \<Rightarrow> string list" where
  "tokenize_for_bm25 s = concat (map token_family (find_tokens s))"

section \<open>The index\<close>

text \<open>\<open>dict.fromkeys\<close>: the first occurrence of every element.\<close>

definition unique_first :: "'a list \<Rightarrow> 'a list" where
  "unique_first xs = rev (remdups (rev xs))"

record arith =
  rnd :: "rat \<Rightarrow> pyfloat"
  log1p :: "pyfloat \<Rightarrow> pyfloat"

record bm25_retriever =
  bm_chunks :: "provenance list"
  bm_k1 :: pyfloat
  bm_b :: pyfloat

definition make_bm25_retriever ::
  "provenance list \<Rightarrow> pyfloat \<Rightarrow> pyfloat \<Rightarrow> retrieval_exn + bm25_retriever" where
  "make_bm25_retriever chunks k1 b =
     (if chunks = [] \<or> k1 \<le> 0 \<or> b < 0 \<or> 1 < b \<or> \<not> distinct (map pv_chunk_id chunks)
      then Inl QueryValueErr else Inr \<lparr>bm_chunks = chunks, bm_k1 = k1, bm_b = b\<rparr>)"

definition term_frequency :: "provenance \<Rightarrow> string \<Rightarrow> nat" where
  "term_frequency chunk t = count_list (tokenize_for_bm25 (pv_text chunk)) t"

definition document_length :: "provenance \<Rightarrow> nat" where
  "document_length chunk = length (tokenize_for_bm25 (pv_text chunk))"

definition document_frequency :: "provenance list \<Rightarrow> string \<Rightarrow> nat" where
  "document_frequency chunks t = length (filter (\<lambda>c. t \<in> set (tokenize_for_bm25 (pv_text c))) chunks)"

definition average_document_length :: "arith \<Rightarrow> provenance list \<Rightarrow> pyfloat" where
  "average_document_length ar chunks =
     rnd ar (of_nat (sum_list (map document_length chunks)) / of_nat (length chunks))"

text \<open>One round of the loop over the query terms, rounding after every operation.\<close>

definition term_score :: "arith \<Rightarrow> bm25_retriever \<Rightarrow> provenance \<Rightarrow> string \<Rightarrow> pyfloat" where
  "term_score ar bm chunk t =
     (let r = rnd ar; n = length (bm_chunks bm); f = of_nat (term_frequency chunk t);
          df = document_frequency (bm_chunks bm) t;
          avg = average_document_length ar (bm_chunks bm);
          idf = log1p ar (r (r (of_int (int n - int df) + 1 / 2) / r (of_nat df + 1 / 2)));
          norm = r (1 - bm_b bm);
          norm' = (if avg > 0
                   then r (norm + r (r (bm_b bm * of_nat (document_length chunk)) / avg))
                   else norm);
          denominator = r (f + r (bm_k1 bm * norm'))
      in r (idf * r (r (f * r (bm_k1 bm + 1)) / denominator)))"

definition chunk_score ::
  "arith \<Rightarrow> bm25_retriever \<Rightarrow> string list \<Rightarrow> provenance \<Rightarrow> pyfloat" where
  "chunk_score ar bm terms chunk =
     foldl (\<lambda>score t. if term_frequency chunk t = 0 then score
                      else rnd ar (score + term_score ar bm chunk t)) 0 terms"

definition scored_chunks ::
  "arith \<Rightarrow> bm25_retriever \<Rightarrow> string list \<Rightarrow> (pyfloat \<times> nat \<times> provenance) list" where
  "scored_chunks ar bm terms =
     filter (\<lambda>(score, order, chunk). 0 < score)
       (map (\<lambda>(order, chunk). (chunk_score ar bm terms chunk, order, chunk))
         (enumerate 0 (bm_chunks bm)))"

definition score_key :: "pyfloat \<times> nat \<times> provenance \<Rightarrow> pyfloat \<times> nat \<times> string" where
  "score_key = (\<lambda>(score, order, chunk). (- score, order, pv_chunk_id chunk))"

definition bm25_search ::
  "arith \<Rightarrow> bm25_retriever \<Rightarrow> string \<Rightarrow> nat \<Rightarrow> retrieval_exn + component_result list" where
  "bm25_search ar bm query top_k =
     (if \<not> (1 \<le> top_k \<and> top_k \<le> BM25_TOP_K_MAX) then Inl QueryValueErr
      else
        bindE (validate_raw_query query) (\<lambda>normalized.
          (let terms = unique_first (tokenize_for_bm25 normalized)
           in if terms = [] then Inl QueryValueErr
              else traverseE (\<lambda>(rank, score, order, chunk).
                     make_bm25_result \<lparr>cr_rank = rank, cr_score = score, cr_provenance = chunk\<rparr>)
                   (enumerate 1 (take top_k (sort_key score_key (scored_chunks ar bm terms)))))))"

section \<open>Lemmas: tokens\<close>

text \<open>A character that is neither a word character nor a separator ends every match.\<close>

definition is_gap :: "char \<Rightarrow> bool" where
  "is_gap c \<longleftrightarrow> \<not> is_word c \<and> \<not> is_separator c"

lemma match_more_gap:
  "is_gap g \<Longrightarrow> match_more (s @ g # s') =
     (case match_more s of (t, rest) \<Rightarrow> (t, rest @ g # s'))"
proof (induction s)
  case (Cons c s)
  then show ?case
    by (cases s) (auto simp: is_gap_def split: prod.splits)
qed (simp add: is_gap_def)

lemma find_tokens_gap:
  "is_gap g \<Longrightarrow> find_tokens (s @ g # s') = find_tokens s @ find_tokens s'"
proof (induction s rule: find_tokens.induct)
  case (2 c s)
  obtain t rest where m: "match_more s = (t, rest)" by fastforce
  with 2 show ?case
    by (simp add: match_more_gap)
qed (simp add: is_gap_def)

lemma tokenize_gap:
  "is_gap g \<Longrightarrow> tokenize_for_bm25 (s @ g # s') = tokenize_for_bm25 s @ tokenize_for_bm25 s'"
  by (simp add: tokenize_for_bm25_def find_tokens_gap)

lemma separator_not_word: "is_separator c \<Longrightarrow> \<not> is_word c"
  by (auto simp: is_separator_def is_word_bits)

lemma match_more_words:
  "\<forall>c \<in> set w. is_word c \<Longrightarrow>
   match_more (w @ s) = (case match_more s of (t, rest) \<Rightarrow> (w @ t, rest))"
  by (induction w) (auto split: prod.splits)

lemma hd_casefold_word: "s \<noteq> [] \<Longrightarrow> is_word (hd (casefold s)) = is_word (hd s)"
proof (cases s)
  case (Cons a r)
  then show ?thesis
    using fold_char_word [of a "hd (fold_char a)"] fold_char_other [of a]
    by (cases "is_word a") auto
qed simp

lemma casefold_eq_Nil [simp]: "casefold s = [] \<longleftrightarrow> s = []"
  by (cases s) auto

lemma match_more_casefold:
  "match_more (casefold s) = (case match_more s of (t, rest) \<Rightarrow> (casefold t, casefold rest))"
proof (induction s)
  case (Cons c s)
  show ?case
  proof (cases "is_word c")
    case True
    then have "\<forall>d \<in> set (fold_char c). is_word d" using fold_char_word by blast
    with True Cons show ?thesis
      by (simp add: match_more_words split: prod.splits)
  next
    case False
    with Cons show ?thesis
      by (cases "s = []") (simp_all add: fold_char_other hd_casefold_word split: prod.splits)
  qed
qed simp

lemma find_tokens_casefold: "find_tokens (casefold s) = map casefold (find_tokens s)"
proof (induction s rule: find_tokens.induct)
  case (2 c s)
  obtain t rest where m: "match_more s = (t, rest)" by fastforce
  show ?case
  proof (cases "is_word c")
    case True
    obtain d w where fold: "fold_char c = d # w" by (cases "fold_char c") auto
    then have words: "is_word d" "\<forall>e \<in> set w. is_word e"
      using fold_char_word [OF True] by auto
    have "match_more (w @ casefold s) = (w @ casefold t, casefold rest)"
      using m by (simp add: match_more_words [OF words(2)] match_more_casefold)
    then show ?thesis
      using True words(1) m 2(1)[OF True m [symmetric]] by (simp add: fold)
  next
    case False
    with 2(2) show ?thesis by (simp add: fold_char_other)
  qed
qed simp

lemma tokenize_casefold: "tokenize_for_bm25 (casefold s) = tokenize_for_bm25 s"
proof -
  have "token_family (casefold t) = token_family t" for t
    by (simp add: token_family_def)
  then show ?thesis
    by (simp add: tokenize_for_bm25_def find_tokens_casefold comp_def)
qed

section \<open>Lemmas: the ranking\<close>

lemma sorted_split:
  assumes "x \<in> set (take n (sort_key k xs))" "y \<in> set (drop n (sort_key k xs))"
  shows "k x \<le> k y"
proof -
  have "sorted_wrt (\<lambda>a b. k a \<le> k b) (take n (sort_key k xs) @ drop n (sort_key k xs))"
    using sorted_sort_key [of k xs] by (simp add: sorted_wrt_map)
  with assms show ?thesis
    unfolding sorted_wrt_append by blast
qed

lemma make_bm25_result_Inr [simp]:
  "make_bm25_result r = Inr r' \<longleftrightarrow>
     r' = r \<and> 0 < cr_rank r \<and> 0 < cr_score r \<and> valid_provenance (cr_provenance r)"
  by (auto simp: make_bm25_result_def)

lemma ranked_results:
  assumes "traverseE (\<lambda>(rank, score, order, chunk).
      make_bm25_result \<lparr>cr_rank = rank, cr_score = score, cr_provenance = chunk\<rparr>)
      (enumerate n xs) = Inr rs"
  shows "map cr_rank rs = [n ..< n + length xs]"
    and "map (\<lambda>r. (cr_score r, cr_provenance r)) rs = map (\<lambda>(s, i, c). (s, c)) xs"
proof -
  have "map cr_rank rs = [n ..< n + length xs]
    \<and> map (\<lambda>r. (cr_score r, cr_provenance r)) rs = map (\<lambda>(s, i, c). (s, c)) xs"
    using assms
  proof (induction xs arbitrary: n rs)
    case (Cons x xs)
    obtain s i c where x: "x = (s, i, c)" by (cases x)
    with Cons.prems obtain rs' where rs: "rs = \<lparr>cr_rank = n, cr_score = s, cr_provenance = c\<rparr> # rs'"
      and rest: "traverseE (\<lambda>(rank, score, order, chunk).
        make_bm25_result \<lparr>cr_rank = rank, cr_score = score, cr_provenance = chunk\<rparr>)
        (enumerate (Suc n) xs) = Inr rs'"
      by auto
    from Cons.IH [OF rest] show ?case
      by (simp add: rs x upt_conv_Cons del: upt_Suc)
  qed simp
  then show "map cr_rank rs = [n ..< n + length xs]"
    "map (\<lambda>r. (cr_score r, cr_provenance r)) rs = map (\<lambda>(s, i, c). (s, c)) xs"
    by blast+
qed

lemma ranked_results_total:
  assumes "\<forall>(s, i, c) \<in> set xs. 0 < s \<and> valid_provenance c" and "0 < n"
  shows "\<exists>rs. traverseE (\<lambda>(rank, score, order, chunk).
      make_bm25_result \<lparr>cr_rank = rank, cr_score = score, cr_provenance = chunk\<rparr>)
      (enumerate n xs) = Inr rs"
  using assms by (induction xs arbitrary: n) fastforce+

text \<open>The chunks of the index with their scores and positions; only a chunk that shares a
  token with the query can score.\<close>

lemma scored_chunks_iff:
  "(s, i, c) \<in> set (scored_chunks ar bm terms) \<longleftrightarrow>
     i < length (bm_chunks bm) \<and> c = bm_chunks bm ! i \<and> s = chunk_score ar bm terms c \<and> 0 < s"
  by (force simp: scored_chunks_def in_set_enumerate_eq)

lemma chunk_score_shared:
  assumes "chunk_score ar bm terms chunk \<noteq> 0"
  shows "\<exists>t \<in> set terms. t \<in> set (tokenize_for_bm25 (pv_text chunk))"
proof (rule ccontr)
  assume "\<not> ?thesis"
  then have "term_frequency chunk t = 0" if "t \<in> set terms" for t
    using that by (simp add: term_frequency_def count_list_0_iff)
  then have "chunk_score ar bm terms chunk = 0"
    unfolding chunk_score_def by (induction terms rule: rev_induct) simp_all
  with assms show False by contradiction
qed

lemma score_key_order: "sort_key score_key xs = sort_key (\<lambda>(s, i, c). (- s, i, pv_chunk_id c)) xs"
  by (simp add: score_key_def)

lemma set_unique_first [simp]: "set (unique_first xs) = set xs"
  by (simp add: unique_first_def)

end
