(* ===== verification/OrderedDict.thy ===== *)
theory OrderedDict
  imports Prelude
begin

text \<open>
  Python's \<open>dict\<close> where the insertion order matters, as an association list: the entries in
  the order in which their keys were first stored.  Reading is \<^const>\<open>map_of\<close>.

  \<open>chunks_of n\<close> is the slicing loop \<open>for offset in range(0, len(xs), n)\<close>.
\<close>

fun dict_store :: "'k \<Rightarrow> 'v \<Rightarrow> ('k \<times> 'v) list \<Rightarrow> ('k \<times> 'v) list" where
  "dict_store k v [] = [(k, v)]"
| "dict_store k v ((k', v') # d) =
     (if k = k' then (k, v) # d else (k', v') # dict_store k v d)"

definition setdefault_append :: "'k \<Rightarrow> 'v \<Rightarrow> ('k \<times> 'v list) list \<Rightarrow> ('k \<times> 'v list) list" where
  "setdefault_append k x d =
     dict_store k ((case map_of d k of None \<Rightarrow> [] | Some xs \<Rightarrow> xs) @ [x]) d"

definition group_by :: "('a \<Rightarrow> 'k) \<Rightarrow> 'a list \<Rightarrow> ('k \<times> 'a list) list" where
  "group_by key xs = foldl (\<lambda>d x. setdefault_append (key x) x d) [] xs"

function chunks_of :: "nat \<Rightarrow> 'a list \<Rightarrow> 'a list list" where
  "chunks_of n xs = (if xs = [] \<or> n = 0 then [] else take n xs # chunks_of n (drop n xs))"
  by pat_completeness auto

termination
  by (relation "measure (\<lambda>(n, xs). length xs)") auto

declare chunks_of.simps [simp del]

section \<open>Storing\<close>

lemma map_of_dict_store [simp]:
  "map_of (dict_store k v d) = (map_of d)(k \<mapsto> v)"
  by (induction k v d rule: dict_store.induct) (auto simp: fun_eq_iff)

lemma keys_dict_store:
  "map fst (dict_store k v d) = (if k \<in> fst ` set d then map fst d else map fst d @ [k])"
  by (induction k v d rule: dict_store.induct) auto

lemma distinct_dict_store:
  "distinct (map fst d) \<Longrightarrow> distinct (map fst (dict_store k v d))"
  by (auto simp: keys_dict_store)

lemma dict_store_mset:
  assumes "distinct (map fst d)"
  shows "mset (dict_store k v d) =
     add_mset (k, v) (filter_mset (\<lambda>e. fst e \<noteq> k) (mset d))"
  using assms
proof (induction k v d rule: dict_store.induct)
  case (2 k v k' v' d)
  have "filter_mset (\<lambda>e. fst e \<noteq> k) (mset d) = mset d" if "k = k'"
    using "2.prems" that by (auto simp: filter_mset_eq_conv)
  with 2 show ?case by auto
qed simp

section \<open>Grouping\<close>

lemma group_by_snoc:
  "group_by key (xs @ [x]) = setdefault_append (key x) x (group_by key xs)"
  by (simp add: group_by_def)

lemma group_by_keys:
  "distinct (map fst (group_by key xs)) \<and> set (map fst (group_by key xs)) = key ` set xs"
proof (induction xs rule: rev_induct)
  case Nil
  then show ?case by (simp add: group_by_def)
next
  case (snoc x xs)
  then show ?case
    by (auto simp: group_by_snoc setdefault_append_def keys_dict_store)
qed

lemma map_of_group_by:
  "map_of (group_by key xs) k =
     (if k \<in> key ` set xs then Some (filter (\<lambda>x. key x = k) xs) else None)"
proof (induction xs arbitrary: k rule: rev_induct)
  case Nil
  then show ?case by (simp add: group_by_def)
next
  case (snoc x xs)
  show ?case
  proof (cases "key x \<in> key ` set xs")
    case True
    with snoc [of "key x"] have "map_of (group_by key xs) (key x)
        = Some (filter (\<lambda>y. key y = key x) xs)" by simp
    with True snoc show ?thesis
      by (auto simp: group_by_snoc setdefault_append_def)
  next
    case False
    then have "filter (\<lambda>y. key y = key x) xs = []"
      by (auto simp: filter_empty_conv image_iff)
    moreover from False snoc [of "key x"] have "map_of (group_by key xs) (key x) = None" by simp
    ultimately show ?thesis
      using False snoc by (auto simp: group_by_snoc setdefault_append_def)
  qed
qed

lemma group_by_entry:
  "(k, ys) \<in> set (group_by key xs) \<longleftrightarrow>
     k \<in> key ` set xs \<and> ys = filter (\<lambda>x. key x = k) xs"
proof -
  have "(k, ys) \<in> set (group_by key xs) \<longleftrightarrow> map_of (group_by key xs) k = Some ys"
    by (simp add: group_by_keys)
  then show ?thesis
    by (auto simp: map_of_group_by)
qed

lemma filter_key:
  "distinct (map fst d) \<Longrightarrow> (k, v) \<in> set d \<Longrightarrow> filter (\<lambda>e. fst e = k) d = [(k, v)]"
  by (induction d) (auto simp: filter_empty_conv, force+)

lemma group_by_mset:
  "\<Sum>\<^sub># (image_mset (\<lambda>(k, ys). mset ys) (mset (group_by key xs))) = mset xs"
proof (induction xs rule: rev_induct)
  case Nil
  then show ?case by (simp add: group_by_def)
next
  case (snoc x xs)
  let ?d = "group_by key xs"
  have d: "distinct (map fst ?d)"
    by (simp add: group_by_keys)
  have split: "mset ?d = filter_mset (\<lambda>e. fst e = key x) (mset ?d)
      + filter_mset (\<lambda>e. fst e \<noteq> key x) (mset ?d)"
    by (rule multiset_partition)
  show ?case
  proof (cases "map_of ?d (key x)")
    case None
    then have "\<forall>e \<in> set ?d. fst e \<noteq> key x"
      by (force simp: map_of_eq_None_iff)
    then have "filter_mset (\<lambda>e. fst e \<noteq> key x) (mset ?d) = mset ?d"
      by (auto simp: filter_mset_eq_conv)
    with None snoc show ?thesis
      by (simp add: group_by_snoc setdefault_append_def dict_store_mset [OF d])
  next
    case (Some ys)
    then have e: "(key x, ys) \<in> set ?d" by (rule map_of_SomeD)
    have "filter (\<lambda>e. fst e = key x) ?d = [(key x, ys)]"
      by (rule filter_key [OF d e])
    then have "filter_mset (\<lambda>e. fst e = key x) (mset ?d) = {#(key x, ys)#}"
      by (metis mset_filter mset.simps)
    with split have "mset ?d = add_mset (key x, ys) (filter_mset (\<lambda>e. fst e \<noteq> key x) (mset ?d))"
      by simp
    with snoc have "mset xs = mset ys +
        \<Sum>\<^sub># (image_mset (\<lambda>(k, ys). mset ys) (filter_mset (\<lambda>e. fst e \<noteq> key x) (mset ?d)))"
      by (metis (no_types, lifting) case_prod_conv image_mset_add_mset sum_mset.add_mset)
    with Some show ?thesis
      by (simp add: group_by_snoc setdefault_append_def dict_store_mset [OF d])
  qed
qed

section \<open>Slicing\<close>

lemma concat_chunks: "0 < n \<Longrightarrow> concat (chunks_of n xs) = xs"
  by (induction n xs rule: chunks_of.induct) (subst chunks_of.simps, simp)

lemma chunks_size: "c \<in> set (chunks_of n xs) \<Longrightarrow> c \<noteq> [] \<and> length c \<le> n"
proof (induction n xs rule: chunks_of.induct)
  case (1 n xs)
  then show ?case
    by (subst (asm) chunks_of.simps) (auto split: if_splits)
qed

lemma chunks_sorted:
  "sorted_wrt R xs \<Longrightarrow> \<forall>c \<in> set (chunks_of n xs). sorted_wrt R c"
proof (induction n xs rule: chunks_of.induct)
  case (1 n xs)
  then show ?case
    by (subst chunks_of.simps) (auto simp: sorted_wrt_take sorted_wrt_drop)
qed

lemma chunks_heads:
  "sorted_wrt R xs \<Longrightarrow> sorted_wrt R (map hd (chunks_of n xs))"
proof (induction n xs rule: chunks_of.induct)
  case (1 n xs)
  show ?case
  proof (cases "xs = [] \<or> n = 0")
    case False
    have "R (hd (take n xs)) (hd c)" if "c \<in> set (chunks_of n (drop n xs))" for c
    proof -
      from that have "hd c \<in> set (drop n xs)"
        using chunks_size [OF that] concat_chunks [of n "drop n xs"] False
        by (metis hd_in_set neq0_conv UN_I set_concat)
      moreover have "hd (take n xs) \<in> set (take n xs)"
        using False by (intro hd_in_set) simp
      moreover have "sorted_wrt R (take n xs @ drop n xs)"
        using 1(2) by simp
      ultimately show ?thesis
        unfolding sorted_wrt_append by blast
    qed
    with 1 False show ?thesis
      by (subst chunks_of.simps) (simp add: sorted_wrt_drop)
  qed (subst chunks_of.simps, simp)
qed

end
