(* ===== verification/HybridRrf.thy ===== *)
theory HybridRrf
  imports Bm25 OrderedDict
begin

text \<open>
  \<open>app/retrieval/hybrid.py\<close>: reciprocal rank fusion of the two top-8 lists.  The rounding of
  the floating-point sums is the argument \<open>rnd\<close> of \<open>Bm25\<close>; the two searches of
  \<open>HybridRetriever\<close> are arguments too, because they may be any object with a \<open>search\<close>.
\<close>

definition HYBRID_CANDIDATE_TOP_K :: nat where "HYBRID_CANDIDATE_TOP_K = 8"
definition HYBRID_FINAL_TOP_K :: nat where "HYBRID_FINAL_TOP_K = 3"

record hybrid_result =
  hs_rank :: nat
  hs_rrf_score :: pyfloat
  hs_bm25_rank :: "nat option"
  hs_dense_rank :: "nat option"
  hs_bm25_score :: "pyfloat option"
  hs_dense_score :: "pyfloat option"
  hs_provenance :: provenance

record hybrid_response =
  hy_query :: string
  hy_rrf_k :: nat
  hy_results :: "hybrid_result list"
  hy_top_results :: "hybrid_result list"

definition valid_rank :: "nat option \<Rightarrow> bool" where
  "valid_rank r \<longleftrightarrow> (case r of None \<Rightarrow> True | Some n \<Rightarrow> 0 < n \<and> n \<le> HYBRID_CANDIDATE_TOP_K)"

definition make_hybrid_result :: "hybrid_result \<Rightarrow> retrieval_exn + hybrid_result" where
  "make_hybrid_result r =
     (if 0 < hs_rank r \<and> 0 < hs_rrf_score r \<and> valid_rank (hs_bm25_rank r)
         \<and> valid_rank (hs_dense_rank r) \<and> valid_provenance (hs_provenance r)
         \<and> (hs_bm25_rank r = None) = (hs_bm25_score r = None)
         \<and> (hs_dense_rank r = None) = (hs_dense_score r = None)
         \<and> \<not> (hs_bm25_rank r = None \<and> hs_dense_rank r = None)
      then Inr r else Inl ResultErr)"

definition make_hybrid_response :: "hybrid_response \<Rightarrow> retrieval_exn + hybrid_response" where
  "make_hybrid_response r =
     (if hy_query r \<noteq> [] \<and> 0 < hy_rrf_k r \<and> hy_rrf_k r \<le> 1000
         \<and> length (hy_results r) \<le> 16 \<and> length (hy_top_results r) \<le> HYBRID_FINAL_TOP_K
         \<and> map hs_rank (hy_results r) = [1 ..< length (hy_results r) + 1]
         \<and> hy_top_results r = take HYBRID_FINAL_TOP_K (hy_results r)
      then Inr r else Inl ResultErr)"

section \<open>Candidates\<close>

record fusion_candidate =
  fc_provenance :: provenance
  fc_bm25_rank :: "nat option"
  fc_dense_rank :: "nat option"
  fc_bm25_score :: "pyfloat option"
  fc_dense_score :: "pyfloat option"
  fc_rrf_score :: pyfloat

datatype component = BM25 | DENSE

definition new_candidate :: "provenance \<Rightarrow> fusion_candidate" where
  "new_candidate p = \<lparr>fc_provenance = p, fc_bm25_rank = None, fc_dense_rank = None,
     fc_bm25_score = None, fc_dense_score = None, fc_rrf_score = 0\<rparr>"

definition cr_chunk_id :: "component_result \<Rightarrow> string" where
  "cr_chunk_id r = pv_chunk_id (cr_provenance r)"

definition validate_component :: "component_result list \<Rightarrow> retrieval_exn + unit" where
  "validate_component results =
     (if length results > HYBRID_CANDIDATE_TOP_K then Inl FusionErr
      else if \<not> distinct (map cr_chunk_id results) then Inl FusionErr
      else if sort (map cr_rank results) \<noteq> [1 ..< length results + 1] then Inl FusionErr
      else Inr ())"

definition add_rank ::
  "(rat \<Rightarrow> pyfloat) \<Rightarrow> nat \<Rightarrow> component \<Rightarrow> component_result \<Rightarrow> fusion_candidate
     \<Rightarrow> fusion_candidate" where
  "add_rank rn k which r c =
     (let c' = (case which of
          BM25 \<Rightarrow> c\<lparr>fc_bm25_rank := Some (cr_rank r), fc_bm25_score := Some (cr_score r)\<rparr>
        | DENSE \<Rightarrow> c\<lparr>fc_dense_rank := Some (cr_rank r), fc_dense_score := Some (cr_score r)\<rparr>)
      in c'\<lparr>fc_rrf_score := rn (fc_rrf_score c' + rn (1 / of_nat (k + cr_rank r)))\<rparr>)"

text \<open>The inner loop, over the results of one component in the order of their ranks.\<close>

fun add_results ::
  "(rat \<Rightarrow> pyfloat) \<Rightarrow> nat \<Rightarrow> component \<Rightarrow> component_result list
     \<Rightarrow> (string \<times> fusion_candidate) list \<Rightarrow> retrieval_exn + (string \<times> fusion_candidate) list"
where
  "add_results rn k which [] candidates = Inr candidates"
| "add_results rn k which (r # rs) candidates =
     (case map_of candidates (cr_chunk_id r) of
        None \<Rightarrow> add_results rn k which rs
          (dict_store (cr_chunk_id r) (add_rank rn k which r (new_candidate (cr_provenance r)))
             candidates)
      | Some candidate \<Rightarrow>
          if fc_provenance candidate \<noteq> cr_provenance r then Inl FusionErr
          else add_results rn k which rs
            (dict_store (cr_chunk_id r) (add_rank rn k which r candidate) candidates))"

definition ranks_of :: "fusion_candidate \<Rightarrow> nat list" where
  "ranks_of c = (case fc_bm25_rank c of None \<Rightarrow> [] | Some r \<Rightarrow> [r])
     @ (case fc_dense_rank c of None \<Rightarrow> [] | Some r \<Rightarrow> [r])"

definition rank_or_missing :: "nat option \<Rightarrow> nat" where
  "rank_or_missing r =
     (case r of None \<Rightarrow> HYBRID_CANDIDATE_TOP_K + 1
      | Some n \<Rightarrow> if n = 0 then HYBRID_CANDIDATE_TOP_K + 1 else n)"

definition ranking_key ::
  "string \<times> fusion_candidate \<Rightarrow> pyfloat \<times> nat \<times> nat \<times> string" where
  "ranking_key = (\<lambda>(chunk_id, c).
     (- fc_rrf_score c, foldr min (tl (ranks_of c)) (hd (ranks_of c)),
      rank_or_missing (fc_bm25_rank c) + rank_or_missing (fc_dense_rank c), chunk_id))"

definition hybrid_result_of :: "nat \<times> string \<times> fusion_candidate \<Rightarrow> hybrid_result" where
  "hybrid_result_of = (\<lambda>(rank, chunk_id, c).
     \<lparr>hs_rank = rank, hs_rrf_score = fc_rrf_score c, hs_bm25_rank = fc_bm25_rank c,
      hs_dense_rank = fc_dense_rank c, hs_bm25_score = fc_bm25_score c,
      hs_dense_score = fc_dense_score c, hs_provenance = fc_provenance c\<rparr>)"

definition reciprocal_rank_fusion ::
  "(rat \<Rightarrow> pyfloat) \<Rightarrow> string \<Rightarrow> component_result list \<Rightarrow> component_result list \<Rightarrow> nat
     \<Rightarrow> retrieval_exn + hybrid_response" where
  "reciprocal_rank_fusion rn query bm25_results dense_results k =
     bindE (validate_raw_query query) (\<lambda>normalized.
       if \<not> (1 \<le> k \<and> k \<le> 1000) then Inl QueryValueErr
       else
         bindE (validate_component bm25_results) (\<lambda>_.
         bindE (validate_component dense_results) (\<lambda>_.
         bindE (add_results rn k BM25 (sort_key cr_rank bm25_results) []) (\<lambda>candidates1.
         bindE (add_results rn k DENSE (sort_key cr_rank dense_results) candidates1)
           (\<lambda>candidates.
         bindE (traverseE (make_hybrid_result \<circ> hybrid_result_of)
                  (enumerate 1 (sort_key ranking_key candidates))) (\<lambda>results.
           make_hybrid_response
             \<lparr>hy_query = normalized, hy_rrf_k = k, hy_results = results,
              hy_top_results = take HYBRID_FINAL_TOP_K results\<rparr>))))))"

text \<open>\<open>HybridRetriever.search\<close> on two search functions.\<close>

definition hybrid_search ::
  "(rat \<Rightarrow> pyfloat) \<Rightarrow> (string \<Rightarrow> nat \<Rightarrow> retrieval_exn + component_result list)
     \<Rightarrow> (string \<Rightarrow> nat \<Rightarrow> retrieval_exn + component_result list) \<Rightarrow> nat \<Rightarrow> string
     \<Rightarrow> retrieval_exn + hybrid_response" where
  "hybrid_search rn bm25 dense k query =
     bindE (validate_raw_query query) (\<lambda>normalized.
       if tokenize_for_bm25 normalized = [] then Inl QueryValueErr
       else
         bindE (bm25 normalized HYBRID_CANDIDATE_TOP_K) (\<lambda>bm25_results.
         bindE (dense normalized HYBRID_CANDIDATE_TOP_K) (\<lambda>dense_results.
           reciprocal_rank_fusion rn normalized bm25_results dense_results k)))"

section \<open>The candidates of the two components\<close>

definition find_result :: "component_result list \<Rightarrow> string \<Rightarrow> component_result option" where
  "find_result rs i = map_of (map (\<lambda>r. (cr_chunk_id r, r)) rs) i"

lemma find_result_Some:
  "distinct (map cr_chunk_id rs) \<Longrightarrow> find_result rs i = Some r \<longleftrightarrow> r \<in> set rs \<and> cr_chunk_id r = i"
  by (auto simp: find_result_def map_of_eq_Some_iff comp_def)

lemma find_result_Cons:
  "find_result (r # rs) i = (if i = cr_chunk_id r then Some r else find_result rs i)"
  by (auto simp: find_result_def)

text \<open>What adding a component does to the candidate of one chunk.\<close>

definition with_component ::
  "(rat \<Rightarrow> pyfloat) \<Rightarrow> nat \<Rightarrow> component \<Rightarrow> component_result list \<Rightarrow> fusion_candidate option
     \<Rightarrow> string \<Rightarrow> fusion_candidate option" where
  "with_component rn k which rs old i =
     (case find_result rs i of
        None \<Rightarrow> old
      | Some r \<Rightarrow> Some (add_rank rn k which r
          (case old of None \<Rightarrow> new_candidate (cr_provenance r) | Some c \<Rightarrow> c)))"

definition agrees :: "component_result list \<Rightarrow> (string \<times> fusion_candidate) list \<Rightarrow> bool" where
  "agrees rs d \<longleftrightarrow>
     (\<forall>r \<in> set rs. \<forall>c. map_of d (cr_chunk_id r) = Some c \<longrightarrow> fc_provenance c = cr_provenance r)"

lemma add_results_spec:
  assumes "distinct (map cr_chunk_id rs)"
  shows "((\<exists>d'. add_results rn k which rs d = Inr d') \<longleftrightarrow> agrees rs d)
    \<and> (\<forall>d'. add_results rn k which rs d = Inr d' \<longrightarrow>
      (\<forall>i. map_of d' i = with_component rn k which rs (map_of d i) i)
      \<and> (distinct (map fst d) \<longrightarrow> distinct (map fst d')))"
  using assms
proof (induction rs arbitrary: d)
  case Nil
  then show ?case by (simp add: with_component_def find_result_def agrees_def)
next
  case (Cons r rs)
  then have ids: "distinct (map cr_chunk_id rs)" "\<forall>q \<in> set rs. cr_chunk_id q \<noteq> cr_chunk_id r"
    by (auto simp: image_iff)
  have none: "find_result rs (cr_chunk_id r) = None"
    using ids(2) by (force simp: find_result_def map_of_eq_None_iff)
  define c where "c = (case map_of d (cr_chunk_id r) of
      None \<Rightarrow> new_candidate (cr_provenance r) | Some c \<Rightarrow> c)"
  define d1 where "d1 = dict_store (cr_chunk_id r) (add_rank rn k which r c) d"
  have keep: "agrees rs d1 = agrees rs d"
    using ids(2) by (simp add: d1_def agrees_def)
  have step: "add_results rn k which (r # rs) d =
      (if agrees [r] d then add_results rn k which rs d1 else Inl FusionErr)"
    by (auto simp: d1_def c_def agrees_def split: option.splits)
  have same: "with_component rn k which rs (map_of d1 i) i
      = with_component rn k which (r # rs) (map_of d i) i" for i
    using none by (auto simp: with_component_def find_result_Cons d1_def c_def split: option.splits)
  have keys: "distinct (map fst d) \<Longrightarrow> distinct (map fst d1)"
    unfolding d1_def by (rule distinct_dict_store)
  have "agrees (r # rs) d \<longleftrightarrow> agrees [r] d \<and> agrees rs d"
    by (simp add: agrees_def)
  with Cons.IH [OF ids(1), of d1] keys keep show ?case
    unfolding step same by auto
qed

lemmas add_results_total = add_results_spec [THEN conjunct1]
  and add_results_value = add_results_spec [THEN conjunct2, rule_format]

section \<open>The fused candidates\<close>

text \<open>What the code relies on in the arithmetic of \<open>float\<close>: rounding is monotone and leaves a
  representable number alone; zero and \<open>1/1024\<close> are representable.\<close>

definition ieee_rounding :: "(rat \<Rightarrow> pyfloat) \<Rightarrow> bool" where
  "ieee_rounding rn \<longleftrightarrow>
     mono rn \<and> (\<forall>x. rn (rn x) = rn x) \<and> rn 0 = 0 \<and> rn (1 / 1024) = 1 / 1024"

lemma ieee_rounding_id: "ieee_rounding (\<lambda>x. x)"
  by (simp add: ieee_rounding_def mono_def)

text \<open>The score of a chunk from its ranks.\<close>

definition rrf_value :: "(rat \<Rightarrow> pyfloat) \<Rightarrow> nat \<Rightarrow> nat option \<Rightarrow> nat option \<Rightarrow> pyfloat" where
  "rrf_value rn k b d =
     (let s = (case b of None \<Rightarrow> 0 | Some r \<Rightarrow> rn (1 / of_nat (k + r)))
      in case d of None \<Rightarrow> s | Some r \<Rightarrow> rn (s + rn (1 / of_nat (k + r))))"

definition fused ::
  "(rat \<Rightarrow> pyfloat) \<Rightarrow> nat \<Rightarrow> component_result option \<Rightarrow> component_result option
     \<Rightarrow> fusion_candidate option" where
  "fused rn k b d =
     (if b = None \<and> d = None then None
      else Some \<lparr>fc_provenance = cr_provenance (case b of None \<Rightarrow> the d | Some r \<Rightarrow> r),
        fc_bm25_rank = map_option cr_rank b, fc_dense_rank = map_option cr_rank d,
        fc_bm25_score = map_option cr_score b, fc_dense_score = map_option cr_score d,
        fc_rrf_score = rrf_value rn k (map_option cr_rank b) (map_option cr_rank d)\<rparr>)"

lemma with_components_fused:
  assumes "ieee_rounding rn"
  shows "with_component rn k DENSE ds (with_component rn k BM25 bs None i) i
     = fused rn k (find_result bs i) (find_result ds i)"
  using assms
  by (auto simp: with_component_def fused_def add_rank_def new_candidate_def rrf_value_def Let_def
      ieee_rounding_def split: option.splits)

lemma find_result_sort:
  assumes "distinct (map cr_chunk_id rs)"
  shows "find_result (sort_key cr_rank rs) i = find_result rs i"
proof -
  have "distinct (map cr_chunk_id (sort_key cr_rank rs))"
    using assms by (simp add: distinct_map)
  then have "find_result (sort_key cr_rank rs) i = Some r \<longleftrightarrow> find_result rs i = Some r" for r
    by (simp add: find_result_Some assms)
  then show ?thesis
    by (metis not_None_eq)
qed

lemma find_result_None: "find_result rs i = None \<longleftrightarrow> i \<notin> cr_chunk_id ` set rs"
  by (force simp: find_result_def map_of_eq_None_iff)

definition consistent :: "component_result list \<Rightarrow> component_result list \<Rightarrow> bool" where
  "consistent bs ds \<longleftrightarrow>
     (\<forall>b \<in> set bs. \<forall>d \<in> set ds. cr_chunk_id b = cr_chunk_id d
        \<longrightarrow> cr_provenance b = cr_provenance d)"

text \<open>The dictionary after both components.\<close>

lemma candidates_exact:
  assumes rn: "ieee_rounding rn"
    and ids: "distinct (map cr_chunk_id bs)" "distinct (map cr_chunk_id ds)"
    and first: "add_results rn k BM25 (sort_key cr_rank bs) [] = Inr d1"
    and second: "add_results rn k DENSE (sort_key cr_rank ds) d1 = Inr d2"
  shows "distinct (map fst d2)"
    and "map_of d2 i = fused rn k (find_result bs i) (find_result ds i)"
proof -
  have ids': "distinct (map cr_chunk_id (sort_key cr_rank bs))"
    "distinct (map cr_chunk_id (sort_key cr_rank ds))"
    using ids by (simp_all add: distinct_map)
  from add_results_value [OF ids'(1) first] add_results_value [OF ids'(2) second]
  show "distinct (map fst d2)" by simp
  from add_results_value [OF ids'(1) first] add_results_value [OF ids'(2) second]
  have "map_of d2 i = with_component rn k DENSE (sort_key cr_rank ds)
      (with_component rn k BM25 (sort_key cr_rank bs) None i) i"
    by simp
  then show "map_of d2 i = fused rn k (find_result bs i) (find_result ds i)"
    unfolding with_components_fused [OF rn] using ids by (simp add: find_result_sort)
qed

lemma candidates_total:
  assumes ids: "distinct (map cr_chunk_id bs)" "distinct (map cr_chunk_id ds)"
    and first: "add_results rn k BM25 (sort_key cr_rank bs) [] = Inr d1"
  shows "(\<exists>d2. add_results rn k DENSE (sort_key cr_rank ds) d1 = Inr d2) \<longleftrightarrow> consistent bs ds"
proof -
  have ids': "distinct (map cr_chunk_id (sort_key cr_rank bs))"
    "distinct (map cr_chunk_id (sort_key cr_rank ds))"
    using ids by (simp_all add: distinct_map)
  have old: "map_of d1 i = with_component rn k BM25 (sort_key cr_rank bs) None i" for i
    using add_results_value [OF ids'(1) first] by simp
  have each: "(\<forall>c. map_of d1 (cr_chunk_id d) = Some c \<longrightarrow> fc_provenance c = cr_provenance d)
      \<longleftrightarrow> (\<forall>b \<in> set bs. cr_chunk_id b = cr_chunk_id d \<longrightarrow> cr_provenance b = cr_provenance d)" for d
  proof (cases "find_result bs (cr_chunk_id d)")
    case None
    then have "map_of d1 (cr_chunk_id d) = None"
      by (simp add: old with_component_def find_result_sort ids)
    moreover from None have "cr_chunk_id b \<noteq> cr_chunk_id d" if "b \<in> set bs" for b
      using that by (force simp: find_result_None image_iff)
    ultimately show ?thesis
      by simp
  next
    case (Some b)
    have prov: "fc_provenance (add_rank rn k BM25 b c) = fc_provenance c" for c
      by (simp add: add_rank_def Let_def)
    from Some have "b \<in> set bs" "cr_chunk_id b = cr_chunk_id d"
      by (simp_all add: find_result_Some ids)
    moreover have "b' = b" if "b' \<in> set bs" "cr_chunk_id b' = cr_chunk_id d" for b'
      using that Some find_result_Some [OF ids(1), of "cr_chunk_id d" b'] by simp
    ultimately have "(\<forall>b \<in> set bs. cr_chunk_id b = cr_chunk_id d \<longrightarrow> cr_provenance b = cr_provenance d)
        \<longleftrightarrow> cr_provenance b = cr_provenance d"
      by blast
    moreover have "map_of d1 (cr_chunk_id d)
        = Some (add_rank rn k BM25 b (new_candidate (cr_provenance b)))"
      using Some by (simp add: old with_component_def find_result_sort ids)
    ultimately show ?thesis
      by (simp add: prov) (simp add: new_candidate_def)
  qed
  have "agrees (sort_key cr_rank ds) d1 \<longleftrightarrow> (\<forall>d \<in> set ds. \<forall>b \<in> set bs.
      cr_chunk_id b = cr_chunk_id d \<longrightarrow> cr_provenance b = cr_provenance d)"
    unfolding agrees_def each by simp
  then show ?thesis
    unfolding add_results_total [OF ids'(2)] consistent_def by blast
qed

section \<open>The fusion\<close>

lemma validate_component_facts:
  assumes "validate_component rs = Inr u"
  shows "length rs \<le> 8" "distinct (map cr_chunk_id rs)"
    and "r \<in> set rs \<Longrightarrow> 1 \<le> cr_rank r \<and> cr_rank r \<le> 8"
proof -
  from assms have facts: "length rs \<le> 8" "distinct (map cr_chunk_id rs)"
    "sort (map cr_rank rs) = [1 ..< length rs + 1]"
    by (auto simp: validate_component_def HYBRID_CANDIDATE_TOP_K_def split: if_splits)
  then show "length rs \<le> 8" "distinct (map cr_chunk_id rs)" by blast+
  have "set (map cr_rank rs) = {1 ..< length rs + 1}"
    by (metis facts(3) set_sort set_upt)
  then show "r \<in> set rs \<Longrightarrow> 1 \<le> cr_rank r \<and> cr_rank r \<le> 8"
  proof -
    assume "r \<in> set rs"
    then have "cr_rank r \<in> {1 ..< length rs + 1}"
      using \<open>set (map cr_rank rs) = _\<close> by force
    with facts(1) show ?thesis by simp
  qed
qed

lemma small_reciprocal: "1 \<le> k \<Longrightarrow> k \<le> 1000 \<Longrightarrow> r \<le> 8 \<Longrightarrow> 1 / 1024 \<le> 1 / (of_nat (k + r) :: rat)"
proof -
  assume "1 \<le> k" "k \<le> 1000" "r \<le> 8"
  then have "(of_nat (k + r) :: rat) \<le> of_nat 1024" "0 < (of_nat (k + r) :: rat)"
    by (simp_all del: of_nat_add)
  then show ?thesis
    by (intro divide_left_mono) (simp_all del: of_nat_add)
qed

lemma rounded_reciprocal:
  assumes "ieee_rounding rn" "1 \<le> k" "k \<le> 1000" "r \<le> 8"
  shows "1 / 1024 \<le> rn (1 / of_nat (k + r))"
  using assms small_reciprocal [OF assms(2-4)] monoD [of rn "1 / 1024" "1 / of_nat (k + r)"]
  by (simp add: ieee_rounding_def)

lemma rounded_nonneg: "ieee_rounding rn \<Longrightarrow> 0 \<le> x \<Longrightarrow> 0 \<le> rn x"
  using monoD [of rn 0 x] by (simp add: ieee_rounding_def)

lemma rounded_mono: "ieee_rounding rn \<Longrightarrow> x \<le> y \<Longrightarrow> rn x \<le> rn y"
  by (simp add: ieee_rounding_def monoD)

definition ranks_ok :: "nat option \<Rightarrow> bool" where
  "ranks_ok r \<longleftrightarrow> (case r of None \<Rightarrow> True | Some n \<Rightarrow> 1 \<le> n \<and> n \<le> 8)"

lemma rrf_value_pos:
  assumes "ieee_rounding rn" "1 \<le> k" "k \<le> 1000" "ranks_ok b" "ranks_ok d" "\<not> (b = None \<and> d = None)"
  shows "0 < rrf_value rn k b d"
proof -
  have c: "1 / 1024 \<le> rn (1 / of_nat (k + r))" if "r \<le> 8" for r
    using assms that by (intro rounded_reciprocal) simp_all
  have "1 / 1024 \<le> rn (s + rn (1 / of_nat (k + r)))" if "r \<le> 8" "0 \<le> s" for r s
    using rounded_mono [OF assms(1), of "1 / 1024" "s + rn (1 / of_nat (k + r))"] c [OF that(1)]
      that(2) assms(1) by (simp add: ieee_rounding_def)
  note more = this
  have nonneg: "0 \<le> rn (1 / of_nat (k + r))" for r
    by (rule rounded_nonneg [OF assms(1)]) simp
  show ?thesis
  proof (cases d)
    case None
    with assms(6) obtain r where b: "b = Some r" by auto
    with assms(4) have "r \<le> 8" by (simp add: ranks_ok_def)
    from c [OF this] show ?thesis by (simp add: rrf_value_def b None del: of_nat_add)
  next
    case (Some r)
    with assms(5) have r: "r \<le> 8" by (simp add: ranks_ok_def)
    have "0 \<le> (case b of None \<Rightarrow> 0 | Some r \<Rightarrow> rn (1 / of_nat (k + r)))"
      using nonneg by (simp split: option.split del: of_nat_add)
    from more [OF r this] show ?thesis by (simp add: rrf_value_def Some del: of_nat_add)
  qed
qed

text \<open>A better rank never gives a smaller score.\<close>

lemma rrf_value_mono:
  assumes rn: "ieee_rounding rn"
    and ok: "ranks_ok b" "ranks_ok d" "ranks_ok b'" "ranks_ok d'"
    and k: "1 \<le> k"
    and le: "rank_or_missing b \<le> rank_or_missing b'" "rank_or_missing d \<le> rank_or_missing d'"
  shows "rrf_value rn k b' d' \<le> rrf_value rn k b d"
proof -
  define part where "part r = (case r of None \<Rightarrow> 0 | Some n \<Rightarrow> rn (1 / of_nat (k + n)))"
    for r :: "nat option"
  have nonneg: "0 \<le> part r" for r
    unfolding part_def by (cases r) (simp_all add: rounded_nonneg [OF rn])
  have part_le: "part r' \<le> part r" if "ranks_ok r" "ranks_ok r'"
    "rank_or_missing r \<le> rank_or_missing r'" for r r'
  proof (cases r')
    case None
    then show ?thesis using nonneg [of r] by (simp add: part_def)
  next
    case (Some n')
    with that obtain n where n: "r = Some n" "n \<le> n'"
      by (cases r) (auto simp: rank_or_missing_def ranks_ok_def HYBRID_CANDIDATE_TOP_K_def)
    have "1 / (of_nat (k + n') :: rat) \<le> 1 / of_nat (k + n)"
      using n k by (intro divide_left_mono) (simp_all del: of_nat_add)
    with n Some show ?thesis
      by (simp add: part_def rounded_mono [OF rn] del: of_nat_add)
  qed
  have fixed: "rn (part r) = part r" for r
    using rn by (cases r) (simp_all add: part_def ieee_rounding_def)
  have "rrf_value rn k x y = rn (part x + part y)" for x y
    using fixed [of x] by (cases y) (simp_all add: rrf_value_def part_def)
  moreover have "part b' + part d' \<le> part b + part d"
    using part_le ok le by (intro add_mono) auto
  ultimately show ?thesis
    using rounded_mono [OF rn] by simp
qed

end
