(* ===== verification/RetrievalProps.thy ===== *)
theory RetrievalProps
  imports HybridRrf
begin

text \<open>
  The properties of the BM25 ranking and of reciprocal rank fusion.
\<close>

section \<open>BM25\<close>

text \<open>C25: tokenizing does not depend on case, and a character that belongs to no token (a space,
  say) separates: the tokens of a text are those of its parts.\<close>

theorem tokenize_compositional:
  assumes "is_gap g"
  shows "tokenize_for_bm25 (s @ g # s') = tokenize_for_bm25 s @ tokenize_for_bm25 s'
     \<and> tokenize_for_bm25 (casefold s) = tokenize_for_bm25 s"
  using tokenize_gap [OF assms] tokenize_casefold by blast

text \<open>\<open>CAF\<close> with a capital E acute, a space, and \<open>Base.Model\<close>.\<close>

theorem tokenize_compositional_witness:
  "tokenize_for_bm25 (''CAF'' @ CHR 0xC9 # '' Base.Model'')
     = [''caf'' @ [CHR 0xE9]] @ tokenize_for_bm25 ''Base.Model''
   \<and> tokenize_for_bm25 ''Base.Model'' = [''base.model'', ''base'', ''model'']"
proof -
  have "is_gap CHR '' ''" by code_simp
  from tokenize_compositional [OF this, of "''CAF'' @ [CHR 0xC9]" "''Base.Model''"]
  have "tokenize_for_bm25 (''CAF'' @ CHR 0xC9 # '' Base.Model'')
      = tokenize_for_bm25 (''CAF'' @ [CHR 0xC9]) @ tokenize_for_bm25 ''Base.Model''" by simp
  moreover have "tokenize_for_bm25 (''CAF'' @ [CHR 0xC9]) = [''caf'' @ [CHR 0xE9]]"
    by code_simp
  moreover have "tokenize_for_bm25 ''Base.Model'' = [''base.model'', ''base'', ''model'']"
    by code_simp
  ultimately show ?thesis by metis
qed

lemma scored_positions:
  "distinct (map (\<lambda>(s, i, c). i) (sort_key score_key (scored_chunks ar bm terms)))"
proof -
  have "distinct (map (\<lambda>(s, i, c). i) (filter P (map (\<lambda>(i, c). (g c, i, c)) (enumerate n cs))))"
    for P and g :: "provenance \<Rightarrow> pyfloat" and n cs
    by (rule distinct_map_filter)
      (simp add: comp_def case_prod_beta enumerate_eq_zip)
  then have "distinct (map (\<lambda>(s, i, c). i) (scored_chunks ar bm terms))"
    by (simp add: scored_chunks_def)
  then have "distinct (scored_chunks ar bm terms)" "inj_on (\<lambda>(s, i, c). i) (set (scored_chunks ar bm terms))"
    by (simp_all add: distinct_map)
  then show ?thesis
    by (simp add: distinct_map)
qed

text \<open>C24: a search over an index with valid chunks and a query with a token returns exactly the
  best-scored chunks: ranks 1, 2, ... in the order of falling score (then of position), as
  many as asked for or as score at all, each with its own positive score and each position
  of the index at most once, and no chunk left out comes before one that is returned.  A chunk that shares no token with the query is
  never returned.\<close>

theorem bm25_search_exact:
  assumes "validate_raw_query query = Inr q" and "tokenize_for_bm25 q \<noteq> []"
    and "1 \<le> top_k" "top_k \<le> BM25_TOP_K_MAX"
    and "\<forall>c \<in> set (bm_chunks bm). valid_provenance c"
  shows "\<exists>rs scored. bm25_search ar bm query top_k = Inr rs
     \<and> (\<forall>s i c. (s, i, c) \<in> set scored \<longleftrightarrow> i < length (bm_chunks bm) \<and> c = bm_chunks bm ! i
          \<and> s = chunk_score ar bm (unique_first (tokenize_for_bm25 q)) c \<and> 0 < s)
     \<and> sorted (map score_key scored) \<and> distinct (map (\<lambda>(s, i, c). i) scored)
     \<and> map (\<lambda>r. (cr_score r, cr_provenance r)) rs = map (\<lambda>(s, i, c). (s, c)) (take top_k scored)
     \<and> map cr_rank rs = [1 ..< 1 + min top_k (length scored)]
     \<and> (\<forall>r \<in> set rs. \<exists>t \<in> set (tokenize_for_bm25 q).
          t \<in> set (tokenize_for_bm25 (pv_text (cr_provenance r))))"
proof -
  let ?terms = "unique_first (tokenize_for_bm25 q)"
  let ?scored = "sort_key score_key (scored_chunks ar bm ?terms)"
  have in_scored: "(s, i, c) \<in> set ?scored \<longleftrightarrow> i < length (bm_chunks bm) \<and> c = bm_chunks bm ! i
      \<and> s = chunk_score ar bm ?terms c \<and> 0 < s" for s i c
    by (simp add: scored_chunks_iff)
  have ne: "?terms \<noteq> []"
    using assms(2) by (metis set_empty set_unique_first)
  have "\<forall>(s, i, c) \<in> set (take top_k ?scored). 0 < s \<and> valid_provenance c"
    using in_scored assms(5) by (auto dest!: in_set_takeD)
  from ranked_results_total [OF this, of 1] obtain rs where
    rs: "traverseE (\<lambda>(rank, score, order, chunk).
      make_bm25_result \<lparr>cr_rank = rank, cr_score = score, cr_provenance = chunk\<rparr>)
      (enumerate 1 (take top_k ?scored)) = Inr rs" by auto
  note ranks = ranked_results [OF rs]
  have "\<exists>t \<in> set (tokenize_for_bm25 q). t \<in> set (tokenize_for_bm25 (pv_text (cr_provenance r)))"
    if r: "r \<in> set rs" for r
  proof -
    have "(cr_score r, cr_provenance r) \<in> set (map (\<lambda>r. (cr_score r, cr_provenance r)) rs)"
      using r by force
    then obtain i where "(cr_score r, i, cr_provenance r) \<in> set ?scored"
      unfolding ranks(2) by (auto dest!: in_set_takeD)
    then have "chunk_score ar bm ?terms (cr_provenance r) \<noteq> 0"
      unfolding in_scored by auto
    from chunk_score_shared [OF this] show ?thesis by simp
  qed
  moreover have "bm25_search ar bm query top_k = Inr rs"
    using assms(1,3,4) ne rs by (simp add: bm25_search_def Let_def)
  moreover have "sorted (map score_key ?scored)" "distinct (map (\<lambda>(s, i, c). i) ?scored)"
    by (simp_all add: scored_positions)
  moreover have "map cr_rank rs = [1 ..< 1 + min top_k (length ?scored)]"
    using ranks(1) by (simp add: min.commute)
  ultimately show ?thesis
    using in_scored ranks(2) by (intro exI [of _ rs] exI [of _ ?scored]) blast
qed

section \<open>Fusion\<close>

lemma make_hybrid_result_Inr: "make_hybrid_result r = Inr r' \<Longrightarrow> r' = r"
  by (simp add: make_hybrid_result_def split: if_split_asm)

lemma hybrid_results:
  assumes "traverseE (make_hybrid_result \<circ> hybrid_result_of) (enumerate n cs) = Inr rs"
  shows "rs = map hybrid_result_of (enumerate n cs)"
  using assms
  by (induction cs arbitrary: n rs) (auto dest: make_hybrid_result_Inr)

lemma hybrid_ranks: "map hs_rank (map hybrid_result_of (enumerate n cs)) = [n ..< n + length cs]"
  by (simp add: hybrid_result_of_def comp_def case_prod_beta enumerate_eq_zip)

lemma fusion_inv:
  assumes "reciprocal_rank_fusion rn query bs ds k = Inr resp"
  shows "\<exists>q d1 d2. validate_raw_query query = Inr q \<and> 1 \<le> k \<and> k \<le> 1000
     \<and> validate_component bs = Inr () \<and> validate_component ds = Inr ()
     \<and> add_results rn k BM25 (sort_key cr_rank bs) [] = Inr d1
     \<and> add_results rn k DENSE (sort_key cr_rank ds) d1 = Inr d2
     \<and> resp = \<lparr>hy_query = q, hy_rrf_k = k,
          hy_results = map hybrid_result_of (enumerate 1 (sort_key ranking_key d2)),
          hy_top_results = take 3 (map hybrid_result_of (enumerate 1 (sort_key ranking_key d2)))\<rparr>"
  using assms
  by (auto simp: reciprocal_rank_fusion_def make_hybrid_response_def HYBRID_FINAL_TOP_K_def
      dest!: hybrid_results split: if_split_asm)

lemma hybrid_ids:
  "map (pv_chunk_id \<circ> hs_provenance) (map hybrid_result_of (enumerate n cs))
     = map (\<lambda>(i, c). pv_chunk_id (fc_provenance c)) cs"
  by (induction cs arbitrary: n) (simp_all add: hybrid_result_of_def case_prod_beta)

lemma enumerate_member: "(n, x) \<in> set (enumerate m xs) \<Longrightarrow> m \<le> n \<and> x \<in> set xs"
  by (auto simp: in_set_enumerate_eq)

lemma fused_None: "fused rn k b d = None \<longleftrightarrow> b = None \<and> d = None"
  by (simp add: fused_def)

lemma fused_fields:
  assumes "fused rn k b d = Some c"
  shows "\<not> (b = None \<and> d = None)"
    and "fc_provenance c = cr_provenance (case b of None \<Rightarrow> the d | Some r \<Rightarrow> r)"
    and "fc_bm25_rank c = map_option cr_rank b" "fc_dense_rank c = map_option cr_rank d"
    and "fc_bm25_score c = map_option cr_score b" "fc_dense_score c = map_option cr_score d"
    and "fc_rrf_score c = rrf_value rn k (map_option cr_rank b) (map_option cr_rank d)"
proof -
  show "\<not> (b = None \<and> d = None)"
    using assms by (metis fused_None option.discI)
  with assms show "fc_provenance c = cr_provenance (case b of None \<Rightarrow> the d | Some r \<Rightarrow> r)"
    "fc_bm25_rank c = map_option cr_rank b" "fc_dense_rank c = map_option cr_rank d"
    "fc_bm25_score c = map_option cr_score b" "fc_dense_score c = map_option cr_score d"
    "fc_rrf_score c = rrf_value rn k (map_option cr_rank b) (map_option cr_rank d)"
    unfolding fused_def by auto
qed

lemma fused_ok:
  assumes rn: "ieee_rounding rn" and k: "1 \<le> k" "k \<le> 1000"
    and comps: "validate_component bs = Inr ()" "validate_component ds = Inr ()"
    and prov: "\<forall>r \<in> set bs \<union> set ds. valid_provenance (cr_provenance r)"
    and c: "fused rn k (find_result bs i) (find_result ds i) = Some c" and n: "0 < n"
  shows "make_hybrid_result (hybrid_result_of (n, i, c)) = Inr (hybrid_result_of (n, i, c))"
    and "pv_chunk_id (fc_provenance c) = i"
proof -
  note B = validate_component_facts [OF comps(1)]
  note D = validate_component_facts [OF comps(2)]
  have found: "r \<in> set rs \<and> cr_chunk_id r = i \<and> 1 \<le> cr_rank r \<and> cr_rank r \<le> 8
      \<and> valid_provenance (cr_provenance r)"
    if "find_result rs i = Some r" "rs = bs \<or> rs = ds" for r rs
    using that find_result_Some [OF B(2), of i r] find_result_Some [OF D(2), of i r]
      B(3) [of r] D(3) [of r] prov by auto
  have ok: "ranks_ok (map_option cr_rank (find_result rs i))"
    and range: "valid_rank (map_option cr_rank (find_result rs i))" if "rs = bs \<or> rs = ds" for rs
    using found [of rs] that
    by (cases "find_result rs i"; force simp: ranks_ok_def valid_rank_def
        HYBRID_CANDIDATE_TOP_K_def)+
  note f = fused_fields [OF c]
  have score: "0 < fc_rrf_score c"
    unfolding f(7) using rrf_value_pos [OF rn k ok [of bs] ok [of ds]] f(1) by simp
  show id: "pv_chunk_id (fc_provenance c) = i"
    using f(1) found [of bs] found [of ds] unfolding f(2)
    by (cases "find_result bs i"; cases "find_result ds i") (auto simp: cr_chunk_id_def)
  have "valid_provenance (fc_provenance c)"
    using f(1) found [of bs] found [of ds] unfolding f(2)
    by (cases "find_result bs i"; cases "find_result ds i") auto
  with score show "make_hybrid_result (hybrid_result_of (n, i, c)) = Inr (hybrid_result_of (n, i, c))"
    using n range [of bs] range [of ds] f(1)
    by (auto simp: make_hybrid_result_def hybrid_result_of_def f)
qed

lemma fused_count:
  assumes "validate_component bs = Inr ()" "validate_component ds = Inr ()"
    and "distinct (map fst d2)"
    and "\<And>i. map_of d2 i = fused rn k (find_result bs i) (find_result ds i)"
  shows "fst ` set d2 = cr_chunk_id ` set bs \<union> cr_chunk_id ` set ds" and "length d2 \<le> 16"
proof -
  have "i \<in> fst ` set d2 \<longleftrightarrow> i \<in> cr_chunk_id ` set bs \<union> cr_chunk_id ` set ds" for i
    using assms(4) [of i] fused_None [of rn k "find_result bs i" "find_result ds i"]
      map_of_eq_None_iff [of d2 i]
    by (simp add: find_result_None) blast
  then show keys: "fst ` set d2 = cr_chunk_id ` set bs \<union> cr_chunk_id ` set ds"
    by blast
  have "length d2 = card (fst ` set d2)"
    using distinct_card [OF assms(3)] by simp
  also have "\<dots> \<le> card (cr_chunk_id ` set bs) + card (cr_chunk_id ` set ds)"
    unfolding keys by (rule card_Un_le)
  also have "\<dots> \<le> 8 + 8"
    using validate_component_facts(1) [OF assms(1)] validate_component_facts(1) [OF assms(2)]
      card_image_le [of "set bs" cr_chunk_id] card_image_le [of "set ds" cr_chunk_id]
      card_length [of bs] card_length [of ds]
    by (intro add_mono) auto
  finally show "length d2 \<le> 16" by simp
qed

text \<open>The documented ranking key of a result: falling score, then the best rank of a component,
  then the sum of the ranks (a missing one counts as 9), then the chunk id.\<close>

definition result_key :: "hybrid_result \<Rightarrow> pyfloat \<times> nat \<times> nat \<times> string" where
  "result_key r =
     (- hs_rrf_score r, Min (set_option (hs_bm25_rank r) \<union> set_option (hs_dense_rank r)),
      rank_or_missing (hs_bm25_rank r) + rank_or_missing (hs_dense_rank r),
      pv_chunk_id (hs_provenance r))"

lemma result_key_of:
  assumes "\<not> (fc_bm25_rank c = None \<and> fc_dense_rank c = None)"
    and "pv_chunk_id (fc_provenance c) = i"
  shows "result_key (hybrid_result_of (n, i, c)) = ranking_key (i, c)"
  using assms
  by (auto simp: result_key_def ranking_key_def hybrid_result_of_def ranks_of_def min.commute
      split: option.splits)

lemma fused_some:
  "fused rn k b d = Some c \<Longrightarrow> \<not> (fc_bm25_rank c = None \<and> fc_dense_rank c = None)"
  using fused_fields(1,3,4) [of rn k b d c] by auto

text \<open>C22: the fusion of two checked component lists that agree on the chunks they share (with
  valid provenances and IEEE rounding) succeeds.  Its results are the chunks of either list,
  each once, with the ranks the components gave it and the sum of its reciprocal ranks; they
  are numbered 1, 2, ... in strict order of the ranking key, and the top results are the
  first three.\<close>

theorem rrf_exact:
  assumes rn: "ieee_rounding rn" and q: "validate_raw_query query = Inr q"
    and k: "1 \<le> k" "k \<le> 1000"
    and comps: "validate_component bs = Inr ()" "validate_component ds = Inr ()"
    and agree: "consistent bs ds"
    and prov: "\<forall>r \<in> set bs \<union> set ds. valid_provenance (cr_provenance r)"
  shows "\<exists>resp. reciprocal_rank_fusion rn query bs ds k = Inr resp
     \<and> hy_query resp = q
     \<and> map hs_rank (hy_results resp) = [1 ..< length (hy_results resp) + 1]
     \<and> hy_top_results resp = take 3 (hy_results resp)
     \<and> distinct (map (pv_chunk_id \<circ> hs_provenance) (hy_results resp))
     \<and> set (map (pv_chunk_id \<circ> hs_provenance) (hy_results resp))
         = cr_chunk_id ` set bs \<union> cr_chunk_id ` set ds
     \<and> sorted_wrt (<) (map result_key (hy_results resp))
     \<and> (\<forall>r \<in> set (hy_results resp).
          hs_bm25_rank r = map_option cr_rank (find_result bs (pv_chunk_id (hs_provenance r)))
          \<and> hs_dense_rank r = map_option cr_rank (find_result ds (pv_chunk_id (hs_provenance r)))
          \<and> hs_rrf_score r = rrf_value rn k (hs_bm25_rank r) (hs_dense_rank r))"
proof -
  note B = validate_component_facts(2) [OF comps(1)]
  note D = validate_component_facts(2) [OF comps(2)]
  have "distinct (map cr_chunk_id (sort_key cr_rank bs))"
    using B by (simp add: distinct_map)
  then obtain d1 where d1: "add_results rn k BM25 (sort_key cr_rank bs) [] = Inr d1"
    using add_results_total [of "sort_key cr_rank bs" rn k BM25 "[]"] by (auto simp: agrees_def)
  with agree obtain d2 where d2: "add_results rn k DENSE (sort_key cr_rank ds) d1 = Inr d2"
    using candidates_total [OF B D d1] by blast
  note cands = candidates_exact [OF rn B D d1 d2]
  let ?sorted = "sort_key ranking_key d2"
  let ?rs = "map hybrid_result_of (enumerate 1 ?sorted)"
  have entry: "fused rn k (find_result bs i) (find_result ds i) = Some c"
    if "(i, c) \<in> set d2" for i c
    using map_of_is_SomeI [OF cands(1) that] cands(2) [of i] by simp
  have each: "make_hybrid_result (hybrid_result_of (n, i, c)) = Inr (hybrid_result_of (n, i, c))
      \<and> pv_chunk_id (fc_provenance c) = i" if "(i, c) \<in> set d2" "0 < n" for n i c
    using fused_ok [OF rn k comps prov entry [OF that(1)] that(2)] by blast
  have "traverseE (make_hybrid_result \<circ> hybrid_result_of) (enumerate 1 ?sorted) = Inr ?rs"
  proof (rule traverseE_total)
    fix x
    assume x: "x \<in> set (enumerate 1 ?sorted)"
    obtain n i c where "x = (n, i, c)" by (cases x)
    with enumerate_member [of n "(i, c)" 1 ?sorted] x each [of i c n]
    show "(make_hybrid_result \<circ> hybrid_result_of) x = Inr (hybrid_result_of x)" by simp
  qed
  moreover have ranks: "map hs_rank ?rs = [1 ..< length ?rs + 1]"
    using hybrid_ranks [of 1 ?sorted] by (simp add: add.commute del: map_map)
  moreover have "length ?rs \<le> 16"
    using fused_count(2) [OF comps cands] by simp
  moreover have "q \<noteq> []"
    using q by (auto simp: validate_raw_query_def Let_def split: if_splits)
  ultimately have fusion: "reciprocal_rank_fusion rn query bs ds k = Inr
      \<lparr>hy_query = q, hy_rrf_k = k, hy_results = ?rs, hy_top_results = take 3 ?rs\<rparr>"
    using q k comps d1 d2
    by (simp add: reciprocal_rank_fusion_def make_hybrid_response_def HYBRID_FINAL_TOP_K_def
        del: map_map)
  have ids: "map (pv_chunk_id \<circ> hs_provenance) ?rs = map fst ?sorted"
  proof -
    have "map (\<lambda>(i, c). pv_chunk_id (fc_provenance c)) ?sorted = map fst ?sorted"
      using each [where n = 1] by auto
    then show ?thesis
      unfolding hybrid_ids .
  qed
  have "distinct (map fst ?sorted)"
    using cands(1) by (simp add: distinct_map)
  moreover have "set (map fst ?sorted) = cr_chunk_id ` set bs \<union> cr_chunk_id ` set ds"
    using fused_count(1) [OF comps cands] by simp
  moreover have "hs_bm25_rank r = map_option cr_rank (find_result bs (pv_chunk_id (hs_provenance r)))
      \<and> hs_dense_rank r = map_option cr_rank (find_result ds (pv_chunk_id (hs_provenance r)))
      \<and> hs_rrf_score r = rrf_value rn k (hs_bm25_rank r) (hs_dense_rank r)"
    if r: "r \<in> set ?rs" for r
  proof -
    from r obtain n i c where "r = hybrid_result_of (n, i, c)" "(i, c) \<in> set d2"
      using enumerate_member by (fastforce simp del: enumerate_Suc_eq)
    with each [of i c 1] fused_fields [OF entry [of i c]] show ?thesis
      by (simp add: hybrid_result_of_def)
  qed
  moreover have "sorted_wrt (<) (map result_key ?rs)"
  proof -
    have "result_key (hybrid_result_of x) = ranking_key (snd x)" if "x \<in> set (enumerate 1 ?sorted)" for x
    proof -
      obtain n i c where x: "x = (n, i, c)" by (cases x)
      with that enumerate_member [of n "(i, c)" 1 ?sorted] have "(i, c) \<in> set d2" "0 < n" by simp_all
      with x each [of i c n] show ?thesis
        by (simp add: result_key_of fused_some [OF entry])
    qed
    then have "map result_key ?rs = map (ranking_key \<circ> snd) (enumerate 1 ?sorted)"
      unfolding map_map by (intro map_cong) simp_all
    also have "\<dots> = map ranking_key ?sorted"
      unfolding map_map [symmetric] map_snd_enumerate ..
    finally have keys: "map result_key ?rs = map ranking_key ?sorted" .
    have "map fst ?sorted = map (snd \<circ> snd \<circ> snd) (map ranking_key ?sorted)"
      by (simp add: ranking_key_def case_prod_beta)
    then have "distinct (map ranking_key ?sorted)"
      using \<open>distinct (map fst ?sorted)\<close> by (metis distinct_map)
    then show ?thesis
      unfolding keys strict_sorted_iff by simp
  qed
  ultimately show ?thesis
    using fusion ranks ids by (intro exI conjI) (assumption | simp del: map_map)+
qed

lemma best_rank:
  assumes "ranks_ok (fc_bm25_rank c)" "ranks_ok (fc_dense_rank c)"
    and "\<not> (fc_bm25_rank c = None \<and> fc_dense_rank c = None)"
  shows "foldr min (tl (ranks_of c)) (hd (ranks_of c))
     = min (rank_or_missing (fc_bm25_rank c)) (rank_or_missing (fc_dense_rank c))"
  using assms
  by (auto simp: ranks_of_def rank_or_missing_def ranks_ok_def HYBRID_CANDIDATE_TOP_K_def min_def
      split: option.splits)

lemma key_dominance:
  assumes rn: "ieee_rounding rn" and k: "1 \<le> k"
    and ok: "ranks_ok (fc_bm25_rank c)" "ranks_ok (fc_dense_rank c)"
      "ranks_ok (fc_bm25_rank e)" "ranks_ok (fc_dense_rank e)"
    and some: "\<not> (fc_bm25_rank c = None \<and> fc_dense_rank c = None)"
      "\<not> (fc_bm25_rank e = None \<and> fc_dense_rank e = None)"
    and score: "fc_rrf_score c = rrf_value rn k (fc_bm25_rank c) (fc_dense_rank c)"
      "fc_rrf_score e = rrf_value rn k (fc_bm25_rank e) (fc_dense_rank e)"
    and le: "rank_or_missing (fc_bm25_rank c) \<le> rank_or_missing (fc_bm25_rank e)"
      "rank_or_missing (fc_dense_rank c) \<le> rank_or_missing (fc_dense_rank e)"
    and less: "rank_or_missing (fc_bm25_rank c) + rank_or_missing (fc_dense_rank c)
      < rank_or_missing (fc_bm25_rank e) + rank_or_missing (fc_dense_rank e)"
  shows "ranking_key (i, c) < ranking_key (j, e)"
proof -
  have "fc_rrf_score e \<le> fc_rrf_score c"
    unfolding score using rrf_value_mono [OF rn ok(1,2,3,4) k le] .
  moreover have "foldr min (tl (ranks_of c)) (hd (ranks_of c))
      \<le> foldr min (tl (ranks_of e)) (hd (ranks_of e))"
    unfolding best_rank [OF ok(1,2) some(1)] best_rank [OF ok(3,4) some(2)]
    using le by linarith
  ultimately show ?thesis
    using less by (auto simp: ranking_key_def less_le)
qed

lemma sorted_enumerate:
  assumes "(m, x) \<in> set (enumerate 1 (sort_key f xs))" "(n, y) \<in> set (enumerate 1 (sort_key f xs))"
    and "f x < f y"
  shows "m < n"
proof (rule ccontr)
  assume "\<not> m < n"
  with assms(1,2) have "f y \<le> f x"
    using sorted_nth_mono [OF sorted_sort_key [of f xs], of "n - 1" "m - 1"]
    by (auto simp: in_set_enumerate_eq)
  with assms(3) show False by simp
qed

text \<open>C23: the fused order respects the components.  If one result is ranked at least as high as
  another by both components (a missing result counting as rank 9) and higher by one, it
  comes first: no rounding of the scores can turn that around.\<close>

theorem rrf_dominance:
  assumes "reciprocal_rank_fusion rn query bs ds k = Inr resp" and "ieee_rounding rn"
    and "a \<in> set (hy_results resp)" "b \<in> set (hy_results resp)"
    and "rank_or_missing (hs_bm25_rank a) \<le> rank_or_missing (hs_bm25_rank b)"
      "rank_or_missing (hs_dense_rank a) \<le> rank_or_missing (hs_dense_rank b)"
    and "rank_or_missing (hs_bm25_rank a) + rank_or_missing (hs_dense_rank a)
      < rank_or_missing (hs_bm25_rank b) + rank_or_missing (hs_dense_rank b)"
  shows "hs_rank a < hs_rank b"
proof -
  from fusion_inv [OF assms(1)] obtain q d1 d2 where
    k: "1 \<le> k" "k \<le> 1000" and comps: "validate_component bs = Inr ()" "validate_component ds = Inr ()"
    and adds: "add_results rn k BM25 (sort_key cr_rank bs) [] = Inr d1"
      "add_results rn k DENSE (sort_key cr_rank ds) d1 = Inr d2"
    and rs: "hy_results resp = map hybrid_result_of (enumerate 1 (sort_key ranking_key d2))"
    by auto
  note B = validate_component_facts [OF comps(1)]
  note D = validate_component_facts [OF comps(2)]
  note cands = candidates_exact [OF assms(2) B(2) D(2) adds]
  have part: "ranks_ok (fc_bm25_rank c) \<and> ranks_ok (fc_dense_rank c)
      \<and> \<not> (fc_bm25_rank c = None \<and> fc_dense_rank c = None)
      \<and> fc_rrf_score c = rrf_value rn k (fc_bm25_rank c) (fc_dense_rank c)"
    if "(i, c) \<in> set d2" for i c
  proof -
    have "fused rn k (find_result bs i) (find_result ds i) = Some c"
      using map_of_is_SomeI [OF cands(1) that] cands(2) [of i] by simp
    note f = fused_fields [OF this]
    have "ranks_ok (map_option cr_rank (find_result bs i))"
      using B(3) find_result_Some [OF B(2), of i]
      by (cases "find_result bs i") (auto simp: ranks_ok_def)
    moreover have "ranks_ok (map_option cr_rank (find_result ds i))"
      using D(3) find_result_Some [OF D(2), of i]
      by (cases "find_result ds i") (auto simp: ranks_ok_def)
    ultimately show ?thesis
      using f by simp
  qed
  obtain m i c where a: "a = hybrid_result_of (m, i, c)"
    "(m, i, c) \<in> set (enumerate 1 (sort_key ranking_key d2))"
    using assms(3) unfolding rs by (auto simp del: enumerate_Suc_eq)
  obtain n j e where b: "b = hybrid_result_of (n, j, e)"
    "(n, j, e) \<in> set (enumerate 1 (sort_key ranking_key d2))"
    using assms(4) unfolding rs by (auto simp del: enumerate_Suc_eq)
  have in_d2: "(i, c) \<in> set d2" "(j, e) \<in> set d2"
    using enumerate_member [OF a(2)] enumerate_member [OF b(2)] by simp_all
  have "ranking_key (i, c) < ranking_key (j, e)"
    using part [OF in_d2(1)] part [OF in_d2(2)] assms(5-7)
    by (intro key_dominance [OF assms(2) k(1)]) (simp_all add: a(1) b(1) hybrid_result_of_def)
  from sorted_enumerate [OF a(2) b(2) this] show ?thesis
    by (simp add: a(1) b(1) hybrid_result_of_def)
qed

section \<open>Inputs for the witnesses\<close>

definition sample_chunk :: "char \<Rightarrow> string \<Rightarrow> provenance" where
  "sample_chunk c txt = \<lparr>pv_chunk_id = ''sha256:'' @ replicate 64 c, pv_heading_path = [],
     pv_text = txt, pv_content_sha256 = replicate 64 c, pv_source_id = ''docs'',
     pv_source_url = ''https://docs'', pv_git_ref = ''v2'', pv_commit_sha = replicate 40 c,
     pv_source_path = ''migration.md'', pv_snapshot_sha256 = replicate 64 c\<rparr>"

definition sample_index :: bm25_retriever where
  "sample_index = \<lparr>bm_chunks = [sample_chunk CHR ''a'' ''BaseModel.dict is gone'',
     sample_chunk CHR ''b'' ''validators''], bm_k1 = 3 / 2, bm_b = 3 / 4\<rparr>"

definition sample_bm25 :: "component_result list" where
  "sample_bm25 =
     [\<lparr>cr_rank = 1, cr_score = 2, cr_provenance = sample_chunk CHR ''a'' ''x''\<rparr>,
      \<lparr>cr_rank = 2, cr_score = 1, cr_provenance = sample_chunk CHR ''b'' ''y''\<rparr>]"

definition sample_dense :: "component_result list" where
  "sample_dense = [\<lparr>cr_rank = 1, cr_score = 1 / 2, cr_provenance = sample_chunk CHR ''a'' ''x''\<rparr>]"

lemma sample_chunk_valid: "valid_provenance (sample_chunk CHR ''a'' (c # s))"
  "valid_provenance (sample_chunk CHR ''b'' (c # s))"
  by (simp_all add: valid_provenance_def sample_chunk_def is_sha256_id_def is_digest_def
      is_commit_def)

theorem bm25_search_exact_witness:
  "\<exists>rs. bm25_search \<lparr>rnd = (\<lambda>x. x), log1p = (\<lambda>x. x)\<rparr> sample_index ''basemodel'' 3 = Inr rs"
proof -
  have "validate_raw_query ''basemodel'' = Inr ''basemodel''" by code_simp
  moreover have "tokenize_for_bm25 ''basemodel'' \<noteq> []" by code_simp
  moreover have "\<forall>c \<in> set (bm_chunks sample_index). valid_provenance c"
    using sample_chunk_valid by (simp add: sample_index_def)
  moreover have "(1 :: nat) \<le> 3" "3 \<le> BM25_TOP_K_MAX" by (simp_all add: BM25_TOP_K_MAX_def)
  ultimately show ?thesis
    using bm25_search_exact [of "''basemodel''" "''basemodel''" 3 sample_index
        "\<lparr>rnd = (\<lambda>x. x), log1p = (\<lambda>x. x)\<rparr>"]
    by blast
qed

lemma sample_components:
  "validate_component sample_bm25 = Inr ()" "validate_component sample_dense = Inr ()"
  "consistent sample_bm25 sample_dense"
  "\<forall>r \<in> set sample_bm25 \<union> set sample_dense. valid_provenance (cr_provenance r)"
  by (simp_all add: validate_component_def sample_bm25_def sample_dense_def consistent_def
      HYBRID_CANDIDATE_TOP_K_def sample_chunk_valid upt_rec [of 1] upt_rec [of 2])
    (simp_all add: cr_chunk_id_def sample_chunk_def)

theorem rrf_exact_witness:
  "\<exists>resp. reciprocal_rank_fusion (\<lambda>x. x) ''validator'' sample_bm25 sample_dense 60 = Inr resp
     \<and> set (map (pv_chunk_id \<circ> hs_provenance) (hy_results resp))
         = {pv_chunk_id (sample_chunk CHR ''a'' ''x''), pv_chunk_id (sample_chunk CHR ''b'' ''y'')}"
proof -
  have "validate_raw_query ''validator'' = Inr ''validator''" by code_simp
  from rrf_exact [OF ieee_rounding_id this _ _ sample_components, of 60] show ?thesis
    by (auto simp: sample_bm25_def sample_dense_def cr_chunk_id_def)
qed

lemma sample_fusion:
  "\<exists>resp a b. reciprocal_rank_fusion (\<lambda>x. x) ''validator'' sample_bm25 sample_dense 60 = Inr resp
     \<and> hy_results resp = [a, b] \<and> hs_bm25_rank a = Some 1 \<and> hs_dense_rank a = Some 1
     \<and> hs_bm25_rank b = Some 2 \<and> hs_dense_rank b = None"
proof -
  have "(case reciprocal_rank_fusion (\<lambda>x. x) ''validator'' sample_bm25 sample_dense 60 of
      Inl e \<Rightarrow> False
    | Inr resp \<Rightarrow> (case hy_results resp of
        [a, b] \<Rightarrow> hs_bm25_rank a = Some 1 \<and> hs_dense_rank a = Some 1
          \<and> hs_bm25_rank b = Some 2 \<and> hs_dense_rank b = None
      | _ \<Rightarrow> False))"
    by code_simp
  then show ?thesis
    by (auto split: sum.splits list.splits)
qed

theorem rrf_dominance_witness:
  "\<exists>resp a b. reciprocal_rank_fusion (\<lambda>x. x) ''validator'' sample_bm25 sample_dense 60 = Inr resp
     \<and> hy_results resp = [a, b] \<and> hs_rank a < hs_rank b"
proof -
  from sample_fusion obtain resp a b where
    r: "reciprocal_rank_fusion (\<lambda>x. x) ''validator'' sample_bm25 sample_dense 60 = Inr resp"
    "hy_results resp = [a, b]" "hs_bm25_rank a = Some 1" "hs_dense_rank a = Some 1"
    "hs_bm25_rank b = Some 2" "hs_dense_rank b = None"
    by blast
  then have "hs_rank a < hs_rank b"
    by (intro rrf_dominance [OF r(1) ieee_rounding_id])
      (simp_all add: rank_or_missing_def HYBRID_CANDIDATE_TOP_K_def)
  with r show ?thesis by blast
qed

end
