(* ===== verification/ToolModels.thy ===== *)
theory ToolModels
  imports AstScanner ImportGraph HybridRrf
begin

text \<open>
  \<open>app/agent/tool_models.py\<close>: the requests, results, errors and audit events of the five
  read-only tools, with every validator of the models.

  \<open>ToolErr\<close> is the \<open>AgentToolError\<close> of the code, \<open>ToolRaised\<close> any other exception.
\<close>

definition MAX_FINDINGS_RETURNED :: nat where "MAX_FINDINGS_RETURNED = 100"
definition MAX_SOURCE_CONTEXT_RADIUS :: nat where "MAX_SOURCE_CONTEXT_RADIUS = 15"
definition MAX_SOURCE_CONTEXT_CHARACTERS :: nat where "MAX_SOURCE_CONTEXT_CHARACTERS = 8192"
definition MAX_IMPORTERS_RETURNED :: nat where "MAX_IMPORTERS_RETURNED = 50"
definition MAX_DOC_RESULTS :: nat where "MAX_DOC_RESULTS = 5"
definition MAX_DOC_QUERY_CHARACTERS :: nat where "MAX_DOC_QUERY_CHARACTERS = 1000"
definition MAX_DOC_CHUNK_CHARACTERS :: nat where "MAX_DOC_CHUNK_CHARACTERS = 2000"
definition MAX_DOC_TOTAL_CHARACTERS :: nat where
  "MAX_DOC_TOTAL_CHARACTERS = MAX_DOC_RESULTS * MAX_DOC_CHUNK_CHARACTERS"

lemmas tool_limits = MAX_FINDINGS_RETURNED_def MAX_SOURCE_CONTEXT_RADIUS_def
  MAX_SOURCE_CONTEXT_CHARACTERS_def MAX_IMPORTERS_RETURNED_def MAX_DOC_RESULTS_def
  MAX_DOC_QUERY_CHARACTERS_def MAX_DOC_CHUNK_CHARACTERS_def MAX_DOC_TOTAL_CHARACTERS_def

datatype tool_name =
    GET_FINDINGS | GET_SOURCE_CONTEXT | GET_LOCAL_IMPORTERS | SEARCH_OFFICIAL_DOCS
  | LOOKUP_RULE_SPEC

datatype tool_status = TOOL_SUCCESS | TOOL_EMPTY | TOOL_ERROR | TOOL_TIMEOUT

datatype tool_error_type =
    INVALID_ARGUMENT | PATH_NOT_ALLOWED | UNKNOWN_PATH | UNKNOWN_RULE | TIMEOUT
  | RETRIEVAL_FAILURE | SOURCE_IDENTITY_MISMATCH | INFRASTRUCTURE_FAILURE

fun tool_error_value :: "tool_error_type \<Rightarrow> string" where
  "tool_error_value INVALID_ARGUMENT = ''invalid_argument''"
| "tool_error_value PATH_NOT_ALLOWED = ''path_not_allowed''"
| "tool_error_value UNKNOWN_PATH = ''unknown_path''"
| "tool_error_value UNKNOWN_RULE = ''unknown_rule''"
| "tool_error_value TIMEOUT = ''timeout''"
| "tool_error_value RETRIEVAL_FAILURE = ''retrieval_failure''"
| "tool_error_value SOURCE_IDENTITY_MISMATCH = ''source_identity_mismatch''"
| "tool_error_value INFRASTRUCTURE_FAILURE = ''infrastructure_failure''"

datatype tool_exn = ToolErr tool_name tool_error_type | ToolRaised | ToolCancelled

section \<open>Audit events\<close>

record audit_event =
  ae_sequence :: nat
  ae_tool :: tool_name
  ae_status :: tool_status
  ae_error :: "tool_error_type option"
  ae_input_characters :: nat
  ae_returned_count :: nat
  ae_truncated :: bool
  ae_duration_ms :: pyfloat

definition valid_audit_event :: "audit_event \<Rightarrow> bool" where
  "valid_audit_event e \<longleftrightarrow>
     1 \<le> ae_sequence e \<and> 0 \<le> ae_duration_ms e
     \<and> (if ae_status e \<in> {TOOL_ERROR, TOOL_TIMEOUT}
        then ae_error e \<noteq> None \<and> ae_returned_count e = 0 \<and> \<not> ae_truncated e
        else ae_error e = None)
     \<and> (ae_status e = TOOL_EMPTY \<longrightarrow> ae_returned_count e = 0)
     \<and> (ae_status e = TOOL_TIMEOUT \<longrightarrow> ae_error e = Some TIMEOUT)"

definition make_audit_event :: "audit_event \<Rightarrow> tool_exn + audit_event" where
  "make_audit_event e = (if valid_audit_event e then Inr e else Inl ToolRaised)"

section \<open>Requests\<close>

text \<open>\<open>validate_canonical_python_path\<close>.\<close>

definition canonical_python_path :: "string \<Rightarrow> bool" where
  "canonical_python_path v \<longleftrightarrow>
     (case canonicalize_member_path v of
        Inl _ \<Rightarrow> False
      | Inr parts \<Rightarrow>
          (let path = pure_posix_path v
           in join ''/'' parts = v \<and> \<not> is_absolute path
              \<and> casefold (path_suffix (path_parts path)) = ''.py''
              \<and> ''..'' \<notin> set (path_parts path)))"

text \<open>
  A request as it reaches a tool: the fields of the model, not yet validated.  A number is
  an integer because the bounds are part of the validation.
\<close>

datatype tool_request =
    GetFindings "rule_id option" "level option"
  | GetSourceContext string int int
  | GetLocalImporters string
  | SearchOfficialDocs string int
  | LookupRuleSpec string

fun tool_of :: "tool_request \<Rightarrow> tool_name" where
  "tool_of (GetFindings r s) = GET_FINDINGS"
| "tool_of (GetSourceContext p l r) = GET_SOURCE_CONTEXT"
| "tool_of (GetLocalImporters p) = GET_LOCAL_IMPORTERS"
| "tool_of (SearchOfficialDocs q k) = SEARCH_OFFICIAL_DOCS"
| "tool_of (LookupRuleSpec r) = LOOKUP_RULE_SPEC"

definition path_length_ok :: "string \<Rightarrow> bool" where
  "path_length_ok p \<longleftrightarrow> 1 \<le> length p \<and> length p \<le> 1024"

definition is_rule_char :: "char \<Rightarrow> bool" where
  "is_rule_char c \<longleftrightarrow>
     (CHR ''a'' \<le> c \<and> c \<le> CHR ''z'') \<or> (CHR ''0'' \<le> c \<and> c \<le> CHR ''9'') \<or> c = CHR ''_''"

text \<open>
  \<open>_validate_request\<close> with \<open>_request_error_type\<close>: a path that fails its own validator (which
  runs only on a path of allowed length) is \<open>PATH_NOT_ALLOWED\<close>, everything else is
  \<open>INVALID_ARGUMENT\<close>.
\<close>

fun validate_request :: "tool_request \<Rightarrow> tool_error_type + tool_request" where
  "validate_request (GetFindings r s) = Inr (GetFindings r s)"
| "validate_request (GetSourceContext p l r) =
     (if path_length_ok p \<and> \<not> canonical_python_path p then Inl PATH_NOT_ALLOWED
      else if \<not> path_length_ok p \<or> l < 1 \<or> r < 0 \<or> int MAX_SOURCE_CONTEXT_RADIUS < r
      then Inl INVALID_ARGUMENT
      else Inr (GetSourceContext p l r))"
| "validate_request (GetLocalImporters p) =
     (if path_length_ok p \<and> \<not> canonical_python_path p then Inl PATH_NOT_ALLOWED
      else if \<not> path_length_ok p then Inl INVALID_ARGUMENT
      else Inr (GetLocalImporters p))"
| "validate_request (SearchOfficialDocs q k) =
     (if q = [] \<or> length q > MAX_DOC_QUERY_CHARACTERS \<or> k < 1 \<or> int MAX_DOC_RESULTS < k
      then Inl INVALID_ARGUMENT
      else (case validate_raw_query q of
          Inl _ \<Rightarrow> Inl INVALID_ARGUMENT
        | Inr normalized \<Rightarrow>
            if length normalized > MAX_DOC_QUERY_CHARACTERS
               \<or> tokenize_for_bm25 normalized = []
            then Inl INVALID_ARGUMENT else Inr (SearchOfficialDocs normalized k)))"
| "validate_request (LookupRuleSpec r) =
     (if r = [] \<or> length r > 128 \<or> \<not> list_all is_rule_char r \<or> strip r \<noteq> r
      then Inl INVALID_ARGUMENT else Inr (LookupRuleSpec r))"

fun level_value :: "level \<Rightarrow> string" where
  "level_value HIGH = ''high''"
| "level_value MEDIUM = ''medium''"
| "level_value LOW = ''low''"

fun input_characters :: "tool_request \<Rightarrow> nat" where
  "input_characters (GetFindings r s) =
     (case r of None \<Rightarrow> 0 | Some ri \<Rightarrow> length (rule_id_value ri))
     + (case s of None \<Rightarrow> 0 | Some lv \<Rightarrow> length (level_value lv))"
| "input_characters (GetSourceContext p l r) = length p"
| "input_characters (GetLocalImporters p) = length p"
| "input_characters (SearchOfficialDocs q k) = length q"
| "input_characters (LookupRuleSpec r) = length r"

section \<open>Results\<close>

record counted =
  rt_total_count :: nat
  rt_returned_count :: nat
  rt_truncated :: bool

definition valid_counts :: "'a counted_scheme \<Rightarrow> bool" where
  "valid_counts r \<longleftrightarrow>
     rt_returned_count r \<le> rt_total_count r
     \<and> (rt_returned_count r < rt_total_count r \<longrightarrow> rt_truncated r)"

record findings_result = counted +
  rf_findings :: "finding list"

definition valid_findings_result :: "findings_result \<Rightarrow> bool" where
  "valid_findings_result r \<longleftrightarrow>
     valid_counts r \<and> length (rf_findings r) \<le> MAX_FINDINGS_RETURNED
     \<and> length (rf_findings r) = rt_returned_count r
     \<and> sort_key finding_sort_key (rf_findings r) = rf_findings r
     \<and> distinct (rf_findings r)"

record context_line =
  cl_line :: nat
  cl_text :: source_text
  cl_truncated :: bool

record source_result = counted +
  rs_path :: string
  rs_requested_line :: nat
  rs_radius :: nat
  rs_file_line_count :: nat
  rs_start_line :: "nat option"
  rs_end_line :: "nat option"
  rs_source_lines :: "context_line list"
  rs_total_characters :: nat
  rs_returned_characters :: nat

definition line_characters :: "context_line list \<Rightarrow> nat" where
  "line_characters ls = sum_list (map (\<lambda>l. length (cl_text l)) ls)"

definition valid_source_result :: "source_result \<Rightarrow> bool" where
  "valid_source_result r \<longleftrightarrow>
     valid_counts r \<and> path_length_ok (rs_path r) \<and> 1 \<le> rs_requested_line r
     \<and> rs_radius r \<le> MAX_SOURCE_CONTEXT_RADIUS
     \<and> (\<forall>l \<in> set (rs_source_lines r). 1 \<le> cl_line l
          \<and> length (cl_text l) \<le> MAX_SOURCE_CONTEXT_CHARACTERS)
     \<and> length (rs_source_lines r) \<le> MAX_SOURCE_CONTEXT_RADIUS * 2 + 1
     \<and> rs_returned_characters r \<le> MAX_SOURCE_CONTEXT_CHARACTERS
     \<and> canonical_python_path (rs_path r)
     \<and> length (rs_source_lines r) = rt_returned_count r
     \<and> (rt_total_count r \<noteq> length (rs_source_lines r) \<longrightarrow> rt_truncated r)
     \<and> rs_returned_characters r = line_characters (rs_source_lines r)
     \<and> rs_returned_characters r \<le> rs_total_characters r
     \<and> sort (map cl_line (rs_source_lines r)) = map cl_line (rs_source_lines r)
     \<and> distinct (map cl_line (rs_source_lines r))
     \<and> (if rs_file_line_count r = 0
        then rs_start_line r = None \<and> rs_end_line r = None
        else (case (rs_start_line r, rs_end_line r) of
            (Some a, Some b) \<Rightarrow> 1 \<le> a \<and> 1 \<le> b \<and> a \<le> b | _ \<Rightarrow> False))"

record local_importer =
  li_path :: string
  li_module :: string

record importers_result = counted +
  ri_path :: string
  ri_importers :: "local_importer list"

definition valid_importers_result :: "importers_result \<Rightarrow> bool" where
  "valid_importers_result r \<longleftrightarrow>
     valid_counts r \<and> path_length_ok (ri_path r) \<and> canonical_python_path (ri_path r)
     \<and> (\<forall>i \<in> set (ri_importers r). path_length_ok (li_path i)
          \<and> canonical_python_path (li_path i) \<and> li_module i \<noteq> [])
     \<and> length (ri_importers r) \<le> MAX_IMPORTERS_RETURNED
     \<and> length (ri_importers r) = rt_returned_count r
     \<and> (let keys = map (\<lambda>i. (li_path i, li_module i)) (ri_importers r)
        in sort keys = keys \<and> distinct keys)
     \<and> (\<forall>i \<in> set (ri_importers r). li_path i \<noteq> ri_path r)"

record doc_chunk =
  oc_result :: hybrid_result
  oc_full_text_characters :: nat
  oc_text_truncated :: bool

text \<open>The text of a chunk is the (cut) text of its provenance.\<close>

definition oc_text :: "doc_chunk \<Rightarrow> string" where
  "oc_text c = pv_text (hs_provenance (oc_result c))"

definition oc_chunk_id :: "doc_chunk \<Rightarrow> string" where
  "oc_chunk_id c = pv_chunk_id (hs_provenance (oc_result c))"

definition valid_doc_chunk :: "doc_chunk \<Rightarrow> bool" where
  "valid_doc_chunk c \<longleftrightarrow>
     (case make_hybrid_result (oc_result c) of Inl _ \<Rightarrow> False | Inr _ \<Rightarrow> True)
     \<and> 1 \<le> length (oc_text c) \<and> length (oc_text c) \<le> MAX_DOC_CHUNK_CHARACTERS
     \<and> 1 \<le> oc_full_text_characters c \<and> length (oc_text c) \<le> oc_full_text_characters c
     \<and> oc_text_truncated c = (oc_full_text_characters c > length (oc_text c))"

record docs_result = counted +
  rd_query_characters :: nat
  rd_requested_top_k :: nat
  rd_results :: "doc_chunk list"
  rd_returned_text_characters :: nat

definition valid_docs_result :: "docs_result \<Rightarrow> bool" where
  "valid_docs_result r \<longleftrightarrow>
     valid_counts r \<and> 1 \<le> rd_query_characters r
     \<and> rd_query_characters r \<le> MAX_DOC_QUERY_CHARACTERS
     \<and> 1 \<le> rd_requested_top_k r \<and> rd_requested_top_k r \<le> MAX_DOC_RESULTS
     \<and> (\<forall>c \<in> set (rd_results r). valid_doc_chunk c)
     \<and> length (rd_results r) \<le> MAX_DOC_RESULTS
     \<and> rd_returned_text_characters r \<le> MAX_DOC_TOTAL_CHARACTERS
     \<and> length (rd_results r) = rt_returned_count r
     \<and> rt_returned_count r \<le> rd_requested_top_k r
     \<and> (let ranks = map (hs_rank \<circ> oc_result) (rd_results r)
        in sort ranks = ranks \<and> distinct ranks)
     \<and> rd_returned_text_characters r = sum_list (map (length \<circ> oc_text) (rd_results r))
     \<and> ((\<exists>c \<in> set (rd_results r). oc_text_truncated c) \<longrightarrow> rt_truncated r)"

record rule_result = counted +
  rr_rule_spec :: rule_spec

definition valid_rule_result :: "rule_result \<Rightarrow> bool" where
  "valid_rule_result r \<longleftrightarrow>
     rt_total_count r = 1 \<and> rt_returned_count r = 1 \<and> \<not> rt_truncated r"

datatype tool_result =
    FindingsResult findings_result
  | SourceResult source_result
  | ImportersResult importers_result
  | DocsResult docs_result
  | RuleResult rule_result

fun valid_result :: "tool_result \<Rightarrow> bool" where
  "valid_result (FindingsResult r) = valid_findings_result r"
| "valid_result (SourceResult r) = valid_source_result r"
| "valid_result (ImportersResult r) = valid_importers_result r"
| "valid_result (DocsResult r) = valid_docs_result r"
| "valid_result (RuleResult r) = valid_rule_result r"

definition make_result :: "tool_result \<Rightarrow> tool_exn + tool_result" where
  "make_result r = (if valid_result r then Inr r else Inl ToolRaised)"

fun returned_count :: "tool_result \<Rightarrow> nat" where
  "returned_count (FindingsResult r) = rt_returned_count r"
| "returned_count (SourceResult r) = rt_returned_count r"
| "returned_count (ImportersResult r) = rt_returned_count r"
| "returned_count (DocsResult r) = rt_returned_count r"
| "returned_count (RuleResult r) = rt_returned_count r"

fun truncated :: "tool_result \<Rightarrow> bool" where
  "truncated (FindingsResult r) = rt_truncated r"
| "truncated (SourceResult r) = rt_truncated r"
| "truncated (ImportersResult r) = rt_truncated r"
| "truncated (DocsResult r) = rt_truncated r"
| "truncated (RuleResult r) = rt_truncated r"

end
