(* ===== verification/Json.thy ===== *)
theory Json
  imports PyText
begin

text \<open>
  \<open>json.dumps(value, ensure_ascii=False, sort_keys=True, separators=(",", ":"))\<close> of the
  standard library: the canonical texts that \<open>app/agent\<close> and \<open>app/reporting\<close> hash.  The
  numbers of the hashed values are counts and positions, so they are naturals.

  \<open>dumps_inject\<close> is the fact the identities rest on: two values with the same canonical text
  are the same value.
\<close>

datatype json =
    JNull | JBool bool | JNum nat | JStr string | JArr "json list"
  | JObj "(string \<times> json) list"

definition digit_char :: "nat \<Rightarrow> char" where
  "digit_char d = char_of (if d < 10 then 48 + d else 87 + d)"

fun show_nat :: "nat \<Rightarrow> string" where
  "show_nat n =
     (if n < 10 then [digit_char n] else show_nat (n div 10) @ [digit_char (n mod 10)])"

declare show_nat.simps [simp del]

text \<open>The escapes of \<open>json.encoder\<close> with \<open>ensure_ascii=False\<close>.\<close>

definition json_char :: "char \<Rightarrow> string" where
  "json_char c =
     (if c = CHR 0x22 \<or> c = CHR 0x5C then [CHR 0x5C, c]
      else if c = CHR 0x0A then [CHR 0x5C, CHR ''n'']
      else if c = CHR 0x0D then [CHR 0x5C, CHR ''r'']
      else if c = CHR 0x09 then [CHR 0x5C, CHR ''t'']
      else if c = CHR 0x0C then [CHR 0x5C, CHR ''f'']
      else if c = CHR 0x08 then [CHR 0x5C, CHR ''b'']
      else if of_char c < (32 :: nat)
      then [CHR 0x5C, CHR ''u'', CHR ''0'', CHR ''0'', digit_char (of_char c div 16),
            digit_char (of_char c mod 16)]
      else [c])"

definition json_string :: "string \<Rightarrow> string" where
  "json_string s = CHR 0x22 # concat (map json_char s) @ [CHR 0x22]"

fun dumps :: "json \<Rightarrow> string" where
  "dumps JNull = ''null''"
| "dumps (JBool b) = (if b then ''true'' else ''false'')"
| "dumps (JNum n) = show_nat n"
| "dumps (JStr s) = json_string s"
| "dumps (JArr xs) = ''['' @ join '','' (map dumps xs) @ '']''"
| "dumps (JObj kvs) =
     ''{'' @ join '','' (map (\<lambda>(k, v). json_string k @ '':'' @ dumps v) kvs) @ ''}''"

text \<open>\<open>sort_keys=True\<close> of a dict.\<close>

definition json_dict :: "(string \<times> json) list \<Rightarrow> json" where
  "json_dict kvs = JObj (sort_key fst kvs)"

section \<open>Decimal numbers\<close>

definition is_digit :: "char \<Rightarrow> bool" where
  "is_digit c \<longleftrightarrow> of_char c \<in> {48 .. 57 :: nat}"

lemma of_digit_char:
  "d < 16 \<Longrightarrow> of_char (digit_char d) = (if d < 10 then 48 + d else 87 + d :: nat)"
  by (simp add: digit_char_def)

lemma digit_char_inject:
  assumes "a < 16" "b < 16"
  shows "digit_char a = digit_char b \<longleftrightarrow> a = b"
proof
  assume "digit_char a = digit_char b"
  with assms have "(if a < 10 then 48 + a else 87 + a) = (if b < 10 then 48 + b else 87 + b)"
    using of_digit_char [of a] of_digit_char [of b] by metis
  with assms show "a = b" by (simp split: if_split_asm)
qed simp

text \<open>The digit and escape functions by table and by bits, for evaluation.\<close>

lemma digit_char_table [code]:
  "digit_char d = (if d < 16 then ''0123456789abcdef'' ! d else char_of (87 + d))"
proof (cases "d < 16")
  case True
  then have "d \<in> {0, 1, 2, 3, 4, 5, 6, 7, 8, 9, 10, 11, 12, 13, 14, 15}"
    by (simp add: numeral_eq_Suc less_Suc_eq)
  then show ?thesis
    by (elim insertE) (simp_all add: digit_char_def char_of_def bit_0)
qed (simp add: digit_char_def)

lemma json_char_bits [code]:
  "json_char (Char b0 b1 b2 b3 b4 b5 b6 b7) =
     (let c = Char b0 b1 b2 b3 b4 b5 b6 b7
      in if c = CHR 0x22 \<or> c = CHR 0x5C then [CHR 0x5C, c]
         else if b5 \<or> b6 \<or> b7 then [c]
         else if c = CHR 0x0A then [CHR 0x5C, CHR ''n'']
         else if c = CHR 0x0D then [CHR 0x5C, CHR ''r'']
         else if c = CHR 0x09 then [CHR 0x5C, CHR ''t'']
         else if c = CHR 0x0C then [CHR 0x5C, CHR ''f'']
         else if c = CHR 0x08 then [CHR 0x5C, CHR ''b'']
         else [CHR 0x5C, CHR ''u'', CHR ''0'', CHR ''0'', digit_char (of_char c div 16),
               digit_char (of_char c mod 16)])"
proof -
  define c where "c = Char b0 b1 b2 b3 b4 b5 b6 b7"
  have control: "of_char c < (32 :: nat) \<longleftrightarrow> \<not> (b5 \<or> b6 \<or> b7)"
    unfolding c_def by (cases b5; cases b6; cases b7; auto simp: of_bool_def)
  have "c \<notin> {CHR 0x0A, CHR 0x0D, CHR 0x09, CHR 0x0C, CHR 0x08}" if "b5 \<or> b6 \<or> b7"
    using that unfolding c_def by auto
  then show ?thesis
    unfolding c_def [symmetric] json_char_def Let_def control
    by (cases "b5 \<or> b6 \<or> b7") (simp_all only: if_True if_False not_True_eq_False not_False_eq_True insert_iff de_Morgan_disj if_cancel HOL.simp_thms)
qed

lemma hex_digit: "digit_char (n mod 16) \<in> set ''0123456789abcdef''"
proof -
  have "\<forall>k \<in> set [0..<16]. digit_char k \<in> set ''0123456789abcdef''" by code_simp
  moreover have "n mod 16 \<in> set [0..<16]" by simp
  ultimately show ?thesis by blast
qed

lemma digit_char_digit: "d < 10 \<Longrightarrow> is_digit (digit_char d)"
  by (simp add: is_digit_def of_digit_char)

lemma show_nat_small: "n < 10 \<Longrightarrow> show_nat n = [digit_char n]"
  and show_nat_large: "\<not> n < 10 \<Longrightarrow> show_nat n = show_nat (n div 10) @ [digit_char (n mod 10)]"
  by (subst show_nat.simps, simp)+

lemma show_nat_digits: "list_all is_digit (show_nat n)"
proof (induction n rule: show_nat.induct)
  case (1 n)
  then show ?case
    by (cases "n < 10") (simp_all add: show_nat_small show_nat_large digit_char_digit)
qed

lemma show_nat_nonempty: "show_nat n \<noteq> []"
  by (cases "n < 10") (simp_all add: show_nat_small show_nat_large)

lemma show_nat_one: "length (show_nat n) = 1 \<longleftrightarrow> n < 10"
  using show_nat_nonempty [of "n div 10"]
  by (cases "n < 10") (simp_all add: show_nat_small show_nat_large)

lemma show_nat_inject: "show_nat m = show_nat n \<longleftrightarrow> m = n"
proof
  assume "show_nat m = show_nat n"
  then show "m = n"
  proof (induction m arbitrary: n rule: show_nat.induct)
    case (1 m)
    have same: "m < 10 \<longleftrightarrow> n < 10"
      using "1.prems" show_nat_one [of m] show_nat_one [of n] by simp
    show ?case
    proof (cases "n < 10")
      case True
      with same "1.prems" show ?thesis
        by (simp add: show_nat_small digit_char_inject)
    next
      case False
      with same "1.prems" have "show_nat (m div 10) = show_nat (n div 10)"
        "digit_char (m mod 10) = digit_char (n mod 10)"
        by (simp_all add: show_nat_large)
      with False same "1.IH" have "m div 10 = n div 10" "m mod 10 = n mod 10"
        by (simp_all add: digit_char_inject)
      then show ?thesis
        by (metis mult_div_mod_eq)
    qed
  qed
qed simp

section \<open>Strings\<close>

lemma hex_inject:
  assumes "of_char c < (32 :: nat)" "of_char d < (32 :: nat)"
    and "digit_char (of_char c div 16) = digit_char (of_char d div 16)"
    and "digit_char (of_char c mod 16) = digit_char (of_char d mod 16)"
  shows "c = d"
proof -
  have "of_char c div 16 = (of_char d div 16 :: nat)" "of_char c mod 16 = (of_char d mod 16 :: nat)"
    using assms by (simp_all add: digit_char_inject)
  then have "of_char c = (of_char d :: nat)"
    by (metis div_mult_mod_eq)
  then show ?thesis by simp
qed

lemma json_char_cases:
  obtains (plain) "json_char c = [c]" "c \<noteq> CHR 0x22" "c \<noteq> CHR 0x5C"
  | (short) e where "json_char c = [CHR 0x5C, e]" "e \<noteq> CHR ''u''"
      "e = (if c = CHR 0x0A then CHR ''n'' else if c = CHR 0x0D then CHR ''r''
            else if c = CHR 0x09 then CHR ''t'' else if c = CHR 0x0C then CHR ''f''
            else if c = CHR 0x08 then CHR ''b'' else c)"
      "c \<in> {CHR 0x22, CHR 0x5C, CHR 0x0A, CHR 0x0D, CHR 0x09, CHR 0x0C, CHR 0x08}"
  | (long) "json_char c = [CHR 0x5C, CHR ''u'', CHR ''0'', CHR ''0'',
        digit_char (of_char c div 16), digit_char (of_char c mod 16)]" "of_char c < (32 :: nat)"
proof (cases "c \<in> {CHR 0x22, CHR 0x5C, CHR 0x0A, CHR 0x0D, CHR 0x09, CHR 0x0C, CHR 0x08}")
  case True
  then show ?thesis
    by (intro short [of "if c = CHR 0x0A then CHR ''n'' else if c = CHR 0x0D then CHR ''r''
            else if c = CHR 0x09 then CHR ''t'' else if c = CHR 0x0C then CHR ''f''
            else if c = CHR 0x08 then CHR ''b'' else c"]) (auto simp: json_char_def)
next
  case False
  then show ?thesis
    by (cases "of_char c < (32 :: nat)") (auto simp: json_char_def intro: plain long)
qed

lemma json_char_inject:
  assumes "json_char c @ x = json_char d @ y"
  shows "c = d \<and> x = y"
proof (cases c rule: json_char_cases)
  case plain
  with assms show ?thesis by (cases d rule: json_char_cases) auto
next
  case (short e)
  with assms show ?thesis by (cases d rule: json_char_cases) (auto split: if_splits)
next
  case long
  with assms show ?thesis
    by (cases d rule: json_char_cases) (auto dest: hex_inject)
qed

lemma json_char_quote: "json_char c \<noteq> []" "hd (json_char c) \<noteq> CHR 0x22"
  by (cases c rule: json_char_cases; simp)+

lemma json_body_inject:
  "concat (map json_char s) @ CHR 0x22 # x = concat (map json_char t) @ CHR 0x22 # y
    \<Longrightarrow> s = t \<and> x = y"
proof (induction s arbitrary: t)
  case Nil
  then show ?case
    using json_char_quote by (cases t) (auto, metis hd_append2 list.sel(1))
next
  case (Cons c s)
  show ?case
  proof (cases t)
    case Nil
    with Cons.prems show ?thesis
      using json_char_quote [of c] by (cases "json_char c") auto
  next
    case (Cons d t')
    with Cons.prems have "json_char c @ concat (map json_char s) @ CHR 0x22 # x
        = json_char d @ concat (map json_char t') @ CHR 0x22 # y" by simp
    from json_char_inject [OF this] Cons.IH [of t'] Cons show ?thesis by blast
  qed
qed

lemma json_string_inject:
  "json_string s @ x = json_string t @ y \<longleftrightarrow> s = t \<and> x = y"
  using json_body_inject [of s x t y] by (auto simp: json_string_def)

section \<open>Values\<close>

definition delim :: "string \<Rightarrow> bool" where
  "delim r \<longleftrightarrow> r = [] \<or> hd r \<in> {CHR '','', CHR '']'', CHR ''}''}"

lemma delim_Cons [simp]: "delim (c # r) \<longleftrightarrow> c \<in> {CHR '','', CHR '']'', CHR ''}''}"
  by (simp add: delim_def)

lemma delim_no_digit: "delim r \<Longrightarrow> takeWhile is_digit r = []"
  by (cases r) (auto simp: is_digit_def)

lemma show_nat_append_inject:
  assumes "show_nat m @ r = show_nat n @ s" "delim r" "delim s"
  shows "m = n \<and> r = s"
proof -
  have "takeWhile is_digit (show_nat k @ t) = show_nat k" if "delim t" for k t
    using show_nat_digits [of k] delim_no_digit [OF that]
    by (simp add: list_all_iff takeWhile_append)
  with assms have "show_nat m = show_nat n" by metis
  with assms(1) show ?thesis by (simp add: show_nat_inject)
qed

lemma join_Cons: "join [d] (x # xs) = x @ concat (map ((#) d) xs)"
  by (induction xs arbitrary: x) simp_all

lemma more_inject:
  assumes "\<And>x y u v. x \<in> set xs \<Longrightarrow> delim u \<Longrightarrow> delim v \<Longrightarrow> f x @ u = f y @ v \<Longrightarrow> x = y \<and> u = v"
    and c: "c \<in> {CHR '']'', CHR ''}''}"
    and "concat (map ((#) CHR '','') (map f xs)) @ c # r = concat (map ((#) CHR '','') (map f ys)) @ c # s"
  shows "xs = ys \<and> r = s"
  using assms(1,3)
proof (induction xs arbitrary: ys)
  case Nil
  with c show ?case by (cases ys) auto
next
  case (Cons x xs)
  show ?case
  proof (cases ys)
    case Nil
    with Cons.prems(2) c show ?thesis by auto
  next
    case (Cons y ys')
    let ?more = "\<lambda>zs t. concat (map ((#) CHR '','') (map f zs)) @ c # t"
    have d: "delim (?more zs t)" for zs t
      using c by (cases zs) auto
    from Cons.prems(2) Cons have "f x @ ?more xs r = f y @ ?more ys' s" by simp
    then have "x = y" "?more xs r = ?more ys' s"
      using Cons.prems(1) [of x "?more xs r" "?more ys' s" y] d by auto
    with Cons.IH [of ys'] Cons.prems(1) Cons show ?thesis by auto
  qed
qed

lemma join_inject:
  assumes inj: "\<And>x y u v. x \<in> set xs \<Longrightarrow> delim u \<Longrightarrow> delim v \<Longrightarrow> f x @ u = f y @ v
      \<Longrightarrow> x = y \<and> u = v"
    and c: "c \<in> {CHR '']'', CHR ''}''}" and head: "\<And>x. f x \<noteq> [] \<and> hd (f x) \<noteq> c"
    and eq: "join '','' (map f xs) @ c # r = join '','' (map f ys) @ c # s"
  shows "xs = ys \<and> r = s"
proof (cases xs)
  case Nil
  with eq show ?thesis
    using head by (cases ys) (auto simp: join_Cons simp del: join.simps(3), metis hd_append2 list.sel(1))
next
  case (Cons x xs')
  show ?thesis
  proof (cases ys)
    case Nil
    with eq Cons head [of x] show ?thesis
      by (cases "f x") (auto simp: join_Cons simp del: join.simps(3))
  next
    case (Cons y ys')
    let ?more = "\<lambda>zs t. concat (map ((#) CHR '','') (map f zs)) @ c # t"
    have d: "delim (?more zs t)" for zs t
      using c by (cases zs) auto
    from eq \<open>xs = x # xs'\<close> Cons have "f x @ ?more xs' r = f y @ ?more ys' s"
      by (simp add: join_Cons del: join.simps(3))
    then have "x = y" "?more xs' r = ?more ys' s"
      using inj [of x "?more xs' r" "?more ys' s" y] d \<open>xs = x # xs'\<close> by auto
    moreover from this(2) have "xs' = ys' \<and> r = s"
      using inj \<open>xs = x # xs'\<close> c by (intro more_inject [of xs' f c r ys' s]) auto
    ultimately show ?thesis using Cons \<open>xs = x # xs'\<close> by simp
  qed
qed

text \<open>What a value's text starts with.\<close>

fun first_of :: "json \<Rightarrow> char set" where
  "first_of JNull = {CHR ''n''}"
| "first_of (JBool b) = {if b then CHR ''t'' else CHR ''f''}"
| "first_of (JNum n) = {c. is_digit c}"
| "first_of (JStr s) = {CHR 0x22}"
| "first_of (JArr xs) = {CHR ''[''}"
| "first_of (JObj kvs) = {CHR ''{''}"

lemma dumps_first: "dumps a \<noteq> [] \<and> hd (dumps a) \<in> first_of a"
  using show_nat_nonempty show_nat_digits
  by (cases a) (auto simp: json_string_def, metis list.pred_set list.set_sel(1))

lemma first_no_close: "c \<in> {CHR '']'', CHR ''}''} \<Longrightarrow> c \<notin> first_of a"
  by (cases a) (auto simp: is_digit_def)

lemma first_apart:
  assumes "first_of a \<inter> first_of b \<noteq> {}"
  shows "(a = JNull \<and> b = JNull) \<or> (\<exists>x. a = JBool x \<and> b = JBool x)
    \<or> (\<exists>m n. a = JNum m \<and> b = JNum n) \<or> (\<exists>s t. a = JStr s \<and> b = JStr t)
    \<or> (\<exists>xs ys. a = JArr xs \<and> b = JArr ys) \<or> (\<exists>xs ys. a = JObj xs \<and> b = JObj ys)"
  using assms by (cases a; cases b) (auto simp: is_digit_def split: if_splits)

lemma same_first:
  assumes "dumps a @ r = dumps b @ s"
  shows "(a = JNull \<and> b = JNull) \<or> (\<exists>x. a = JBool x \<and> b = JBool x)
    \<or> (\<exists>m n. a = JNum m \<and> b = JNum n) \<or> (\<exists>s t. a = JStr s \<and> b = JStr t)
    \<or> (\<exists>xs ys. a = JArr xs \<and> b = JArr ys) \<or> (\<exists>xs ys. a = JObj xs \<and> b = JObj ys)"
proof (rule first_apart)
  have "hd (dumps a) = hd (dumps b)"
    using assms dumps_first by (metis hd_append2)
  then show "first_of a \<inter> first_of b \<noteq> {}"
    using dumps_first [of a] dumps_first [of b] by auto
qed

lemma dumps_inject_append:
  "dumps a @ r = dumps b @ s \<Longrightarrow> delim r \<Longrightarrow> delim s \<Longrightarrow> a = b \<and> r = s"
proof (induction a arbitrary: b r s)
  case prems: JNull
  then show ?case
    using same_first [OF prems(1)] by auto
next
  case (JBool x)
  then show ?case
    using same_first [OF JBool(1)] by auto
next
  case (JNum n)
  then obtain m where "b = JNum m"
    using same_first [OF JNum(1)] by auto
  with JNum show ?case
    using show_nat_append_inject [of n r m s] by simp
next
  case (JStr x)
  then show ?case
    using same_first [OF JStr(1)] by (auto simp: json_string_inject)
next
  case (JArr xs)
  then obtain ys where b: "b = JArr ys"
    using same_first [OF JArr.prems(1)] by auto
  have "xs = ys \<and> r = s"
  proof (rule join_inject)
    show "join '','' (map dumps xs) @ CHR '']'' # r = join '','' (map dumps ys) @ CHR '']'' # s"
      using JArr.prems(1) b by simp
    show "dumps x \<noteq> [] \<and> hd (dumps x) \<noteq> CHR '']''" for x
      using dumps_first [of x] first_no_close [of "CHR '']''" x] by auto
  qed (use JArr.IH in \<open>blast | simp\<close>)+
  with b show ?case by simp
next
  case (JObj xs)
  let ?f = "\<lambda>(k, v). json_string k @ '':'' @ dumps v"
  from JObj.prems obtain ys where b: "b = JObj ys"
    using same_first [OF JObj.prems(1)] by auto
  have "xs = ys \<and> r = s"
  proof (rule join_inject)
    show "join '','' (map ?f xs) @ CHR ''}'' # r = join '','' (map ?f ys) @ CHR ''}'' # s"
      using JObj.prems(1) b by simp
    show "?f x \<noteq> [] \<and> hd (?f x) \<noteq> CHR ''}''" for x
      by (cases x) (simp add: json_string_def)
    fix x y u v
    assume x: "x \<in> set xs" and d: "delim u" "delim v" and eq: "?f x @ u = ?f y @ v"
    obtain k a where kx: "x = (k, a)" by fastforce
    obtain l c where ly: "y = (l, c)" by fastforce
    from eq have "json_string k @ CHR '':'' # dumps a @ u = json_string l @ CHR '':'' # dumps c @ v"
      by (simp add: kx ly)
    then have "k = l" "dumps a @ u = dumps c @ v"
      by (simp_all add: json_string_inject)
    moreover from JObj.IH [OF x _ this(2) d] have "a = c \<and> u = v"
      by (simp add: kx)
    ultimately show "x = y \<and> u = v"
      by (simp add: kx ly)
  qed simp
  with b show ?case by simp
qed

lemma dumps_inject: "dumps a = dumps b \<longleftrightarrow> a = b"
  using dumps_inject_append [of a "[]" b "[]"] by (auto simp: delim_def)

end
