(* ===== verification/AgentModels.thy ===== *)
theory AgentModels
  imports ToolModels Json
begin

text \<open>
  \<open>app/agent/graph_models.py\<close>, the records: limits, the run request, evidence groups, steps,
  the parts of the draft, the run result and the decisions of the model, each with the checks
  of its constructor.  \<open>AgentDraft\<close> is only ever copied with \<open>model_copy\<close>, which checks
  nothing, so its bounds do not appear.

  Times are seconds (finite floats, as rationals); counters are naturals.
\<close>

definition MAX_AMBIGUOUS_GROUPS :: nat where "MAX_AMBIGUOUS_GROUPS = 8"
definition MAX_AGENT_TOOL_CALLS :: nat where "MAX_AGENT_TOOL_CALLS = 8"
definition MAX_AGENT_STEPS :: nat where "MAX_AGENT_STEPS = 32"
definition MAX_LLM_TIMEOUT_SECONDS :: pyfloat where "MAX_LLM_TIMEOUT_SECONDS = 20"
definition MAX_AGENT_TIMEOUT_SECONDS :: pyfloat where "MAX_AGENT_TIMEOUT_SECONDS = 45"
definition MAX_AGENT_RETRIES :: nat where "MAX_AGENT_RETRIES = 1"
definition MAX_FINDINGS_PER_GROUP :: nat where "MAX_FINDINGS_PER_GROUP = 100"
definition MAX_RETRIEVED_CHUNKS :: nat where "MAX_RETRIEVED_CHUNKS = MAX_AMBIGUOUS_GROUPS * 5"
definition MAX_AGENT_VALIDATION_ERRORS :: nat where "MAX_AGENT_VALIDATION_ERRORS = 32"

lemmas agent_limits = MAX_AMBIGUOUS_GROUPS_def MAX_AGENT_TOOL_CALLS_def MAX_AGENT_STEPS_def
  MAX_LLM_TIMEOUT_SECONDS_def MAX_AGENT_TIMEOUT_SECONDS_def MAX_AGENT_RETRIES_def
  MAX_FINDINGS_PER_GROUP_def MAX_RETRIEVED_CHUNKS_def MAX_AGENT_VALIDATION_ERRORS_def

datatype degraded_reason =
    NO_MODEL | LLM_REVIEW_DISABLED | AMBIGUOUS_GROUP_LIMIT | LLM_TIMEOUT
  | LLM_INVALID_RESPONSE | LLM_ERROR | TOOL_ERROR_REASON | TOOL_CALL_LIMIT | STEP_LIMIT
  | AGENT_TIMEOUT

fun degraded_value :: "degraded_reason \<Rightarrow> string" where
  "degraded_value NO_MODEL = ''no_model''"
| "degraded_value LLM_REVIEW_DISABLED = ''llm_review_disabled''"
| "degraded_value AMBIGUOUS_GROUP_LIMIT = ''ambiguous_group_limit''"
| "degraded_value LLM_TIMEOUT = ''llm_timeout''"
| "degraded_value LLM_INVALID_RESPONSE = ''llm_invalid_response''"
| "degraded_value LLM_ERROR = ''llm_error''"
| "degraded_value TOOL_ERROR_REASON = ''tool_error''"
| "degraded_value TOOL_CALL_LIMIT = ''tool_call_limit''"
| "degraded_value STEP_LIMIT = ''step_limit''"
| "degraded_value AGENT_TIMEOUT = ''agent_timeout''"

datatype terminal_status = RUN_COMPLETED | RUN_DEGRADED

datatype agent_node = PREPARE | LLM_DECIDE | VALIDATE_ACTION | EXECUTE_TOOL | COMPLETE_GROUP

datatype step_status = STEP_SUCCESS | STEP_DEGRADED

text \<open>\<open>AgentValidationErr\<close> is pydantic's \<open>ValidationError\<close>, \<open>AgentRuntimeErr\<close> a \<open>RuntimeError\<close>
  of the graph, \<open>AgentRaised\<close> an exception of an injected client, \<open>AgentRecursionErr\<close> the
  \<open>GraphRecursionError\<close> of the graph engine, \<open>AgentCancelled\<close> the \<open>CancelledError\<close> that the
  deadline of the run throws into a tool.\<close>

datatype agent_exn =
    AgentValidationErr | AgentRuntimeErr | AgentValueErr | AgentRaised | AgentRecursionErr
  | AgentCancelled

definition is_reason_text :: "string \<Rightarrow> bool" where
  "is_reason_text s \<longleftrightarrow> 1 \<le> length s \<and> length s \<le> 64 \<and> list_all is_rule_char s"

section \<open>Limits and request\<close>

record runtime_limits =
  lm_max_ambiguous_groups :: nat
  lm_max_tool_calls :: nat
  lm_max_steps :: nat
  lm_llm_timeout_seconds :: pyfloat
  lm_total_timeout_seconds :: pyfloat
  lm_max_retries :: nat

definition valid_limits :: "runtime_limits \<Rightarrow> bool" where
  "valid_limits l \<longleftrightarrow>
     1 \<le> lm_max_ambiguous_groups l \<and> lm_max_ambiguous_groups l \<le> MAX_AMBIGUOUS_GROUPS
     \<and> 1 \<le> lm_max_tool_calls l \<and> lm_max_tool_calls l \<le> MAX_AGENT_TOOL_CALLS
     \<and> 1 \<le> lm_max_steps l \<and> lm_max_steps l \<le> MAX_AGENT_STEPS
     \<and> 0 < lm_llm_timeout_seconds l \<and> lm_llm_timeout_seconds l \<le> MAX_LLM_TIMEOUT_SECONDS
     \<and> 0 < lm_total_timeout_seconds l \<and> lm_total_timeout_seconds l \<le> MAX_AGENT_TIMEOUT_SECONDS
     \<and> lm_max_retries l \<le> MAX_AGENT_RETRIES"

definition default_agent_limits :: runtime_limits where
  "default_agent_limits =
     \<lparr>lm_max_ambiguous_groups = MAX_AMBIGUOUS_GROUPS, lm_max_tool_calls = MAX_AGENT_TOOL_CALLS,
      lm_max_steps = MAX_AGENT_STEPS, lm_llm_timeout_seconds = MAX_LLM_TIMEOUT_SECONDS,
      lm_total_timeout_seconds = MAX_AGENT_TIMEOUT_SECONDS, lm_max_retries = MAX_AGENT_RETRIES\<rparr>"

record repository_summary =
  su_python_files :: nat
  su_python_loc :: nat
  su_direct_finding_count :: nat
  su_directly_affected_files :: nat
  su_one_hop_dependent_files :: nat

definition valid_summary :: "repository_summary \<Rightarrow> bool" where
  "valid_summary s \<longleftrightarrow>
     su_python_files s \<le> 200 \<and> su_python_loc s \<le> 50000 \<and> su_directly_affected_files s \<le> 200
     \<and> su_one_hop_dependent_files s \<le> 200
     \<and> su_directly_affected_files s \<le> su_python_files s
     \<and> su_one_hop_dependent_files s \<le> su_python_files s
     \<and> \<not> (su_direct_finding_count s = 0 \<and> su_directly_affected_files s \<noteq> 0)"

definition is_analysis_id :: "string \<Rightarrow> bool" where
  "is_analysis_id s \<longleftrightarrow>
     (let alnum = (\<lambda>c. c \<in> set ''ABCDEFGHIJKLMNOPQRSTUVWXYZabcdefghijklmnopqrstuvwxyz0123456789'')
      in case s of [] \<Rightarrow> False
         | c # cs \<Rightarrow> alnum c \<and> length cs \<le> 127
             \<and> list_all (\<lambda>d. alnum d \<or> d \<in> set ''._:-'') cs)"

record run_request =
  rq_analysis_id :: string
  rq_summary :: repository_summary
  rq_findings :: "finding list"
  rq_importers :: "one_hop_importer list"
  rq_llm_review :: bool

definition valid_run_request :: "run_request \<Rightarrow> bool" where
  "valid_run_request r \<longleftrightarrow>
     is_analysis_id (rq_analysis_id r) \<and> valid_summary (rq_summary r)
     \<and> make_rule_scan_result (rq_findings r) = Inr (rq_findings r)
     \<and> (\<forall>f \<in> set (rq_findings r). valid_finding f)
     \<and> su_direct_finding_count (rq_summary r) = length (rq_findings r)
     \<and> (let affected = set (map fd_path (rq_findings r));
            dependents = set (map oh_importer_path (rq_importers r))
        in su_directly_affected_files (rq_summary r) = card affected
           \<and> su_one_hop_dependent_files (rq_summary r) = card dependents
           \<and> (\<forall>i \<in> set (rq_importers r). oh_direct_path i \<in> affected))"

section \<open>Groups\<close>

record ambiguous_group =
  ag_group_id :: string
  ag_path :: string
  ag_rule_id :: rule_id
  ag_finding_ids :: "string list"

definition make_group :: "ambiguous_group \<Rightarrow> agent_exn + ambiguous_group" where
  "make_group g =
     (if is_sha256_id (ag_group_id g) \<and> 1 \<le> length (ag_path g) \<and> length (ag_path g) \<le> 1024
         \<and> 1 \<le> length (ag_finding_ids g) \<and> length (ag_finding_ids g) \<le> MAX_FINDINGS_PER_GROUP
         \<and> sort (ag_finding_ids g) = ag_finding_ids g \<and> distinct (ag_finding_ids g)
      then Inr g else Inl AgentValidationErr)"

record preparation =
  pp_groups :: "ambiguous_group list"
  pp_overflow_ids :: "string list"

definition group_key :: "ambiguous_group \<Rightarrow> string \<times> string \<times> string" where
  "group_key g = (ag_path g, rule_id_value (ag_rule_id g), hd (ag_finding_ids g))"

definition make_preparation :: "preparation \<Rightarrow> agent_exn + preparation" where
  "make_preparation p =
     (let keys = map group_key (pp_groups p);
          ids = concat (map ag_finding_ids (pp_groups p))
      in if length (pp_groups p) \<le> MAX_AMBIGUOUS_GROUPS
            \<and> sort keys = keys \<and> distinct keys
            \<and> card (set ids) = length ids
            \<and> distinct (pp_overflow_ids p)
            \<and> set ids \<inter> set (pp_overflow_ids p) = {}
         then Inr p else Inl AgentValidationErr)"

section \<open>Trace and draft\<close>

record agent_step =
  st_sequence :: nat
  st_node :: agent_node
  st_status :: step_status
  st_group_id :: "string option"
  st_tool :: "tool_name option"

fun optional_id :: "string option \<Rightarrow> bool" where
  "optional_id None = True"
| "optional_id (Some i) = is_sha256_id i"

definition make_step :: "agent_step \<Rightarrow> agent_exn + agent_step" where
  "make_step s =
     (if 1 \<le> st_sequence s \<and> st_sequence s \<le> MAX_AGENT_STEPS \<and> optional_id (st_group_id s)
      then Inr s else Inl AgentValidationErr)"

record validation_error =
  ve_node :: agent_node
  ve_error_type :: string
  ve_group_id :: "string option"

definition make_validation_error :: "validation_error \<Rightarrow> agent_exn + validation_error" where
  "make_validation_error e =
     (if is_reason_text (ve_error_type e) \<and> optional_id (ve_group_id e)
      then Inr e else Inl AgentValidationErr)"

definition group_sized :: "string list \<Rightarrow> bool" where
  "group_sized ids \<longleftrightarrow> 1 \<le> length ids \<and> length ids \<le> MAX_FINDINGS_PER_GROUP"

record explanation =
  ex_group_id :: string
  ex_finding_ids :: "string list"
  ex_text :: string
  ex_model :: string

definition make_explanation :: "explanation \<Rightarrow> agent_exn + explanation" where
  "make_explanation e =
     (if is_sha256_id (ex_group_id e) \<and> group_sized (ex_finding_ids e)
         \<and> 1 \<le> length (ex_text e) \<and> length (ex_text e) \<le> 1000 \<and> strip (ex_text e) = ex_text e
         \<and> 1 \<le> length (ex_model e) \<and> length (ex_model e) \<le> 128 \<and> strip (ex_model e) = ex_model e
      then Inr e else Inl AgentValidationErr)"

record doc_candidate =
  dc_analysis_id :: string
  dc_group_id :: string
  dc_finding_ids :: "string list"
  dc_chunk_id :: string

definition make_doc_candidate :: "doc_candidate \<Rightarrow> agent_exn + doc_candidate" where
  "make_doc_candidate d =
     (if is_analysis_id (dc_analysis_id d) \<and> is_sha256_id (dc_group_id d)
         \<and> group_sized (dc_finding_ids d) \<and> is_sha256_id (dc_chunk_id d)
      then Inr d else Inl AgentValidationErr)"

record retrieval_binding =
  rb_group_id :: string
  rb_rule_id :: rule_id
  rb_finding_ids :: "string list"
  rb_query_sha256 :: string
  rb_matched_terms :: "string list"
  rb_chunk_ids :: "string list"

definition make_binding :: "retrieval_binding \<Rightarrow> agent_exn + retrieval_binding" where
  "make_binding b =
     (if is_sha256_id (rb_group_id b) \<and> group_sized (rb_finding_ids b)
         \<and> is_sha256_id (rb_query_sha256 b)
         \<and> 1 \<le> length (rb_chunk_ids b) \<and> length (rb_chunk_ids b) \<le> 5
         \<and> distinct (rb_finding_ids b) \<and> distinct (rb_matched_terms b)
         \<and> distinct (rb_chunk_ids b)
         \<and> list_all (\<lambda>t. t \<noteq> [] \<and> strip t = t) (rb_matched_terms b)
         \<and> sort_key casefold (rb_matched_terms b) = rb_matched_terms b
      then Inr b else Inl AgentValidationErr)"

record human_item =
  hi_group_id :: "string option"
  hi_finding_ids :: "string list"
  hi_reason :: string
  hi_detail :: "string option"

definition make_human_item :: "human_item \<Rightarrow> agent_exn + human_item" where
  "make_human_item h =
     (if optional_id (hi_group_id h) \<and> group_sized (hi_finding_ids h)
         \<and> is_reason_text (hi_reason h)
         \<and> (case hi_detail h of None \<Rightarrow> True | Some d \<Rightarrow> 1 \<le> length d \<and> length d \<le> 500)
      then Inr h else Inl AgentValidationErr)"

record draft =
  df_explanations :: "explanation list"
  df_doc_candidates :: "doc_candidate list"
  df_human_items :: "human_item list"

section \<open>Decisions\<close>

datatype decision =
    CallTool string tool_request
  | FinishGroup string string
  | RequestHumanReview string string

fun decision_group :: "decision \<Rightarrow> string" where
  "decision_group (CallTool g q) = g"
| "decision_group (FinishGroup g t) = g"
| "decision_group (RequestHumanReview g t) = g"

fun make_decision :: "decision \<Rightarrow> agent_exn + decision" where
  "make_decision (CallTool g q) =
     (if is_sha256_id g
      then (case validate_request q of Inl _ \<Rightarrow> Inl AgentValidationErr | Inr q' \<Rightarrow> Inr (CallTool g q'))
      else Inl AgentValidationErr)"
| "make_decision (FinishGroup g t) =
     (if is_sha256_id g \<and> 1 \<le> length t \<and> length t \<le> 1000 \<and> strip t = t
      then Inr (FinishGroup g t) else Inl AgentValidationErr)"
| "make_decision (RequestHumanReview g t) =
     (if is_sha256_id g \<and> 1 \<le> length t \<and> length t \<le> 500 \<and> strip t = t
      then Inr (RequestHumanReview g t) else Inl AgentValidationErr)"

text \<open>\<open>parse_agent_decision\<close>: \<open>read\<close> is the JSON reader of pydantic, which turns a text into
  the fields of one of the three decisions or rejects it.\<close>

definition parse_agent_decision ::
  "(string \<Rightarrow> decision option) \<Rightarrow> string \<Rightarrow> agent_exn + decision" where
  "parse_agent_decision read content =
     (case read content of None \<Rightarrow> Inl AgentValidationErr | Some d \<Rightarrow> make_decision d)"

end
