(* ===== verification/AgentGroups.thy ===== *)
theory AgentGroups
  imports AgentModels OrderedDict
begin

text \<open>
  \<open>app/agent/graph_models.py\<close>, the functions: the content identity of a finding, the
  deterministic grouping of the findings for the review, and the checks of the run result.

  \<open>digest\<close> is the hexadecimal SHA-256 of the UTF-8 text.  Every call of a constructor that
  can refuse is a step of the error monad; \<open>all_groups\<close> is the list they build when none does.
\<close>

fun category_value :: "rule_category \<Rightarrow> string" where
  "category_value CONFIG = ''config''"
| "category_value VALIDATOR = ''validator''"
| "category_value SETTINGS = ''settings''"
| "category_value ROOT_MODEL = ''root_model''"
| "category_value BASE_MODEL_METHOD = ''base_model_method''"
| "category_value DATA_LOADING = ''data_loading''"
| "category_value FIELD = ''field''"
| "category_value GENERIC_MODEL = ''generic_model''"

section \<open>The identity of a finding\<close>

definition location_fields :: "finding_location \<Rightarrow> (string \<times> json) list" where
  "location_fields l =
     [(''start_line'', JNum (fl_start_line l)), (''start_column'', JNum (fl_start_column l)),
      (''end_line'', JNum (fl_end_line l)), (''end_column'', JNum (fl_end_column l))]"

definition fact_fields :: "evidence_fact \<Rightarrow> (string \<times> json) list" where
  "fact_fields e =
     [(''key'', JStr (evidence_key_value (ev_key e))), (''value'', JStr (ev_value e))]"

definition finding_fields :: "finding \<Rightarrow> (string \<times> json) list" where
  "finding_fields f =
     [(''rule_id'', JStr (rule_id_value (fd_rule_id f))),
      (''category'', JStr (category_value (fd_category f))),
      (''relative_path'', JStr (fd_path f)),
      (''location'', json_dict (location_fields (fd_location f))),
      (''old_api'', JStr (fd_old_api f)),
      (''matched_construct'', JStr (construct_value (fd_construct f))),
      (''evidence'', JArr (map (json_dict \<circ> fact_fields) (fd_evidence f))),
      (''confidence'', JStr (level_value (fd_confidence f))),
      (''severity'', JStr (level_value (fd_severity f))),
      (''requires_manual_review'', JBool (fd_requires_manual_review f))]"

definition finding_text :: "finding \<Rightarrow> string" where
  "finding_text f = dumps (json_dict (finding_fields f))"

definition finding_identity :: "(string \<Rightarrow> string) \<Rightarrow> finding \<Rightarrow> string" where
  "finding_identity digest f = ''sha256:'' @ digest (finding_text f)"

section \<open>Grouping\<close>

definition group_text :: "string \<Rightarrow> rule_id \<Rightarrow> string list \<Rightarrow> string" where
  "group_text path r ids =
     dumps (json_dict [(''finding_ids'', JArr (map JStr ids)), (''relative_path'', JStr path),
                       (''rule_id'', JStr (rule_id_value r))])"

definition group_of ::
  "(string \<Rightarrow> string) \<Rightarrow> string \<Rightarrow> rule_id \<Rightarrow> string list \<Rightarrow> ambiguous_group" where
  "group_of digest path r ids =
     \<lparr>ag_group_id = ''sha256:'' @ digest (group_text path r ids), ag_path = path,
      ag_rule_id = r, ag_finding_ids = ids\<rparr>"

definition groups_of_entry ::
  "(string \<Rightarrow> string) \<Rightarrow> (string \<times> rule_id) \<times> finding list
     \<Rightarrow> agent_exn + ambiguous_group list" where
  "groups_of_entry digest = (\<lambda>((path, r), items).
     traverseE (make_group \<circ> group_of digest path r)
       (chunks_of MAX_FINDINGS_PER_GROUP (sort (map (finding_identity digest) items))))"

definition grouped_findings ::
  "finding list \<Rightarrow> ((string \<times> rule_id) \<times> finding list) list" where
  "grouped_findings fs =
     sort_key (\<lambda>((path, r), items). (path, rule_id_value r))
       (group_by (\<lambda>f. (fd_path f, fd_rule_id f)) fs)"

definition prepare_ambiguous_groups ::
  "(string \<Rightarrow> string) \<Rightarrow> finding list \<Rightarrow> nat \<Rightarrow> agent_exn + preparation" where
  "prepare_ambiguous_groups digest fs max_groups =
     (if \<not> (1 \<le> max_groups \<and> max_groups \<le> MAX_AMBIGUOUS_GROUPS) then Inl AgentValueErr
      else
        (case make_rule_scan_result (sort_key finding_sort_key fs) of
           Inl _ \<Rightarrow> Inl AgentValidationErr
         | Inr checked \<Rightarrow>
             bindE (traverseE (groups_of_entry digest) (grouped_findings checked)) (\<lambda>gss.
               let all_groups = concat gss
               in make_preparation
                 \<lparr>pp_groups = take max_groups all_groups,
                  pp_overflow_ids = concat (map ag_finding_ids (drop max_groups all_groups))\<rparr>)))"

section \<open>The run result\<close>

record run_result =
  rr_analysis_id :: string
  rr_summary :: repository_summary
  rr_findings :: "finding list"
  rr_finding_ids :: "string list"
  rr_importers :: "one_hop_importer list"
  rr_groups :: "ambiguous_group list"
  rr_chunks :: "doc_chunk list"
  rr_bindings :: "retrieval_binding list"
  rr_steps :: "agent_step list"
  rr_draft :: draft
  rr_errors :: "validation_error list"
  rr_degraded :: "degraded_reason option"
  rr_terminal :: terminal_status
  rr_tool_calls :: nat
  rr_llm_calls :: nat
  rr_reviewed :: "string list"
  rr_retry_count :: nat

definition binding_ok ::
  "ambiguous_group list \<Rightarrow> string list \<Rightarrow> retrieval_binding \<Rightarrow> bool" where
  "binding_ok groups retrieved b \<longleftrightarrow>
     (case map_of (rev (map (\<lambda>g. (ag_group_id g, g)) groups)) (rb_group_id b) of
        None \<Rightarrow> False
      | Some g \<Rightarrow> rb_rule_id b = ag_rule_id g \<and> rb_finding_ids b = ag_finding_ids g
          \<and> set (rb_chunk_ids b) \<subseteq> set retrieved)"

definition valid_run_result :: "(string \<Rightarrow> string) \<Rightarrow> run_result \<Rightarrow> bool" where
  "valid_run_result digest r \<longleftrightarrow>
     1 \<le> length (rr_analysis_id r) \<and> length (rr_analysis_id r) \<le> 128
     \<and> length (rr_groups r) \<le> MAX_AMBIGUOUS_GROUPS
     \<and> length (rr_chunks r) \<le> MAX_RETRIEVED_CHUNKS
     \<and> length (rr_bindings r) \<le> MAX_AMBIGUOUS_GROUPS
     \<and> length (rr_steps r) \<le> MAX_AGENT_STEPS
     \<and> length (rr_errors r) \<le> MAX_AGENT_VALIDATION_ERRORS
     \<and> rr_tool_calls r \<le> MAX_AGENT_TOOL_CALLS
     \<and> rr_llm_calls r \<le> MAX_AMBIGUOUS_GROUPS * 2
     \<and> rr_retry_count r \<le> MAX_AGENT_RETRIES
     \<and> sort_key finding_sort_key (rr_findings r) = rr_findings r
     \<and> distinct (rr_findings r)
     \<and> rr_finding_ids r = map (finding_identity digest) (rr_findings r)
     \<and> distinct (rr_reviewed r)
     \<and> set (rr_reviewed r) \<subseteq> set (rr_finding_ids r)
     \<and> distinct (map oc_chunk_id (rr_chunks r))
     \<and> list_all (binding_ok (rr_groups r) (map oc_chunk_id (rr_chunks r))) (rr_bindings r)
     \<and> distinct (map (\<lambda>b. (rb_group_id b, rb_query_sha256 b)) (rr_bindings r))
     \<and> (rr_terminal r = RUN_COMPLETED) = (rr_degraded r = None)"

definition make_run_result :: "(string \<Rightarrow> string) \<Rightarrow> run_result \<Rightarrow> agent_exn + run_result" where
  "make_run_result digest r =
     (if valid_run_result digest r then Inr r else Inl AgentValidationErr)"

section \<open>Identities separate findings\<close>

lemma rule_id_value_eq: "rule_id_value a = rule_id_value b \<longleftrightarrow> a = b"
  using rule_id_value_inj by blast

lemma category_value_inj: "category_value a = category_value b \<longleftrightarrow> a = b"
  by (cases a; cases b) simp_all

lemma level_value_inj: "level_value a = level_value b \<longleftrightarrow> a = b"
  by (cases a; cases b) simp_all

text \<open>A sorted dict determines the values when the keys and their first order are fixed.\<close>

lemma json_dict_inject:
  assumes "json_dict xs = json_dict ys" "map fst xs = map fst ys" "distinct (map fst ys)"
  shows "xs = ys"
proof (rule nth_equalityI)
  show len: "length xs = length ys"
    using assms(2) by (metis length_map)
  from assms(1) have "set xs = set ys"
    by (metis json.inject(5) json_dict_def set_sort)
  fix i assume i: "i < length xs"
  then have "xs ! i \<in> set ys"
    using \<open>set xs = set ys\<close> nth_mem by blast
  moreover have "ys ! i \<in> set ys" "fst (xs ! i) = fst (ys ! i)"
    using i len assms(2) by (simp, metis nth_map)
  ultimately show "xs ! i = ys ! i"
    using assms(3) by (metis eq_key_imp_eq_value prod.collapse)
qed

lemma location_fields_inject:
  "json_dict (location_fields a) = json_dict (location_fields b) \<longleftrightarrow> a = b"
proof
  assume "json_dict (location_fields a) = json_dict (location_fields b)"
  then have "location_fields a = location_fields b"
    by (rule json_dict_inject) (simp_all add: location_fields_def)
  then show "a = b" by (simp add: location_fields_def)
qed simp

lemma fact_fields_inject:
  "json_dict (fact_fields a) = json_dict (fact_fields b) \<longleftrightarrow> a = b"
proof
  assume "json_dict (fact_fields a) = json_dict (fact_fields b)"
  then have "fact_fields a = fact_fields b"
    by (rule json_dict_inject) (simp_all add: fact_fields_def)
  then show "a = b"
    using evidence_key_value_inj by (simp add: fact_fields_def)
qed simp

lemma finding_text_inject: "finding_text a = finding_text b \<longleftrightarrow> a = b"
proof
  assume "finding_text a = finding_text b"
  then have "finding_fields a = finding_fields b"
    unfolding finding_text_def dumps_inject
    by (rule json_dict_inject) (simp_all add: finding_fields_def)
  moreover have "map (json_dict \<circ> fact_fields) xs = map (json_dict \<circ> fact_fields) ys
      \<Longrightarrow> xs = ys" for xs ys
    by (rule map_injective) (auto simp: inj_def fact_fields_inject)
  ultimately show "a = b"
    using rule_id_value_inj construct_value_inj
    by (simp add: finding_fields_def location_fields_inject category_value_inj level_value_inj)
qed simp

section \<open>The grouping, when no constructor refuses\<close>

definition entry_groups ::
  "(string \<Rightarrow> string) \<Rightarrow> (string \<times> rule_id) \<times> finding list \<Rightarrow> ambiguous_group list" where
  "entry_groups digest = (\<lambda>((path, r), items).
     map (group_of digest path r)
       (chunks_of MAX_FINDINGS_PER_GROUP (sort (map (finding_identity digest) items))))"

definition all_groups :: "(string \<Rightarrow> string) \<Rightarrow> finding list \<Rightarrow> ambiguous_group list" where
  "all_groups digest fs = concat (map (entry_groups digest) (grouped_findings fs))"

text \<open>What is asked of SHA-256: digests have the shape of a digest, and the texts of the
  findings at hand do not collide.\<close>

definition good_digest :: "(string \<Rightarrow> string) \<Rightarrow> finding list \<Rightarrow> bool" where
  "good_digest digest fs \<longleftrightarrow> (\<forall>s. is_digest (digest s)) \<and> inj_on digest (finding_text ` set fs)"

lemma sha256_id: "is_sha256_id (''sha256:'' @ d) \<longleftrightarrow> is_digest d"
  by (simp add: is_sha256_id_def)

lemmas sha256_id_simp [simp] = sha256_id [simplified]

lemma finding_identity_inj:
  assumes "good_digest digest fs"
  shows "inj_on (finding_identity digest) (set fs)"
  using assms
  by (auto simp: good_digest_def finding_identity_def inj_on_def finding_text_inject)

lemma sorted_wrt_concat:
  "(\<And>xs. xs \<in> set xss \<Longrightarrow> sorted_wrt R xs)
     \<Longrightarrow> sorted_wrt (\<lambda>xs ys. \<forall>x \<in> set xs. \<forall>y \<in> set ys. R x y) xss
     \<Longrightarrow> sorted_wrt R (concat xss)"
  by (induction xss) (auto simp: sorted_wrt_append)

lemma grouped_findings_entry:
  "((path, r), items) \<in> set (grouped_findings fs) \<longleftrightarrow>
     (path, r) \<in> (\<lambda>f. (fd_path f, fd_rule_id f)) ` set fs
     \<and> items = filter (\<lambda>f. (fd_path f, fd_rule_id f) = (path, r)) fs"
  by (simp only: grouped_findings_def set_sort group_by_entry)

lemma grouped_findings_sorted:
  "sorted_wrt (\<lambda>((p, r), _) ((p', r'), _). (p, rule_id_value r) < (p', rule_id_value r'))
     (grouped_findings fs)"
proof -
  let ?k = "\<lambda>((p :: string, r), items :: finding list). (p, rule_id_value r)"
  let ?d = "group_by (\<lambda>f. (fd_path f, fd_rule_id f)) fs"
  have "distinct (map fst ?d)"
    using group_by_keys by blast
  then have "distinct (map ?k ?d)"
    unfolding distinct_map
    by (auto simp: inj_on_def rule_id_value_eq group_by_entry)
  then have "distinct (map ?k (grouped_findings fs))"
    unfolding grouped_findings_def distinct_map by simp
  moreover have "sorted (map ?k (grouped_findings fs))"
    unfolding grouped_findings_def by (rule sorted_sort_key)
  ultimately have "sorted_wrt (<) (map ?k (grouped_findings fs))"
    by (simp only: strict_sorted_iff)
  then show ?thesis
    unfolding sorted_wrt_map by (rule sorted_wrt_mono_rel [rotated]) (auto split: prod.splits)
qed

lemma mset_concat_values:
  "mset (concat (map snd d)) = \<Sum>\<^sub># (image_mset (\<lambda>(k, ys). mset ys) (mset d))"
  by (induction d) auto

lemma grouped_findings_mset:
  "mset (concat (map snd (grouped_findings fs))) = mset fs"
  by (simp add: mset_concat_values grouped_findings_def group_by_mset)

lemma entry_ids:
  "concat (map ag_finding_ids (entry_groups digest ((path, r), items)))
     = sort (map (finding_identity digest) items)"
  by (simp add: entry_groups_def comp_def group_of_def concat_chunks MAX_FINDINGS_PER_GROUP_def)

lemma all_groups_ids:
  "mset (concat (map ag_finding_ids (all_groups digest fs)))
     = mset (map (finding_identity digest) fs)"
proof -
  have "mset (concat (map ag_finding_ids (concat (map (entry_groups digest) es))))
      = mset (map (finding_identity digest) (concat (map snd es)))" for es
  proof (induction es)
    case (Cons e es)
    obtain path r items where "e = ((path, r), items)" by (metis prod.exhaust)
    with Cons show ?case by (simp add: entry_ids)
  qed simp
  moreover have "mset (map (finding_identity digest) (concat (map snd (grouped_findings fs))))
      = mset (map (finding_identity digest) fs)"
    by (simp only: mset_map grouped_findings_mset)
  ultimately show ?thesis
    unfolding all_groups_def by (rule trans)
qed

text \<open>A group of the list: where it comes from and that its constructor accepts it.\<close>

lemma all_groups_member:
  assumes "good_digest digest fs" "\<forall>f \<in> set fs. valid_finding f" "distinct fs"
    and "((path, r), items) \<in> set (grouped_findings fs)"
    and "g \<in> set (entry_groups digest ((path, r), items))"
  shows "make_group g = Inr g" and "ag_path g = path" and "ag_rule_id g = r"
    and "set (ag_finding_ids g) \<subseteq> finding_identity digest ` set items"
    and "hd (ag_finding_ids g) \<in> finding_identity digest ` set items"
proof -
  let ?ids = "sort (map (finding_identity digest) items)"
  from assms(4) have items: "items = filter (\<lambda>f. (fd_path f, fd_rule_id f) = (path, r)) fs"
    and "(path, r) \<in> (\<lambda>f. (fd_path f, fd_rule_id f)) ` set fs"
    unfolding grouped_findings_entry by blast+
  with assms(2) have path: "1 \<le> length path" "length path \<le> 1024"
    by (auto simp: valid_finding_def)
  from assms(5) obtain c where c: "c \<in> set (chunks_of MAX_FINDINGS_PER_GROUP ?ids)"
    and g: "g = group_of digest path r c"
    by (auto simp: entry_groups_def)
  then show "ag_path g = path" "ag_rule_id g = r"
    by (simp_all add: group_of_def)
  have "distinct (map (finding_identity digest) items)"
    using assms(3) finding_identity_inj [OF assms(1)] unfolding items
    by (auto simp: distinct_map inj_on_def)
  then have "sorted_wrt (<) ?ids"
    by (simp add: strict_sorted_iff)
  then have "sorted_wrt (<) c"
    using chunks_sorted c by blast
  then have ids: "sort c = c" "distinct c"
    using sorted_by_iff [of "\<lambda>x. x" c] by (simp_all add: strict_sorted_iff)
  have size: "c \<noteq> []" "length c \<le> MAX_FINDINGS_PER_GROUP"
    using chunks_size [OF c] by simp_all
  have "set c \<subseteq> set (concat (chunks_of MAX_FINDINGS_PER_GROUP ?ids))"
    using c by auto
  then have sub: "set c \<subseteq> finding_identity digest ` set items"
    by (simp add: concat_chunks MAX_FINDINGS_PER_GROUP_def)
  then show "set (ag_finding_ids g) \<subseteq> finding_identity digest ` set items"
    by (simp add: g group_of_def)
  show "hd (ag_finding_ids g) \<in> finding_identity digest ` set items"
    using sub size(1) hd_in_set [of c] by (auto simp: g group_of_def)
  show "make_group g = Inr g"
    using assms(1) path ids size
    by (cases c) (simp_all add: make_group_def g group_of_def good_digest_def)
qed

lemma entry_heads_sorted:
  assumes "good_digest digest fs" "distinct fs" "((path, r), items) \<in> set (grouped_findings fs)"
  shows "sorted_wrt (<) (map group_key (entry_groups digest ((path, r), items)))"
proof -
  let ?ids = "sort (map (finding_identity digest) items)"
  from assms(3) have "items = filter (\<lambda>f. (fd_path f, fd_rule_id f) = (path, r)) fs"
    unfolding grouped_findings_entry by blast
  then have "distinct (map (finding_identity digest) items)"
    using assms(2) finding_identity_inj [OF assms(1)]
    by (auto simp: distinct_map inj_on_def)
  then have "sorted_wrt (<) ?ids"
    by (simp add: strict_sorted_iff)
  then have "sorted_wrt (<) (map hd (chunks_of MAX_FINDINGS_PER_GROUP ?ids))"
    by (rule chunks_heads)
  then show ?thesis
    by (simp add: entry_groups_def sorted_wrt_map comp_def group_key_def group_of_def)
qed

lemma all_groups_sorted:
  assumes "good_digest digest fs" "\<forall>f \<in> set fs. valid_finding f" "distinct fs"
  shows "sorted_wrt (<) (map group_key (all_groups digest fs))"
  unfolding all_groups_def map_concat map_map
proof (rule sorted_wrt_concat)
  show "sorted_wrt (<) ks"
    if "ks \<in> set (map (map group_key \<circ> entry_groups digest) (grouped_findings fs))" for ks
    using that entry_heads_sorted [OF assms(1,3)] by auto
  have "sorted_wrt (\<lambda>e e'. \<forall>k \<in> set (map group_key (entry_groups digest e)).
      \<forall>k' \<in> set (map group_key (entry_groups digest e')). k < k') (grouped_findings fs)"
  proof (rule sorted_wrt_mono_rel [OF _ grouped_findings_sorted])
    fix e e'
    assume e: "e \<in> set (grouped_findings fs)" "e' \<in> set (grouped_findings fs)"
      and less: "(\<lambda>((p, r), _) ((p', r'), _). (p, rule_id_value r) < (p', rule_id_value r')) e e'"
    show "\<forall>k \<in> set (map group_key (entry_groups digest e)).
        \<forall>k' \<in> set (map group_key (entry_groups digest e')). k < k'"
    proof (intro ballI)
      fix k k'
      assume "k \<in> set (map group_key (entry_groups digest e))"
        "k' \<in> set (map group_key (entry_groups digest e'))"
      then obtain g g' where g: "g \<in> set (entry_groups digest e)" "k = group_key g"
        "g' \<in> set (entry_groups digest e')" "k' = group_key g'" by auto
      obtain p r items p' r' items' where "e = ((p, r), items)" "e' = ((p', r'), items')"
        by (metis prod.exhaust)
      with e g less all_groups_member(2,3) [OF assms]
      show "k < k'" by (auto simp: group_key_def)
    qed
  qed
  then show "sorted_wrt (\<lambda>xs ys. \<forall>x \<in> set xs. \<forall>y \<in> set ys. x < y)
      (map (map group_key \<circ> entry_groups digest) (grouped_findings fs))"
    by (simp add: sorted_wrt_map)
qed

text \<open>The code's list is \<open>all_groups\<close>, cut after \<open>max_groups\<close>.\<close>

lemma prepare_eq:
  assumes "good_digest digest fs" "\<forall>f \<in> set fs. valid_finding f" "distinct fs"
    and "1 \<le> max_groups" "max_groups \<le> MAX_AMBIGUOUS_GROUPS"
  shows "prepare_ambiguous_groups digest fs max_groups
     = Inr \<lparr>pp_groups = take max_groups (all_groups digest (sort_key finding_sort_key fs)),
            pp_overflow_ids = concat (map ag_finding_ids
              (drop max_groups (all_groups digest (sort_key finding_sort_key fs))))\<rparr>"
proof -
  let ?fs = "sort_key finding_sort_key fs"
  let ?gs = "all_groups digest ?fs"
  let ?p = "\<lparr>pp_groups = take max_groups ?gs,
    pp_overflow_ids = concat (map ag_finding_ids (drop max_groups ?gs))\<rparr>"
  have fs: "good_digest digest ?fs" "\<forall>f \<in> set ?fs. valid_finding f" "distinct ?fs"
    using assms by (simp_all add: good_digest_def)
  have checked: "make_rule_scan_result ?fs = Inr ?fs"
    using fs(3) by (simp add: make_rule_scan_result_def)
  have entry: "groups_of_entry digest e = Inr (entry_groups digest e)"
    if "e \<in> set (grouped_findings ?fs)" for e
  proof -
    obtain path r items where e: "e = ((path, r), items)" by (metis prod.exhaust)
    have "traverseE (make_group \<circ> group_of digest path r) cs = Inr (map (group_of digest path r) cs)"
      if "set (map (group_of digest path r) cs) \<subseteq> set (entry_groups digest e)" for cs
      using that all_groups_member(1) [OF fs] \<open>e \<in> set (grouped_findings ?fs)\<close> e
      by (intro traverseE_total) auto
    then show ?thesis
      by (simp add: groups_of_entry_def entry_groups_def e)
  qed
  then have all: "traverseE (groups_of_entry digest) (grouped_findings ?fs)
      = Inr (map (entry_groups digest) (grouped_findings ?fs))"
    by (rule traverseE_total)
  have keys: "sorted_wrt (<) (map group_key ?gs)"
    by (rule all_groups_sorted [OF fs])
  then have "sorted_wrt (<) (map group_key (take max_groups ?gs))"
    by (simp only: sorted_wrt_take take_map [symmetric])
  then have taken: "sort (map group_key (take max_groups ?gs)) = map group_key (take max_groups ?gs)"
    "distinct (map group_key (take max_groups ?gs))"
    using sorted_by_iff [of "\<lambda>x. x" "map group_key (take max_groups ?gs)"]
    by (simp_all only: strict_sorted_iff map_ident)
  have "distinct (map (finding_identity digest) ?fs)"
    using fs(3) finding_identity_inj [OF fs(1)] by (simp add: distinct_map)
  then have ids: "distinct (concat (map ag_finding_ids ?gs))"
    using all_groups_ids [of digest ?fs] by (metis mset_eq_imp_distinct_iff)
  have split: "concat (map ag_finding_ids ?gs) = concat (map ag_finding_ids (take max_groups ?gs))
      @ concat (map ag_finding_ids (drop max_groups ?gs))"
    by (metis append_take_drop_id concat_append map_append)
  from ids have "distinct (concat (map ag_finding_ids (take max_groups ?gs)))"
    "distinct (concat (map ag_finding_ids (drop max_groups ?gs)))"
    "set (concat (map ag_finding_ids (take max_groups ?gs)))
       \<inter> set (concat (map ag_finding_ids (drop max_groups ?gs))) = {}"
    unfolding split by (simp_all only: distinct_append)
  moreover from this(1) have "card (set (concat (map ag_finding_ids (take max_groups ?gs))))
      = length (concat (map ag_finding_ids (take max_groups ?gs)))"
    by (rule distinct_card)
  moreover have "length (take max_groups ?gs) \<le> MAX_AMBIGUOUS_GROUPS"
    using assms(5) by simp
  ultimately have "make_preparation ?p = Inr ?p"
    using taken unfolding make_preparation_def Let_def preparation.select_convs
    by (simp only: simp_thms if_True)
  then show ?thesis
    using assms(4,5) checked all
    by (simp add: prepare_ambiguous_groups_def all_groups_def Let_def)
qed

lemma all_groups_origin:
  assumes "good_digest digest fs" "\<forall>f \<in> set fs. valid_finding f" "distinct fs"
    and "g \<in> set (all_groups digest fs)"
  shows "make_group g = Inr g"
    and "i \<in> set (ag_finding_ids g) \<Longrightarrow> \<exists>f \<in> set fs. finding_identity digest f = i
           \<and> fd_path f = ag_path g \<and> fd_rule_id f = ag_rule_id g"
proof -
  from assms(4) obtain path r items where e: "((path, r), items) \<in> set (grouped_findings fs)"
    and g: "g \<in> set (entry_groups digest ((path, r), items))"
    by (auto simp: all_groups_def)
  note member = all_groups_member [OF assms(1-3) e g]
  show "make_group g = Inr g" by (rule member)
  from e have "items = filter (\<lambda>f. (fd_path f, fd_rule_id f) = (path, r)) fs"
    unfolding grouped_findings_entry by blast
  with member show "\<exists>f \<in> set fs. finding_identity digest f = i
      \<and> fd_path f = ag_path g \<and> fd_rule_id f = ag_rule_id g" if "i \<in> set (ag_finding_ids g)"
    using that by fastforce
qed

end
