(* ===== verification/Tools.thy ===== *)
theory Tools
  imports ToolModels
begin

text \<open>
  \<open>app/agent/tools.py\<close>: the five tools and the runner around them.  One call sees one
  \<open>tool_env\<close>: the answers of the operating system, of the document search, whether the
  deadline passed or the calling task was cancelled while the tool was waiting (one that never
  waits meets neither), and the duration that is logged.
\<close>

text \<open>What the injected retriever did: raised one of the errors the tool converts, raised
  another exception, or returned a response.\<close>

datatype search_outcome = SearchFailed | SearchRaised | SearchReturned hybrid_response

record tool_env =
  te_source :: source_env
  te_search :: "string \<Rightarrow> search_outcome"
  te_expired :: bool
  te_cancelled :: bool
  te_duration_ms :: pyfloat

record tool_context =
  cx_validated :: zip_guard_result
  cx_findings :: "finding list"
  cx_graph :: local_import_graph

record tool_state =
  ts_sequence :: nat
  ts_events :: "audit_event list"

section \<open>The tools\<close>

definition get_findings_impl ::
  "tool_context \<Rightarrow> rule_id option \<Rightarrow> level option \<Rightarrow> tool_exn + tool_result" where
  "get_findings_impl cx rule_filter severity =
     (case make_rule_scan_result (cx_findings cx) of
        Inl _ \<Rightarrow> Inl (ToolErr GET_FINDINGS INFRASTRUCTURE_FAILURE)
      | Inr checked \<Rightarrow>
          (let matches = filter (\<lambda>f. (rule_filter = None \<or> Some (fd_rule_id f) = rule_filter)
                                   \<and> (severity = None \<or> Some (fd_severity f) = severity)) checked;
               returned = take MAX_FINDINGS_RETURNED matches
           in make_result (FindingsResult
                \<lparr>rt_total_count = length matches, rt_returned_count = length returned,
                 rt_truncated = (length returned < length matches), rf_findings = returned\<rparr>)))"

text \<open>The loop that fills the window until the characters run out.\<close>

fun take_lines :: "nat \<Rightarrow> (nat \<times> source_text) list \<Rightarrow> context_line list" where
  "take_lines remaining [] = []"
| "take_lines remaining ((n, txt) # window) =
     (if remaining = 0 then []
      else
        (let returned_text = take remaining txt;
             line_truncated = length returned_text < length txt
         in \<lparr>cl_line = n, cl_text = returned_text, cl_truncated = line_truncated\<rparr>
            # (if line_truncated then []
               else take_lines (remaining - length returned_text) window)))"

definition source_window ::
  "source_text list \<Rightarrow> nat \<Rightarrow> nat \<Rightarrow> nat \<times> nat \<times> (nat \<times> source_text) list" where
  "source_window all_lines line radius =
     (let center_line = min line (length all_lines);
          start_line = max 1 (center_line - radius);
          end_line = min (length all_lines) (center_line + radius)
      in (start_line, end_line,
          map (\<lambda>n. (n, all_lines ! (n - 1))) [start_line ..< end_line + 1]))"

definition source_context :: "string \<Rightarrow> nat \<Rightarrow> nat \<Rightarrow> source_text list \<Rightarrow> source_result" where
  "source_context path line radius all_lines =
     (if all_lines = []
      then \<lparr>rt_total_count = 0, rt_returned_count = 0, rt_truncated = False, rs_path = path,
            rs_requested_line = line, rs_radius = radius, rs_file_line_count = 0,
            rs_start_line = None, rs_end_line = None, rs_source_lines = [],
            rs_total_characters = 0, rs_returned_characters = 0\<rparr>
      else
        (case source_window all_lines line radius of
           (start_line, end_line, window) \<Rightarrow>
             (let total_characters = sum_list (map (\<lambda>(n, txt). length txt) window);
                  returned_lines = take_lines MAX_SOURCE_CONTEXT_CHARACTERS window;
                  returned_characters = line_characters returned_lines
              in \<lparr>rt_total_count = length window, rt_returned_count = length returned_lines,
                  rt_truncated = (length returned_lines < length window
                                  \<or> returned_characters < total_characters),
                  rs_path = path, rs_requested_line = line, rs_radius = radius,
                  rs_file_line_count = length all_lines, rs_start_line = Some start_line,
                  rs_end_line = Some end_line, rs_source_lines = returned_lines,
                  rs_total_characters = total_characters,
                  rs_returned_characters = returned_characters\<rparr>)))"

definition get_source_context_impl ::
  "(byte list \<Rightarrow> string) \<Rightarrow> tool_context \<Rightarrow> tool_env \<Rightarrow> string \<Rightarrow> nat \<Rightarrow> nat
     \<Rightarrow> tool_exn + tool_result" where
  "get_source_context_impl sha cx env path line radius =
     (case find (\<lambda>f. pf_relative_path f = path) (zr_python_files (cx_validated cx)) of
        None \<Rightarrow> Inl (ToolErr GET_SOURCE_CONTEXT UNKNOWN_PATH)
      | Some inventory \<Rightarrow>
          (case read_validated_python_source sha (te_source env) (cx_validated cx) inventory of
             Inl (ScannerErr e) \<Rightarrow>
               Inl (ToolErr GET_SOURCE_CONTEXT
                 (if e = INVALID_INVENTORY then INFRASTRUCTURE_FAILURE
                  else SOURCE_IDENTITY_MISMATCH))
           | Inl _ \<Rightarrow> Inl ToolRaised
           | Inr source_text \<Rightarrow>
               make_result (SourceResult
                 (source_context path line radius (splitlines source_text)))))"

definition get_local_importers_impl ::
  "tool_context \<Rightarrow> string \<Rightarrow> tool_exn + tool_result" where
  "get_local_importers_impl cx path =
     (case make_graph (cx_graph cx) of
        Inl _ \<Rightarrow> Inl (ToolErr GET_LOCAL_IMPORTERS INFRASTRUCTURE_FAILURE)
      | Inr graph \<Rightarrow>
          if path \<notin> set (map mod_path (gr_modules graph))
          then Inl (ToolErr GET_LOCAL_IMPORTERS UNKNOWN_PATH)
          else
            (case get_importers graph path of
               Inl _ \<Rightarrow> Inl ToolRaised
             | Inr edges \<Rightarrow>
                 (let importers = map (\<lambda>e. \<lparr>li_path = ed_importer_path e,
                        li_module = ed_importer_module e\<rparr>) (take MAX_IMPORTERS_RETURNED edges)
                  in make_result (ImportersResult
                       \<lparr>rt_total_count = length edges, rt_returned_count = length importers,
                        rt_truncated = (length importers < length edges), ri_path = path,
                        ri_importers = importers\<rparr>))))"

definition bounded_doc_chunk :: "hybrid_result \<Rightarrow> doc_chunk" where
  "bounded_doc_chunk r =
     (let full_text = pv_text (hs_provenance r);
          returned_text = take MAX_DOC_CHUNK_CHARACTERS full_text
      in \<lparr>oc_result = r\<lparr>hs_provenance := (hs_provenance r)\<lparr>pv_text := returned_text\<rparr>\<rparr>,
          oc_full_text_characters = length full_text,
          oc_text_truncated = (length returned_text < length full_text)\<rparr>)"

text \<open>\<open>HybridSearchResponse.model_validate\<close> of the dumped response: every result again.\<close>

definition revalidate_response :: "hybrid_response \<Rightarrow> retrieval_exn + hybrid_response" where
  "revalidate_response r =
     bindE (traverseE make_hybrid_result (hy_results r)) (\<lambda>_.
     bindE (traverseE make_hybrid_result (hy_top_results r)) (\<lambda>_. make_hybrid_response r))"

definition search_official_docs_impl ::
  "tool_env \<Rightarrow> string \<Rightarrow> nat \<Rightarrow> tool_exn + tool_result" where
  "search_official_docs_impl env query top_k =
     (case te_search env query of
        SearchFailed \<Rightarrow> Inl (ToolErr SEARCH_OFFICIAL_DOCS RETRIEVAL_FAILURE)
      | SearchRaised \<Rightarrow> Inl ToolRaised
      | SearchReturned raw_response \<Rightarrow>
          (case revalidate_response raw_response of
             Inl _ \<Rightarrow> Inl (ToolErr SEARCH_OFFICIAL_DOCS RETRIEVAL_FAILURE)
           | Inr response \<Rightarrow>
               (let selected = take top_k (hy_results response);
                    docs = map bounded_doc_chunk selected
                in if \<not> list_all valid_doc_chunk docs then Inl ToolRaised
                   else make_result (DocsResult
                     \<lparr>rt_total_count = length (hy_results response),
                      rt_returned_count = length docs,
                      rt_truncated = (length selected < length (hy_results response)
                                      \<or> (\<exists>c \<in> set docs. oc_text_truncated c)),
                      rd_query_characters = length query, rd_requested_top_k = top_k,
                      rd_results = docs,
                      rd_returned_text_characters = sum_list (map (length \<circ> oc_text) docs)\<rparr>))))"

definition rule_id_of :: "string \<Rightarrow> rule_id option" where
  "rule_id_of s = find (\<lambda>r. rule_id_value r = s) all_rule_ids"

definition lookup_rule_spec_impl :: "string \<Rightarrow> tool_exn + tool_result" where
  "lookup_rule_spec_impl s =
     (case rule_id_of s of
        None \<Rightarrow> Inl (ToolErr LOOKUP_RULE_SPEC UNKNOWN_RULE)
      | Some r \<Rightarrow>
          (case get_rule_spec r of
             Inl _ \<Rightarrow> Inl (ToolErr LOOKUP_RULE_SPEC INFRASTRUCTURE_FAILURE)
           | Inr spec \<Rightarrow> make_result (RuleResult
               \<lparr>rt_total_count = 1, rt_returned_count = 1, rt_truncated = False,
                rr_rule_spec = spec\<rparr>)))"

fun run_tool ::
  "(byte list \<Rightarrow> string) \<Rightarrow> tool_context \<Rightarrow> tool_env \<Rightarrow> tool_request
     \<Rightarrow> tool_exn + tool_result" where
  "run_tool sha cx env (GetFindings r s) = get_findings_impl cx r s"
| "run_tool sha cx env (GetSourceContext p l r) =
     get_source_context_impl sha cx env p (nat l) (nat r)"
| "run_tool sha cx env (GetLocalImporters p) = get_local_importers_impl cx p"
| "run_tool sha cx env (SearchOfficialDocs q k) = search_official_docs_impl env q (nat k)"
| "run_tool sha cx env (LookupRuleSpec r) = lookup_rule_spec_impl r"

section \<open>The runner\<close>

text \<open>\<open>_record\<close>: the sequence number is taken even when the event is refused.\<close>

definition record_event ::
  "tool_name \<Rightarrow> tool_status \<Rightarrow> tool_error_type option \<Rightarrow> nat \<Rightarrow> nat \<Rightarrow> bool \<Rightarrow> pyfloat
     \<Rightarrow> tool_state \<Rightarrow> (tool_exn + unit) \<times> tool_state" where
  "record_event tool status err inputs returned was_truncated duration st =
     (let st' = st\<lparr>ts_sequence := ts_sequence st + 1\<rparr>
      in case make_audit_event \<lparr>ae_sequence = ts_sequence st', ae_tool = tool,
             ae_status = status, ae_error = err, ae_input_characters = inputs,
             ae_returned_count = returned, ae_truncated = was_truncated,
             ae_duration_ms = max duration 0\<rparr> of
           Inl e \<Rightarrow> (Inl e, st')
         | Inr event \<Rightarrow> (Inr (), st'\<lparr>ts_events := ts_events st' @ [event]\<rparr>))"

definition record_failure ::
  "tool_name \<Rightarrow> tool_error_type \<Rightarrow> nat \<Rightarrow> tool_status \<Rightarrow> pyfloat \<Rightarrow> tool_exn
     \<Rightarrow> tool_state \<Rightarrow> (tool_exn + tool_result) \<times> tool_state" where
  "record_failure tool err inputs status duration raised st =
     (case record_event tool status (Some err) inputs 0 False duration st of
        (Inl e, st') \<Rightarrow> (Inl e, st')
      | (Inr _, st') \<Rightarrow> (Inl raised, st'))"

text \<open>\<open>_execute\<close>.  A cancellation from outside (the deadline of the whole run) reaches the tool as
  \<open>CancelledError\<close>, which is no \<open>Exception\<close>: it passes every handler and nothing is recorded.
  The checks before the first \<open>await\<close> cannot be cancelled.\<close>

definition execute ::
  "(byte list \<Rightarrow> string) \<Rightarrow> tool_context \<Rightarrow> tool_env \<Rightarrow> tool_request \<Rightarrow> tool_state
     \<Rightarrow> (tool_exn + tool_result) \<times> tool_state" where
  "execute sha cx env request st =
     (let tool = tool_of request; d = te_duration_ms env
      in case validate_request request of
           Inl err \<Rightarrow> record_failure tool err 0 TOOL_ERROR d (ToolErr tool err) st
         | Inr checked \<Rightarrow>
             (let inputs = input_characters checked
              in if te_cancelled env then (Inl ToolCancelled, st)
                 else if te_expired env
                 then record_failure tool TIMEOUT inputs TOOL_TIMEOUT d (ToolErr tool TIMEOUT) st
                 else (case run_tool sha cx env checked of
                     Inl (ToolErr t err) \<Rightarrow>
                       record_failure tool err inputs TOOL_ERROR d (ToolErr t err) st
                   | Inl ToolRaised \<Rightarrow>
                       record_failure tool INFRASTRUCTURE_FAILURE inputs TOOL_ERROR d ToolRaised st
                   | Inl ToolCancelled \<Rightarrow> (Inl ToolCancelled, st)
                   | Inr res \<Rightarrow>
                       (case record_event tool
                            (if returned_count res = 0 then TOOL_EMPTY else TOOL_SUCCESS) None
                            inputs (returned_count res) (truncated res) d st of
                          (Inl e, st') \<Rightarrow> (Inl e, st')
                        | (Inr _, st') \<Rightarrow> (Inr res, st')))))"

end
