(* ===== verification/AgentGraph.thy ===== *)
theory AgentGraph
  imports AgentGroups Tools
begin

text \<open>
  \<open>app/agent/graph.py\<close>: the state, the nodes and the routes of the bounded review graph, and
  its run.

  What the nodes meet is a \<open>node_env\<close>: whether the overall timeout cancelled the graph before
  or in the node, the readings of the monotonic clock, what the model client did in each attempt, and
  the environment of a tool call.  A run has one for every node it visits.  The graph engine
  (LangGraph) is the function \<open>run_graph\<close>: it runs one node after another along the declared
  edges and gives up after \<open>recursion_limit\<close> of them.
\<close>

datatype llm_outcome =
    LlmTimeout | LlmClientFailure | LlmValueFailure | LlmRaised | LlmAnswer string string

record node_env =
  ne_cancelled :: bool
  ne_clock :: "nat \<Rightarrow> pyfloat"
  ne_llm :: "string \<Rightarrow> nat \<Rightarrow> llm_outcome"
  ne_tool :: tool_env

text \<open>
  The agent object with what it calls outside: the digest of a text, the digest of bytes for
  the tools, the JSON reader of pydantic, and the order in which a set of strings is iterated.
\<close>

record agent_config =
  ac_digest :: "string \<Rightarrow> string"
  ac_sha :: "byte list \<Rightarrow> string"
  ac_read :: "string \<Rightarrow> decision option"
  ac_set_order :: "string list \<Rightarrow> string list"
  ac_system_prompt :: string
  ac_context :: tool_context
  ac_has_model :: bool
  ac_limits :: runtime_limits

record agent_state =
  gs_analysis_id :: string
  gs_summary :: repository_summary
  gs_findings :: "finding list"
  gs_finding_ids :: "string list"
  gs_importers :: "one_hop_importer list"
  gs_groups :: "ambiguous_group list"
  gs_overflow_ids :: "string list"
  gs_chunks :: "doc_chunk list"
  gs_bindings :: "retrieval_binding list"
  gs_steps :: "agent_step list"
  gs_draft :: draft
  gs_errors :: "validation_error list"
  gs_degraded :: "degraded_reason option"
  gs_tool_calls :: nat
  gs_llm_calls :: nat
  gs_reviewed :: "string list"
  gs_retry_count :: nat
  gs_llm_review :: bool
  gs_index :: nat
  gs_pending :: "decision option"
  gs_model :: "string option"
  gs_finished :: bool
  gs_deadline :: pyfloat
  gs_tools :: tool_state

section \<open>The draft\<close>

definition empty_draft :: draft where
  "empty_draft = \<lparr>df_explanations = [], df_doc_candidates = [], df_human_items = []\<rparr>"

definition add_explanation :: "draft \<Rightarrow> explanation \<Rightarrow> draft" where
  "add_explanation d e = d\<lparr>df_explanations := df_explanations d @ [e]\<rparr>"

definition add_doc_candidate :: "draft \<Rightarrow> doc_candidate \<Rightarrow> draft" where
  "add_doc_candidate d c =
     (if (dc_group_id c, dc_chunk_id c)
         \<in> set (map (\<lambda>x. (dc_group_id x, dc_chunk_id x)) (df_doc_candidates d))
      then d else d\<lparr>df_doc_candidates := df_doc_candidates d @ [c]\<rparr>)"

definition human_key :: "human_item \<Rightarrow> string option \<times> string list \<times> string" where
  "human_key h = (hi_group_id h, hi_finding_ids h, hi_reason h)"

definition add_human_item :: "draft \<Rightarrow> human_item \<Rightarrow> draft" where
  "add_human_item d h =
     (if human_key h \<in> set (map human_key (df_human_items d)) then d
      else d\<lparr>df_human_items := df_human_items d @ [h]\<rparr>)"

fun add_human_groups ::
  "draft \<Rightarrow> ambiguous_group list \<Rightarrow> string \<Rightarrow> agent_exn + draft" where
  "add_human_groups d [] reason = Inr d"
| "add_human_groups d (g # gs) reason =
     bindE (make_human_item \<lparr>hi_group_id = Some (ag_group_id g),
              hi_finding_ids = ag_finding_ids g, hi_reason = reason, hi_detail = None\<rparr>) (\<lambda>h.
       add_human_groups (add_human_item d h) gs reason)"

fun add_human_chunks ::
  "draft \<Rightarrow> string list list \<Rightarrow> string \<Rightarrow> agent_exn + draft" where
  "add_human_chunks d [] reason = Inr d"
| "add_human_chunks d (ids # rest) reason =
     bindE (make_human_item \<lparr>hi_group_id = None, hi_finding_ids = ids, hi_reason = reason,
              hi_detail = None\<rparr>) (\<lambda>h.
       add_human_chunks (add_human_item d h) rest reason)"

definition add_human_finding_ids :: "draft \<Rightarrow> string list \<Rightarrow> string \<Rightarrow> agent_exn + draft" where
  "add_human_finding_ids d ids reason =
     add_human_chunks d (chunks_of MAX_FINDINGS_PER_GROUP ids) reason"

definition add_remaining_human_groups ::
  "draft \<Rightarrow> ambiguous_group list \<Rightarrow> nat \<Rightarrow> string \<Rightarrow> agent_exn + draft" where
  "add_remaining_human_groups d groups start_index reason =
     add_human_groups d (drop start_index groups) reason"

definition append_validation_error ::
  "validation_error list \<Rightarrow> validation_error \<Rightarrow> validation_error list" where
  "append_validation_error errors e =
     (if length errors \<ge> MAX_AGENT_VALIDATION_ERRORS then errors else errors @ [e])"

section \<open>Parts of the nodes\<close>

definition current_group :: "agent_state \<Rightarrow> agent_exn + ambiguous_group" where
  "current_group st =
     (if gs_index st < length (gs_groups st) then Inr (gs_groups st ! gs_index st)
      else Inl AgentRuntimeErr)"

definition current_group_id :: "agent_state \<Rightarrow> string option" where
  "current_group_id st =
     (if gs_index st < length (gs_groups st) then Some (ag_group_id (gs_groups st ! gs_index st))
      else None)"

text \<open>\<open>_begin_step\<close>: \<open>Inr None\<close> when the step limit is reached.\<close>

definition begin_step ::
  "runtime_limits \<Rightarrow> agent_state \<Rightarrow> agent_node \<Rightarrow> tool_name option
     \<Rightarrow> agent_exn + agent_step list option" where
  "begin_step limits st node tool =
     (if length (gs_steps st) \<ge> lm_max_steps limits then Inr None
      else bindE (make_step \<lparr>st_sequence = length (gs_steps st) + 1, st_node = node,
                    st_status = STEP_SUCCESS, st_group_id = current_group_id st, st_tool = tool\<rparr>)
             (\<lambda>s. Inr (Some (gs_steps st @ [s]))))"

text \<open>\<open>_degraded_update\<close>: the fields the caller passes are already in the state.\<close>

definition degraded_update :: "agent_state \<Rightarrow> degraded_reason \<Rightarrow> agent_exn + agent_state" where
  "degraded_update st reason =
     bindE (add_remaining_human_groups (gs_draft st) (gs_groups st) (gs_index st)
              (degraded_value reason)) (\<lambda>d.
       let current = (if gs_degraded st = Some AMBIGUOUS_GROUP_LIMIT then Some reason
                      else gs_degraded st)
       in Inr (st\<lparr>gs_draft := d,
            gs_degraded := (case current of None \<Rightarrow> Some reason | Some r \<Rightarrow> Some r),
            gs_pending := None, gs_model := None, gs_finished := True\<rparr>))"

text \<open>The error list with one more entry for the current group, and \<open>_limit_error\<close>.\<close>

definition add_error ::
  "agent_state \<Rightarrow> agent_node \<Rightarrow> string \<Rightarrow> string option \<Rightarrow> agent_exn + agent_state" where
  "add_error st node error_type gid =
     bindE (make_validation_error \<lparr>ve_node = node, ve_error_type = error_type,
              ve_group_id = gid\<rparr>) (\<lambda>e.
       Inr (st\<lparr>gs_errors := append_validation_error (gs_errors st) e\<rparr>))"

definition limit_error ::
  "agent_state \<Rightarrow> agent_node \<Rightarrow> degraded_reason \<Rightarrow> agent_exn + agent_state" where
  "limit_error st node reason =
     add_error st node (degraded_value reason) (current_group_id st)"

definition stop_with_error ::
  "agent_state \<Rightarrow> agent_node \<Rightarrow> degraded_reason \<Rightarrow> agent_exn + agent_state" where
  "stop_with_error st node reason =
     bindE (limit_error st node reason) (\<lambda>st'. degraded_update st' reason)"

section \<open>The request to the model\<close>

definition tool_value :: "tool_name \<Rightarrow> string" where
  "tool_value t =
     (case t of GET_FINDINGS \<Rightarrow> ''get_findings'' | GET_SOURCE_CONTEXT \<Rightarrow> ''get_source_context''
      | GET_LOCAL_IMPORTERS \<Rightarrow> ''get_local_importers''
      | SEARCH_OFFICIAL_DOCS \<Rightarrow> ''search_official_docs''
      | LOOKUP_RULE_SPEC \<Rightarrow> ''lookup_rule_spec'')"

definition finding_by_id ::
  "(string \<Rightarrow> string) \<Rightarrow> finding list \<Rightarrow> string \<Rightarrow> finding option" where
  "finding_by_id digest fs i = map_of (rev (map (\<lambda>f. (finding_identity digest f, f)) fs)) i"

definition finding_summary :: "string \<Rightarrow> finding \<Rightarrow> json" where
  "finding_summary i f =
     json_dict [(''finding_id'', JStr i), (''old_api'', JStr (fd_old_api f)),
                (''matched_construct'', JStr (construct_value (fd_construct f))),
                (''line'', JNum (fl_start_line (fd_location f)))]"

definition group_json :: "ambiguous_group \<Rightarrow> json" where
  "group_json g =
     json_dict [(''group_id'', JStr (ag_group_id g)), (''relative_path'', JStr (ag_path g)),
                (''rule_id'', JStr (rule_id_value (ag_rule_id g))),
                (''finding_ids'', JArr (map JStr (ag_finding_ids g))),
                (''reason'', JStr ''evidence_selection'')]"

definition valid_message :: "string \<Rightarrow> bool" where
  "valid_message content \<longleftrightarrow> 1 \<le> length content \<and> length content \<le> 131072"

definition llm_request ::
  "agent_config \<Rightarrow> finding list \<Rightarrow> ambiguous_group \<Rightarrow> agent_exn + string" where
  "llm_request cfg fs g =
     bindE (traverseE (\<lambda>i. case finding_by_id (ac_digest cfg) fs i of
                None \<Rightarrow> Inl AgentRuntimeErr | Some f \<Rightarrow> Inr (finding_summary i f))
              (ag_finding_ids g)) (\<lambda>summaries.
       let content = dumps (json_dict [(''group'', group_json g), (''findings'', JArr summaries),
             (''allowed_tools'', JArr (map (JStr \<circ> tool_value)
                [GET_FINDINGS, GET_SOURCE_CONTEXT, GET_LOCAL_IMPORTERS, SEARCH_OFFICIAL_DOCS,
                 LOOKUP_RULE_SPEC]))])
       in if valid_message (ac_system_prompt cfg) \<and> valid_message content then Inr content
          else Inl AgentValidationErr)"

section \<open>The nodes\<close>

definition prepare_node :: "agent_config \<Rightarrow> agent_state \<Rightarrow> agent_exn + agent_state" where
  "prepare_node cfg st =
     bindE (begin_step (ac_limits cfg) st PREPARE None) (\<lambda>steps.
       case steps of
         None \<Rightarrow> degraded_update st STEP_LIMIT
       | Some steps' \<Rightarrow>
           bindE (prepare_ambiguous_groups (ac_digest cfg) (gs_findings st)
                    (lm_max_ambiguous_groups (ac_limits cfg))) (\<lambda>p.
           bindE (if pp_overflow_ids p = [] then Inr (gs_draft st, gs_degraded st)
                  else bindE (add_human_finding_ids (gs_draft st) (pp_overflow_ids p)
                                (degraded_value AMBIGUOUS_GROUP_LIMIT)) (\<lambda>d.
                         Inr (d, Some AMBIGUOUS_GROUP_LIMIT))) (\<lambda>(d, reason).
           let blocked = (if pp_groups p \<noteq> [] \<and> \<not> gs_llm_review st then Some LLM_REVIEW_DISABLED
                          else if pp_groups p \<noteq> [] \<and> \<not> ac_has_model cfg then Some NO_MODEL
                          else None)
           in bindE (case blocked of None \<Rightarrow> Inr (d, reason, pp_groups p = [])
                     | Some r \<Rightarrow> bindE (add_human_groups d (pp_groups p) (degraded_value r)) (\<lambda>d'.
                         Inr (d', Some r, True))) (\<lambda>(d', reason', finished).
              Inr (st\<lparr>gs_groups := pp_groups p, gs_overflow_ids := pp_overflow_ids p,
                     gs_steps := steps', gs_draft := d', gs_degraded := reason',
                     gs_finished := finished\<rparr>)))))"

text \<open>One attempt of the model: a reason to degrade, or a decision on the group with the
  name of the model.\<close>

definition attempt_outcome ::
  "agent_config \<Rightarrow> string \<Rightarrow> llm_outcome \<Rightarrow> agent_exn + (degraded_reason + decision \<times> string)"
where
  "attempt_outcome cfg group_id outcome =
     (case outcome of
        LlmTimeout \<Rightarrow> Inr (Inl LLM_TIMEOUT)
      | LlmClientFailure \<Rightarrow> Inr (Inl LLM_ERROR)
      | LlmValueFailure \<Rightarrow> Inr (Inl LLM_INVALID_RESPONSE)
      | LlmRaised \<Rightarrow> Inl AgentRaised
      | LlmAnswer model content \<Rightarrow>
          (case parse_agent_decision (ac_read cfg) content of
             Inl _ \<Rightarrow> Inr (Inl LLM_INVALID_RESPONSE)
           | Inr d \<Rightarrow> if decision_group d \<noteq> group_id then Inr (Inl LLM_INVALID_RESPONSE)
                      else Inr (Inr (d, model))))"

text \<open>
  The loop over the attempts; \<open>st\<close> already holds the new step and the reviewed identities,
  and counts the calls, the retries and the errors.  \<open>left\<close> is \<open>max_retries - attempt\<close>.
\<close>

fun decide_attempts ::
  "agent_config \<Rightarrow> node_env \<Rightarrow> string \<Rightarrow> string \<Rightarrow> nat \<Rightarrow> nat \<Rightarrow> agent_state
     \<Rightarrow> agent_exn + agent_state" where
  "decide_attempts cfg env group_id request attempt left st =
     (if gs_deadline st - ne_clock env (2 * attempt) \<le> 0
      then bindE (add_error st LLM_DECIDE (degraded_value AGENT_TIMEOUT) (Some group_id)) (\<lambda>st'.
             degraded_update st' AGENT_TIMEOUT)
      else
        (let st1 = st\<lparr>gs_llm_calls := gs_llm_calls st + 1\<rparr>
         in if \<not> ac_has_model cfg then Inl AgentRuntimeErr
            else bindE (attempt_outcome cfg group_id (ne_llm env request attempt)) (\<lambda>r.
              case r of
                Inr (d, model) \<Rightarrow> Inr (st1\<lparr>gs_pending := Some d, gs_model := Some model\<rparr>)
              | Inl reason \<Rightarrow>
                  bindE (add_error st1 LLM_DECIDE (degraded_value reason) (Some group_id)) (\<lambda>st2.
                    if left \<noteq> 0 \<and> gs_deadline st - ne_clock env (2 * attempt + 1) > 0
                    then decide_attempts cfg env group_id request (attempt + 1) (left - 1)
                           (st2\<lparr>gs_retry_count := gs_retry_count st2 + 1\<rparr>)
                    else degraded_update st2 reason))))"

declare decide_attempts.simps [simp del]

definition llm_decide_node ::
  "agent_config \<Rightarrow> node_env \<Rightarrow> agent_state \<Rightarrow> agent_exn + agent_state" where
  "llm_decide_node cfg env st =
     (if gs_finished st then Inr (st\<lparr>gs_pending := None, gs_model := None\<rparr>)
      else bindE (begin_step (ac_limits cfg) st LLM_DECIDE None) (\<lambda>steps.
        case steps of
          None \<Rightarrow> stop_with_error st LLM_DECIDE STEP_LIMIT
        | Some steps' \<Rightarrow>
            bindE (current_group st) (\<lambda>g.
              if set (ag_finding_ids g) \<inter> set (gs_reviewed st) \<noteq> {} then Inl AgentRuntimeErr
              else bindE (llm_request cfg (gs_findings st) g) (\<lambda>request.
                decide_attempts cfg env (ag_group_id g) request 0 (lm_max_retries (ac_limits cfg))
                  (st\<lparr>gs_steps := steps', gs_reviewed := gs_reviewed st @ ag_finding_ids g\<rparr>)))))"

fun is_tool_call :: "decision \<Rightarrow> bool" where
  "is_tool_call (CallTool g q) = True"
| "is_tool_call (FinishGroup g t) = False"
| "is_tool_call (RequestHumanReview g t) = False"

definition validate_action_node ::
  "agent_config \<Rightarrow> node_env \<Rightarrow> agent_state \<Rightarrow> agent_exn + agent_state" where
  "validate_action_node cfg env st =
     (case (gs_finished st, gs_pending st) of
        (False, Some d) \<Rightarrow>
          bindE (begin_step (ac_limits cfg) st VALIDATE_ACTION None) (\<lambda>steps.
            case steps of
              None \<Rightarrow> stop_with_error st VALIDATE_ACTION STEP_LIMIT
            | Some steps' \<Rightarrow>
                (let st' = st\<lparr>gs_steps := steps'\<rparr>
                 in if gs_deadline st - ne_clock env 0 \<le> 0
                    then stop_with_error st' VALIDATE_ACTION AGENT_TIMEOUT
                    else if is_tool_call d
                            \<and> gs_tool_calls st \<ge> lm_max_tool_calls (ac_limits cfg)
                    then stop_with_error st' VALIDATE_ACTION TOOL_CALL_LIMIT
                    else Inr st'))
      | _ \<Rightarrow> Inr (st\<lparr>gs_pending := None\<rparr>))"

definition remove_prefix :: "string \<Rightarrow> string \<Rightarrow> string" where
  "remove_prefix p s = (if take (length p) s = p then drop (length p) s else s)"

definition replace_char :: "char \<Rightarrow> char \<Rightarrow> string \<Rightarrow> string" where
  "replace_char a b = map (\<lambda>c. if c = a then b else c)"

text \<open>\<open>_matched_query_terms\<close>: the set of terms is iterated in some order before it is sorted
  by its folded form.\<close>

definition matched_query_terms ::
  "agent_config \<Rightarrow> finding list \<Rightarrow> ambiguous_group \<Rightarrow> string \<Rightarrow> agent_exn + string list" where
  "matched_query_terms cfg fs g query =
     (case get_rule_spec (ag_rule_id g) of
        Inl _ \<Rightarrow> Inl AgentRuntimeErr
      | Inr spec \<Rightarrow>
          bindE (traverseE (\<lambda>i. case finding_by_id (ac_digest cfg) fs i of
                     None \<Rightarrow> Inl AgentRuntimeErr | Some f \<Rightarrow> Inr (fd_old_api f))
                   (ag_finding_ids g)) (\<lambda>apis.
            let rv = rule_id_value (ag_rule_id g); cv = category_value (spec_category spec);
                candidates = [rv, remove_prefix ''pydantic_v1_'' rv, cv,
                              replace_char (CHR ''_'') (CHR '' '') cv] @ spec_old_apis spec @ apis;
                terms = filter (\<lambda>t. sublist (casefold t) (casefold query)) candidates
            in Inr (sort_key casefold (ac_set_order cfg (remdups terms)))))"

fun add_doc_results ::
  "draft \<Rightarrow> string \<Rightarrow> ambiguous_group \<Rightarrow> doc_chunk list \<Rightarrow> agent_exn + draft" where
  "add_doc_results d analysis_id g [] = Inr d"
| "add_doc_results d analysis_id g (c # cs) =
     bindE (make_doc_candidate \<lparr>dc_analysis_id = analysis_id, dc_group_id = ag_group_id g,
              dc_finding_ids = ag_finding_ids g, dc_chunk_id = oc_chunk_id c\<rparr>) (\<lambda>x.
       add_doc_results (add_doc_candidate d x) analysis_id g cs)"

text \<open>What a result adds to the state before the group is left.\<close>

definition note_documents ::
  "agent_config \<Rightarrow> agent_state \<Rightarrow> ambiguous_group \<Rightarrow> string \<Rightarrow> docs_result
     \<Rightarrow> agent_exn + agent_state" where
  "note_documents cfg st g query r =
     (let existing = set (map oc_chunk_id (gs_chunks st));
          new_chunks = filter (\<lambda>c. oc_chunk_id c \<notin> existing) (rd_results r)
      in bindE (add_doc_results (gs_draft st) (gs_analysis_id st) g (rd_results r)) (\<lambda>d.
         bindE (if rd_results r = [] then Inr (gs_bindings st)
                else bindE (matched_query_terms cfg (gs_findings st) g query) (\<lambda>terms.
                     bindE (make_binding \<lparr>rb_group_id = ag_group_id g, rb_rule_id = ag_rule_id g,
                              rb_finding_ids = ag_finding_ids g,
                              rb_query_sha256 = ''sha256:'' @ ac_digest cfg query,
                              rb_matched_terms = terms,
                              rb_chunk_ids = map oc_chunk_id (rd_results r)\<rparr>) (\<lambda>b.
                       Inr (gs_bindings st @ [b])))) (\<lambda>bindings.
           Inr (st\<lparr>gs_chunks := gs_chunks st @ new_chunks, gs_bindings := bindings,
                  gs_draft := d\<rparr>))))"

definition note_human ::
  "agent_state \<Rightarrow> ambiguous_group \<Rightarrow> string \<Rightarrow> string option \<Rightarrow> agent_exn + agent_state" where
  "note_human st g reason detail =
     bindE (make_human_item \<lparr>hi_group_id = Some (ag_group_id g),
              hi_finding_ids = ag_finding_ids g, hi_reason = reason, hi_detail = detail\<rparr>) (\<lambda>h.
       Inr (st\<lparr>gs_draft := add_human_item (gs_draft st) h\<rparr>))"

definition leave_group :: "agent_state \<Rightarrow> agent_state" where
  "leave_group st = st\<lparr>gs_index := gs_index st + 1, gs_pending := None, gs_model := None\<rparr>"

definition execute_tool_node ::
  "agent_config \<Rightarrow> node_env \<Rightarrow> agent_state \<Rightarrow> agent_exn + agent_state" where
  "execute_tool_node cfg env st =
     (case gs_pending st of
        Some (CallTool gid request) \<Rightarrow>
          bindE (begin_step (ac_limits cfg) st EXECUTE_TOOL (Some (tool_of request))) (\<lambda>steps.
            case steps of
              None \<Rightarrow> stop_with_error st EXECUTE_TOOL STEP_LIMIT
            | Some steps' \<Rightarrow>
                bindE (current_group st) (\<lambda>g.
                  case execute (ac_sha cfg) (ac_context cfg) (ne_tool env) request (gs_tools st) of
                    (outcome, tools') \<Rightarrow>
                      (let st' = st\<lparr>gs_steps := steps', gs_tool_calls := gs_tool_calls st + 1,
                                   gs_tools := tools'\<rparr>
                       in case outcome of
                            Inl (ToolErr t e) \<Rightarrow>
                              bindE (add_error st' EXECUTE_TOOL (tool_error_value e)
                                       (Some (ag_group_id g))) (\<lambda>st2.
                                degraded_update st2 TOOL_ERROR_REASON)
                          | Inl ToolRaised \<Rightarrow> Inl AgentRaised
                          | Inl ToolCancelled \<Rightarrow> Inl AgentCancelled
                          | Inr (DocsResult r) \<Rightarrow>
                              (case request of
                                 SearchOfficialDocs query k \<Rightarrow>
                                   bindE (note_documents cfg st' g query r) (\<lambda>st2.
                                     Inr (leave_group st2))
                               | _ \<Rightarrow> Inl AgentRuntimeErr)
                          | Inr _ \<Rightarrow>
                              bindE (note_human st' g ''tool_observation'' None) (\<lambda>st2.
                                Inr (leave_group st2)))))
      | _ \<Rightarrow> Inl AgentRuntimeErr)"

definition complete_group_node ::
  "agent_config \<Rightarrow> agent_state \<Rightarrow> agent_exn + agent_state" where
  "complete_group_node cfg st =
     (case gs_pending st of
        None \<Rightarrow> Inl AgentRuntimeErr
      | Some d \<Rightarrow>
          if is_tool_call d then Inl AgentRuntimeErr
          else
            bindE (begin_step (ac_limits cfg) st COMPLETE_GROUP None) (\<lambda>steps.
              case steps of
                None \<Rightarrow> stop_with_error st COMPLETE_GROUP STEP_LIMIT
              | Some steps' \<Rightarrow>
                  bindE (current_group st) (\<lambda>g.
                    let st' = st\<lparr>gs_steps := steps'\<rparr>
                    in bindE (case d of
                         FinishGroup gid txt \<Rightarrow>
                           (case gs_model st of
                              None \<Rightarrow> Inl AgentRuntimeErr
                            | Some model \<Rightarrow>
                                bindE (make_explanation \<lparr>ex_group_id = ag_group_id g,
                                         ex_finding_ids = ag_finding_ids g, ex_text = txt,
                                         ex_model = model\<rparr>) (\<lambda>e.
                                  Inr (st'\<lparr>gs_draft := add_explanation (gs_draft st) e\<rparr>)))
                       | RequestHumanReview gid txt \<Rightarrow>
                           note_human st' g ''requested_by_model'' (Some txt)
                       | CallTool gid q \<Rightarrow> Inl AgentRuntimeErr) (\<lambda>st2.
                       Inr (leave_group st2)))))"

definition finalize_node :: "agent_state \<Rightarrow> agent_state" where
  "finalize_node st = st\<lparr>gs_finished := True, gs_pending := None, gs_model := None\<rparr>"

section \<open>The graph\<close>

datatype graph_node = N_PREPARE | N_LLM_DECIDE | N_VALIDATE | N_EXECUTE | N_COMPLETE | N_FINALIZE

definition route_after_group :: "agent_state \<Rightarrow> graph_node" where
  "route_after_group st =
     (if gs_finished st then N_FINALIZE
      else if gs_degraded st \<notin> {None, Some AMBIGUOUS_GROUP_LIMIT} then N_FINALIZE
      else if gs_index st \<ge> length (gs_groups st) then N_FINALIZE
      else N_LLM_DECIDE)"

definition route_after_validation :: "agent_state \<Rightarrow> graph_node" where
  "route_after_validation st =
     (if gs_finished st then N_FINALIZE
      else case gs_pending st of
          None \<Rightarrow> N_FINALIZE
        | Some d \<Rightarrow> if is_tool_call d then N_EXECUTE else N_COMPLETE)"

text \<open>One node and the edge that leaves it; \<open>None\<close> is the end of the graph.\<close>

fun node_step ::
  "agent_config \<Rightarrow> node_env \<Rightarrow> graph_node \<Rightarrow> agent_state
     \<Rightarrow> agent_exn + (graph_node option \<times> agent_state)" where
  "node_step cfg env N_PREPARE st =
     bindE (prepare_node cfg st) (\<lambda>st'. Inr (Some (route_after_group st'), st'))"
| "node_step cfg env N_LLM_DECIDE st =
     bindE (llm_decide_node cfg env st) (\<lambda>st'. Inr (Some N_VALIDATE, st'))"
| "node_step cfg env N_VALIDATE st =
     bindE (validate_action_node cfg env st) (\<lambda>st'. Inr (Some (route_after_validation st'), st'))"
| "node_step cfg env N_EXECUTE st =
     bindE (execute_tool_node cfg env st) (\<lambda>st'. Inr (Some (route_after_group st'), st'))"
| "node_step cfg env N_COMPLETE st =
     bindE (complete_group_node cfg st) (\<lambda>st'. Inr (Some (route_after_group st'), st'))"
| "node_step cfg env N_FINALIZE st = Inr (None, finalize_node st)"

text \<open>
  The engine, for any nodes: it runs at most \<open>fuel\<close> of them (then it raises \<open>exhausted\<close>), and
  \<open>Inr None\<close> means that the run was cancelled.  A cancellation inside a node drops what that
  node did, like one before it, so \<open>cancelled\<close> covers both; the tool that was in flight sees it
  as well, which \<open>te_cancelled\<close> describes (\<open>AgentCancelled\<close>).
\<close>

fun run_graph ::
  "('env \<Rightarrow> 'node \<Rightarrow> 'state \<Rightarrow> 'e + ('node option \<times> 'state)) \<Rightarrow> ('env \<Rightarrow> bool) \<Rightarrow> 'e
     \<Rightarrow> (nat \<Rightarrow> 'env) \<Rightarrow> nat \<Rightarrow> 'node \<Rightarrow> 'state \<Rightarrow> 'e + 'state option" where
  "run_graph step cancelled exhausted envs 0 node st = Inl exhausted"
| "run_graph step cancelled exhausted envs (Suc n) node st =
     (if cancelled (envs n) then Inr None
      else bindE (step (envs n) node st) (\<lambda>(next_node, st').
        case next_node of
          None \<Rightarrow> Inr (Some st')
        | Some nd \<Rightarrow> run_graph step cancelled exhausted envs n nd st'))"

definition recursion_limit :: "runtime_limits \<Rightarrow> nat" where
  "recursion_limit l = lm_max_steps l * 2 + 16"

section \<open>The run\<close>

definition initial_state ::
  "agent_config \<Rightarrow> run_request \<Rightarrow> pyfloat \<Rightarrow> tool_state \<Rightarrow> agent_state" where
  "initial_state cfg rq started tools =
     \<lparr>gs_analysis_id = rq_analysis_id rq, gs_summary = rq_summary rq,
      gs_findings = rq_findings rq,
      gs_finding_ids = map (finding_identity (ac_digest cfg)) (rq_findings rq),
      gs_importers = rq_importers rq, gs_groups = [], gs_overflow_ids = [], gs_chunks = [],
      gs_bindings = [], gs_steps = [], gs_draft = empty_draft, gs_errors = [],
      gs_degraded = None, gs_tool_calls = 0, gs_llm_calls = 0, gs_reviewed = [],
      gs_retry_count = 0, gs_llm_review = rq_llm_review rq, gs_index = 0, gs_pending = None,
      gs_model = None, gs_finished = False,
      gs_deadline = started + lm_total_timeout_seconds (ac_limits cfg), gs_tools = tools\<rparr>"

definition state_to_result ::
  "agent_config \<Rightarrow> agent_state \<Rightarrow> finding list \<Rightarrow> agent_exn + run_result" where
  "state_to_result cfg st original =
     make_run_result (ac_digest cfg)
       \<lparr>rr_analysis_id = gs_analysis_id st, rr_summary = gs_summary st, rr_findings = original,
        rr_finding_ids = map (finding_identity (ac_digest cfg)) original,
        rr_importers = gs_importers st, rr_groups = gs_groups st, rr_chunks = gs_chunks st,
        rr_bindings = gs_bindings st, rr_steps = gs_steps st, rr_draft = gs_draft st,
        rr_errors = gs_errors st, rr_degraded = gs_degraded st,
        rr_terminal = (if gs_degraded st = None then RUN_COMPLETED else RUN_DEGRADED),
        rr_tool_calls = gs_tool_calls st, rr_llm_calls = gs_llm_calls st,
        rr_reviewed = gs_reviewed st, rr_retry_count = gs_retry_count st\<rparr>"

definition timeout_result :: "agent_config \<Rightarrow> run_request \<Rightarrow> agent_exn + run_result" where
  "timeout_result cfg rq =
     bindE (prepare_ambiguous_groups (ac_digest cfg) (rq_findings rq)
              (lm_max_ambiguous_groups (ac_limits cfg))) (\<lambda>p.
     bindE (add_human_groups empty_draft (pp_groups p) (degraded_value AGENT_TIMEOUT)) (\<lambda>d.
     bindE (if pp_overflow_ids p = [] then Inr d
            else add_human_finding_ids d (pp_overflow_ids p)
                   (degraded_value AMBIGUOUS_GROUP_LIMIT)) (\<lambda>d'.
     bindE (make_validation_error \<lparr>ve_node = LLM_DECIDE,
              ve_error_type = degraded_value AGENT_TIMEOUT, ve_group_id = None\<rparr>) (\<lambda>e.
       make_run_result (ac_digest cfg)
         \<lparr>rr_analysis_id = rq_analysis_id rq, rr_summary = rq_summary rq,
          rr_findings = rq_findings rq,
          rr_finding_ids = map (finding_identity (ac_digest cfg)) (rq_findings rq),
          rr_importers = rq_importers rq, rr_groups = pp_groups p, rr_chunks = [],
          rr_bindings = [], rr_steps = [], rr_draft = d', rr_errors = [e],
          rr_degraded = Some AGENT_TIMEOUT, rr_terminal = RUN_DEGRADED, rr_tool_calls = 0,
          rr_llm_calls = 0, rr_reviewed = [], rr_retry_count = 0\<rparr>))))"

definition agent_run ::
  "agent_config \<Rightarrow> (nat \<Rightarrow> node_env) \<Rightarrow> pyfloat \<Rightarrow> tool_state \<Rightarrow> run_request
     \<Rightarrow> agent_exn + run_result" where
  "agent_run cfg envs started tools rq =
     (if \<not> valid_run_request rq then Inl AgentValidationErr
      else case run_graph (node_step cfg) ne_cancelled AgentRecursionErr envs
                    (recursion_limit (ac_limits cfg)) N_PREPARE
                    (initial_state cfg rq started tools) of
          Inl e \<Rightarrow> if e = AgentCancelled then timeout_result cfg rq else Inl e
        | Inr None \<Rightarrow> timeout_result cfg rq
        | Inr (Some st) \<Rightarrow> if gs_findings st \<noteq> rq_findings rq then Inl AgentRuntimeErr
                          else state_to_result cfg st (rq_findings rq))"

end
