(* ===== verification/ToolProps.thy ===== *)
theory ToolProps
  imports Tools GraphProps
begin

text \<open>
  The properties of the tools: what a source window holds, that the importer tool passes on
  exactly the one-hop relation of the graph, and the audit contract of the runner.

  \<open>checked_tools\<close> is the interface the runner relies on: a tool that returns, returns a
  result its own model accepts, and an \<open>AgentToolError\<close> carries the name of the tool.
\<close>

section \<open>The runner and its interface\<close>

locale checked_tools =
  fixes run :: "tool_request \<Rightarrow> tool_exn + tool_result"
  assumes run_valid: "run q = Inr r \<Longrightarrow> valid_result r"
    and run_name: "run q = Inl (ToolErr t e) \<Longrightarrow> t = tool_of q"
begin

definition status_of :: "tool_result \<Rightarrow> tool_status" where
  "status_of r = (if returned_count r = 0 then TOOL_EMPTY else TOOL_SUCCESS)"

lemma success_event:
  assumes "0 < n"
  shows "valid_audit_event \<lparr>ae_sequence = n, ae_tool = t, ae_status = status_of r,
     ae_error = None, ae_input_characters = i, ae_returned_count = returned_count r,
     ae_truncated = truncated r, ae_duration_ms = max d 0\<rparr>"
  using assms by (simp add: valid_audit_event_def status_of_def)

end

lemma make_result_Inr [simp]: "make_result r = Inr r' \<longleftrightarrow> valid_result r \<and> r' = r"
  by (auto simp: make_result_def)

lemma make_result_Inl [simp]: "make_result r = Inl e \<longleftrightarrow> \<not> valid_result r \<and> e = ToolRaised"
  by (auto simp: make_result_def)

lemma run_tool_valid: "run_tool sha cx env q = Inr r \<Longrightarrow> valid_result r"
  by (cases q)
    (auto simp: get_findings_impl_def get_source_context_impl_def get_local_importers_impl_def
      search_official_docs_impl_def lookup_rule_spec_impl_def Let_def
      split: sum.splits option.splits scan_exn.splits search_outcome.splits if_splits)

lemma run_tool_name: "run_tool sha cx env q = Inl (ToolErr t e) \<Longrightarrow> t = tool_of q"
  by (cases q)
    (auto simp: get_findings_impl_def get_source_context_impl_def get_local_importers_impl_def
      search_official_docs_impl_def lookup_rule_spec_impl_def Let_def
      split: sum.splits option.splits scan_exn.splits search_outcome.splits if_splits)

interpretation tools: checked_tools "run_tool sha cx env" for sha cx env
  by unfold_locales (rule run_tool_valid run_tool_name, assumption)+

lemma validate_request_tool: "validate_request q = Inr q' \<Longrightarrow> tool_of q' = tool_of q"
  by (cases q) (auto split: if_splits sum.splits)

text \<open>What one call appends to the trace.\<close>

definition logged :: "tool_state \<Rightarrow> audit_event \<Rightarrow> tool_state \<Rightarrow> bool" where
  "logged st ev st' \<longleftrightarrow>
     valid_audit_event ev \<and> ae_sequence ev = ts_sequence st'
     \<and> st' = \<lparr>ts_sequence = ts_sequence st + 1, ts_events = ts_events st @ [ev]\<rparr>"

lemma record_failure_logged:
  assumes "s = (if e = TIMEOUT \<and> late then TOOL_TIMEOUT else TOOL_ERROR)"
  shows "\<exists>ev st'. record_failure t e i s d x st = (Inl x, st') \<and> logged st ev st'
     \<and> ae_tool ev = t \<and> ae_status ev = s \<and> ae_error ev = Some e
     \<and> ae_input_characters ev = i"
proof -
  let ?ev = "\<lparr>ae_sequence = ts_sequence st + 1, ae_tool = t, ae_status = s,
     ae_error = Some e, ae_input_characters = i, ae_returned_count = 0, ae_truncated = False,
     ae_duration_ms = max d 0\<rparr>"
  have "valid_audit_event ?ev"
    using assms by (simp add: valid_audit_event_def)
  then show ?thesis
    by (intro exI [of _ ?ev] exI [of _ "\<lparr>ts_sequence = ts_sequence st + 1,
          ts_events = ts_events st @ [?ev]\<rparr>"])
      (simp add: record_failure_def record_event_def make_audit_event_def logged_def Let_def)
qed

lemma record_success_logged:
  "\<exists>ev st'. record_event t (tools.status_of r) None i (returned_count r) (truncated r) d st
       = (Inr (), st') \<and> logged st ev st' \<and> ae_tool ev = t \<and> ae_status ev = tools.status_of r
     \<and> ae_error ev = None \<and> ae_input_characters ev = i
     \<and> ae_returned_count ev = returned_count r \<and> ae_truncated ev = truncated r"
proof -
  let ?ev = "\<lparr>ae_sequence = ts_sequence st + 1, ae_tool = t, ae_status = tools.status_of r,
     ae_error = None, ae_input_characters = i, ae_returned_count = returned_count r,
     ae_truncated = truncated r, ae_duration_ms = max d 0\<rparr>"
  have "valid_audit_event ?ev"
    by (rule tools.success_event) simp
  then show ?thesis
    by (intro exI [of _ ?ev] exI [of _ "\<lparr>ts_sequence = ts_sequence st + 1,
          ts_events = ts_events st @ [?ev]\<rparr>"])
      (simp add: record_event_def make_audit_event_def logged_def Let_def)
qed


lemma tools_status_of:
  "tools.status_of r = (if returned_count r = 0 then TOOL_EMPTY else TOOL_SUCCESS)"
  by (simp add: tools.status_of_def)

lemma execute_cases:
  "execute sha cx env q st =
     (case validate_request q of
        Inl e \<Rightarrow> record_failure (tool_of q) e 0 TOOL_ERROR (te_duration_ms env)
                   (ToolErr (tool_of q) e) st
      | Inr q' \<Rightarrow>
          if te_cancelled env then (Inl ToolCancelled, st)
          else if te_expired env
          then record_failure (tool_of q) TIMEOUT (input_characters q') TOOL_TIMEOUT
                 (te_duration_ms env) (ToolErr (tool_of q) TIMEOUT) st
          else (case run_tool sha cx env q' of
              Inl (ToolErr t e) \<Rightarrow> record_failure (tool_of q) e (input_characters q') TOOL_ERROR
                (te_duration_ms env) (ToolErr t e) st
            | Inl ToolRaised \<Rightarrow> record_failure (tool_of q) INFRASTRUCTURE_FAILURE
                (input_characters q') TOOL_ERROR (te_duration_ms env) ToolRaised st
            | Inl ToolCancelled \<Rightarrow> (Inl ToolCancelled, st)
            | Inr r \<Rightarrow>
                (case record_event (tool_of q) (tools.status_of r) None (input_characters q')
                     (returned_count r) (truncated r) (te_duration_ms env) st of
                   (Inl e, st') \<Rightarrow> (Inl e, st')
                 | (Inr _, st') \<Rightarrow> (Inr r, st'))))"
  by (simp add: execute_def tools_status_of Let_def split: sum.splits)

lemma validate_request_not_timeout: "validate_request q = Inl e \<Longrightarrow> e \<noteq> TIMEOUT"
  by (cases q) (auto split: if_splits sum.splits)

lemma run_tool_not_timeout: "run_tool sha cx env q = Inl (ToolErr t e) \<Longrightarrow> e \<noteq> TIMEOUT"
  by (cases q)
    (auto simp: get_findings_impl_def get_source_context_impl_def get_local_importers_impl_def
      search_official_docs_impl_def lookup_rule_spec_impl_def Let_def
      split: sum.splits option.splits scan_exn.splits search_outcome.splits if_splits)

lemma run_tool_not_cancelled: "run_tool sha cx env q \<noteq> Inl ToolCancelled"
  by (cases q)
    (auto simp: get_findings_impl_def get_source_context_impl_def get_local_importers_impl_def
      search_official_docs_impl_def lookup_rule_spec_impl_def make_result_def Let_def
      split: sum.splits option.splits scan_exn.splits search_outcome.splits if_splits)

text \<open>A call is in flight once its request was accepted; only then can it be cancelled.\<close>

definition cancelled_in_flight :: "tool_env \<Rightarrow> tool_request \<Rightarrow> bool" where
  "cancelled_in_flight env q \<longleftrightarrow> te_cancelled env \<and> \<not> isl (validate_request q)"

lemma execute_cancelled: "cancelled_in_flight env q \<Longrightarrow> execute sha cx env q st = (Inl ToolCancelled, st)"
  by (cases "validate_request q") (auto simp: cancelled_in_flight_def execute_cases)

lemma execute_logs:
  assumes "\<not> cancelled_in_flight env q"
  shows "\<exists>ev. logged st ev (snd (execute sha cx env q st)) \<and> ae_tool ev = tool_of q
     \<and> (case fst (execute sha cx env q st) of
          Inr r \<Rightarrow> valid_result r \<and> ae_returned_count ev = returned_count r
            \<and> ae_truncated ev = truncated r \<and> ae_error ev = None
            \<and> ae_status ev = (if returned_count r = 0 then TOOL_EMPTY else TOOL_SUCCESS)
        | Inl (ToolErr t e) \<Rightarrow> t = tool_of q \<and> ae_error ev = Some e
            \<and> ae_status ev = (if e = TIMEOUT then TOOL_TIMEOUT else TOOL_ERROR)
        | Inl ToolRaised \<Rightarrow> ae_error ev = Some INFRASTRUCTURE_FAILURE
            \<and> ae_status ev = TOOL_ERROR
        | Inl ToolCancelled \<Rightarrow> False)"
proof (cases "validate_request q")
  case (Inl e)
  with record_failure_logged [of TOOL_ERROR e False "tool_of q" 0 "te_duration_ms env"
      "ToolErr (tool_of q) e" st] validate_request_not_timeout [OF Inl]
  show ?thesis by (auto simp: execute_cases)
next
  case (Inr q')
  note tool = validate_request_tool [OF Inr]
  have live: "\<not> te_cancelled env"
    using assms Inr by (simp add: cancelled_in_flight_def)
  show ?thesis
  proof (cases "te_expired env")
    case True
    with Inr live record_failure_logged [of TOOL_TIMEOUT TIMEOUT True "tool_of q"
        "input_characters q'" "te_duration_ms env" "ToolErr (tool_of q) TIMEOUT" st]
    show ?thesis by (auto simp: execute_cases)
  next
    case False
    show ?thesis
    proof (cases "run_tool sha cx env q'")
      case (Inl x)
      show ?thesis
      proof (cases x)
        case (ToolErr t e)
        with Inl have "t = tool_of q" "e \<noteq> TIMEOUT"
          using tools.run_name tool run_tool_not_timeout by blast+
        with Inr live False Inl ToolErr record_failure_logged [of TOOL_ERROR e False "tool_of q"
            "input_characters q'" "te_duration_ms env" x st]
        show ?thesis by (auto simp: execute_cases)
      next
        case ToolRaised
        with Inr live False Inl record_failure_logged [of TOOL_ERROR INFRASTRUCTURE_FAILURE False
            "tool_of q" "input_characters q'" "te_duration_ms env" ToolRaised st]
        show ?thesis by (auto simp: execute_cases)
      next
        case ToolCancelled
        with Inl run_tool_not_cancelled show ?thesis by blast
      qed
    next
      case r: (Inr r)
      with tools.run_valid have "valid_result r" by blast
      with Inr live False r record_success_logged [of "tool_of q" r "input_characters q'"
          "te_duration_ms env" st]
      show ?thesis by (auto simp: execute_cases tools_status_of)
    qed
  qed
qed

text \<open>C26: every call of a tool that is not cancelled from outside while it runs, however it ends,
  appends exactly one event to the trace: the event satisfies its own model, takes the next
  sequence number and names the tool.  A returned result is valid and the event carries its
  count and truncation with status success or empty; a raised \<open>AgentToolError\<close> names the same
  tool and the event carries its error type, with status timeout exactly for a timeout; any
  other exception is logged as an infrastructure failure.  A call that the deadline of the
  run cancels in flight leaves no event and takes no sequence number.\<close>

theorem execute_audited:
  "if cancelled_in_flight env q then execute sha cx env q st = (Inl ToolCancelled, st)
   else \<exists>ev. logged st ev (snd (execute sha cx env q st)) \<and> ae_tool ev = tool_of q
     \<and> (case fst (execute sha cx env q st) of
          Inr r \<Rightarrow> valid_result r \<and> ae_returned_count ev = returned_count r
            \<and> ae_truncated ev = truncated r \<and> ae_error ev = None
            \<and> ae_status ev = (if returned_count r = 0 then TOOL_EMPTY else TOOL_SUCCESS)
        | Inl (ToolErr t e) \<Rightarrow> t = tool_of q \<and> ae_error ev = Some e
            \<and> ae_status ev = (if e = TIMEOUT then TOOL_TIMEOUT else TOOL_ERROR)
        | Inl ToolRaised \<Rightarrow> ae_error ev = Some INFRASTRUCTURE_FAILURE
            \<and> ae_status ev = TOOL_ERROR
        | Inl ToolCancelled \<Rightarrow> False)"
proof (cases "cancelled_in_flight env q")
  case True
  then show ?thesis by (simp only: if_True execute_cancelled)
next
  case False
  then show ?thesis using execute_logs [OF False] by (simp only: if_False)
qed

section \<open>Source windows\<close>

lemma take_lines_length: "length (take_lines m w) \<le> length w"
  by (induction m w rule: take_lines.induct) (simp_all add: Let_def)

lemma take_lines_lines:
  "map cl_line (take_lines m w) = take (length (take_lines m w)) (map fst w)"
  by (induction m w rule: take_lines.induct) (simp_all add: Let_def)

lemma take_lines_concat:
  "concat (map cl_text (take_lines m w)) = take m (concat (map snd w))"
  by (induction m w rule: take_lines.induct) (auto simp: Let_def)

lemma take_lines_texts:
  "list_all2 (\<lambda>l (n, t). prefix (cl_text l) t \<and> cl_truncated l = (cl_text l \<noteq> t))
     (take_lines m w) (take (length (take_lines m w)) w)"
  by (induction m w rule: take_lines.induct) (auto simp: Let_def take_is_prefix)

lemma take_lines_last:
  "\<forall>l \<in> set (butlast (take_lines m w)). \<not> cl_truncated l"
  by (induction m w rule: take_lines.induct) (auto simp: Let_def)

lemma line_characters_concat: "line_characters ls = length (concat (map cl_text ls))"
  by (simp add: line_characters_def length_concat comp_def)

lemma take_lines_Cons:
  "take_lines m ((n, t) # w) =
     (if m = 0 then []
      else if m < length t then [\<lparr>cl_line = n, cl_text = take m t, cl_truncated = True\<rparr>]
      else \<lparr>cl_line = n, cl_text = t, cl_truncated = False\<rparr> # take_lines (m - length t) w)"
  by (simp add: Let_def min_def)

lemma take_lines_complete:
  "length (concat (map snd w)) \<le> m \<Longrightarrow> length (take_lines m w) = length w
     \<Longrightarrow> map cl_text (take_lines m w) = map snd w"
proof (induction w arbitrary: m)
  case (Cons x w)
  obtain n t where [simp]: "x = (n, t)" by (cases x)
  from Cons.prems(2) have "m \<noteq> 0" by (cases m) simp_all
  with Cons show ?case
    by (auto simp: take_lines_Cons simp del: take_lines.simps split: if_splits)
qed simp

lemma source_window_shape:
  "source_window ls line radius =
     (max 1 (min line (length ls) - radius), min (length ls) (min line (length ls) + radius),
      map (\<lambda>n. (n, ls ! (n - 1)))
        [max 1 (min line (length ls) - radius) ..<
         min (length ls) (min line (length ls) + radius) + 1])"
  by (simp only: source_window_def Let_def)

lemma source_window_bounds:
  assumes "ls \<noteq> []" "1 \<le> line" and "source_window ls line radius = (a, b, w)"
  shows "1 \<le> a" and "a \<le> min line (length ls)" and "min line (length ls) \<le> b"
    and "b \<le> length ls" and "length w \<le> radius * 2 + 1"
    and "a = 1 \<or> a + radius = min line (length ls)"
    and "b = length ls \<or> b = min line (length ls) + radius"
proof -
  let ?c = "min line (length ls)"
  have c: "1 \<le> ?c" "?c \<le> length ls"
    using assms(1,2) by (cases ls; simp)+
  from assms(3) have a: "a = max 1 (?c - radius)" and b: "b = min (length ls) (?c + radius)"
    and "w = map (\<lambda>n. (n, ls ! (n - 1))) [a ..< b + 1]"
    unfolding source_window_shape prod.inject by blast+
  then have w: "length w = b + 1 - a"
    by (simp only: length_map length_upt)
  show "1 \<le> a" "a \<le> ?c" using a c by linarith+
  show "?c \<le> b" "b \<le> length ls" "a = 1 \<or> a + radius = ?c" "b = length ls \<or> b = ?c + radius"
    using a b c by linarith+
  show "length w \<le> radius * 2 + 1"
    using a b w c by linarith
qed

text \<open>C27: a source window is exact.  For a checked request on a non-empty file the result
  passes its model; its lines are consecutive from the declared start, a range around the
  requested line (moved to the last line when it lies behind it) that only the file's ends or
  the radius limit; the texts together are the first 8192 characters of that range, each a
  prefix of its source line and all but the last one complete; and the result is marked as
  truncated exactly when it does not hold every line of the range in full.\<close>

theorem source_context_exact:
  assumes "path_length_ok path" "canonical_python_path path" "1 \<le> line"
    and "radius \<le> MAX_SOURCE_CONTEXT_RADIUS" and "ls \<noteq> []"
    and r: "r = source_context path line radius ls"
  shows "valid_source_result r
     \<and> (\<exists>a b. rs_start_line r = Some a \<and> rs_end_line r = Some b
          \<and> 1 \<le> a \<and> a \<le> min line (length ls) \<and> min line (length ls) \<le> b \<and> b \<le> length ls
          \<and> (a = 1 \<or> a + radius = min line (length ls))
          \<and> (b = length ls \<or> b = min line (length ls) + radius)
          \<and> map cl_line (rs_source_lines r) = take (rt_returned_count r) [a ..< b + 1]
          \<and> concat (map cl_text (rs_source_lines r))
              = take 8192 (concat (map (\<lambda>n. ls ! (n - 1)) [a ..< b + 1]))
          \<and> (\<forall>l \<in> set (rs_source_lines r). prefix (cl_text l) (ls ! (cl_line l - 1))
                \<and> cl_truncated l = (cl_text l \<noteq> ls ! (cl_line l - 1)))
          \<and> (\<forall>l \<in> set (butlast (rs_source_lines r)). \<not> cl_truncated l)
          \<and> rt_truncated r = (map cl_text (rs_source_lines r)
              \<noteq> map (\<lambda>n. ls ! (n - 1)) [a ..< b + 1]))"
proof -
  obtain a b w where win: "source_window ls line radius = (a, b, w)"
    by (cases "source_window ls line radius")
  note bounds = source_window_bounds [OF assms(5,3) win]
  have w: "w = map (\<lambda>n. (n, ls ! (n - 1))) [a ..< b + 1]"
    using win unfolding source_window_shape prod.inject by blast
  let ?lines = "take_lines MAX_SOURCE_CONTEXT_CHARACTERS w"
  have fst_w: "map fst w = [a ..< b + 1]" and snd_w: "map snd w = map (\<lambda>n. ls ! (n - 1)) [a ..< b + 1]"
    unfolding w by (simp_all only: map_map comp_def fst_conv snd_conv map_ident)
  have r': "r = \<lparr>rt_total_count = length w, rt_returned_count = length ?lines,
      rt_truncated = (length ?lines < length w
        \<or> line_characters ?lines < sum_list (map (\<lambda>(n, txt). length txt) w)),
      rs_path = path, rs_requested_line = line, rs_radius = radius,
      rs_file_line_count = length ls, rs_start_line = Some a, rs_end_line = Some b,
      rs_source_lines = ?lines, rs_total_characters = sum_list (map (\<lambda>(n, txt). length txt) w),
      rs_returned_characters = line_characters ?lines\<rparr>"
    using assms(5) win by (simp only: r source_context_def Let_def prod.case if_False)
  have total: "sum_list (map (\<lambda>(n, txt). length txt) w) = length (concat (map snd w))"
    by (induction w) auto
  have returned: "line_characters ?lines = min 8192 (length (concat (map snd w)))"
    by (simp add: line_characters_concat take_lines_concat tool_limits)
  have numbers: "map cl_line ?lines = take (length ?lines) [a ..< b + 1]"
    using take_lines_lines fst_w by metis
  have texts: "prefix (cl_text l) (ls ! (cl_line l - 1))
      \<and> cl_truncated l = (cl_text l \<noteq> ls ! (cl_line l - 1))" if "l \<in> set ?lines" for l
  proof -
    from that obtain i where i: "i < length ?lines" "l = ?lines ! i"
      by (auto simp: in_set_conv_nth)
    then have iw: "i < length w"
      using take_lines_length [of MAX_SOURCE_CONTEXT_CHARACTERS w] by simp
    have "cl_line l = fst (w ! i)"
      using i iw arg_cong [OF take_lines_lines, of "\<lambda>xs. xs ! i"
        MAX_SOURCE_CONTEXT_CHARACTERS w] by simp
    moreover have "w ! i = (fst (w ! i), ls ! (fst (w ! i) - 1))"
      using nth_mem [OF iw] unfolding w by auto
    ultimately show ?thesis
      using list_all2_nthD [OF take_lines_texts i(1)] i iw by (simp add: case_prod_beta) (metis snd_conv)
  qed
  have trunc: "rt_truncated r = (map cl_text ?lines \<noteq> map snd w)"
  proof
    assume "rt_truncated r"
    then consider "length ?lines < length w"
      | "min 8192 (length (concat (map snd w))) < length (concat (map snd w))"
      unfolding r' total returned by auto
    then show "map cl_text ?lines \<noteq> map snd w"
      using returned by cases (auto dest: map_eq_imp_length_eq simp: line_characters_concat)
  next
    assume differ: "map cl_text ?lines \<noteq> map snd w"
    show "rt_truncated r"
    proof (cases "length ?lines = length w")
      case True
      with differ take_lines_complete have "\<not> length (concat (map snd w)) \<le> MAX_SOURCE_CONTEXT_CHARACTERS"
        by blast
      then show ?thesis
        unfolding r' total returned by (simp add: tool_limits)
    next
      case False
      with take_lines_length [of MAX_SOURCE_CONTEXT_CHARACTERS w] show ?thesis
        unfolding r' by simp
    qed
  qed
  have len: "length ?lines \<le> length w"
    by (rule take_lines_length)
  have valid: "valid_source_result r"
  proof -
    have "sorted (map cl_line ?lines)" "distinct (map cl_line ?lines)"
      unfolding numbers by (simp_all add: sorted_wrt_take del: upt_Suc)
    then have "sort (map cl_line ?lines) = map cl_line ?lines" "distinct (map cl_line ?lines)"
      using sorted_by_iff [of "\<lambda>x. x" "map cl_line ?lines"] by simp_all
    moreover have "1 \<le> cl_line l \<and> length (cl_text l) \<le> MAX_SOURCE_CONTEXT_CHARACTERS"
      if "l \<in> set ?lines" for l
    proof
      have "cl_line l \<in> set (map cl_line ?lines)" using that by simp
      then have "cl_line l \<in> set [a ..< b + 1]"
        unfolding numbers by (rule in_set_takeD)
      with bounds(1) show "1 \<le> cl_line l" by auto
      have "length (cl_text l) \<le> line_characters ?lines"
        unfolding line_characters_def using that by (intro member_le_sum_list) simp_all
      then show "length (cl_text l) \<le> MAX_SOURCE_CONTEXT_CHARACTERS"
        unfolding returned by (simp add: tool_limits)
    qed
    moreover have "length ?lines \<le> MAX_SOURCE_CONTEXT_RADIUS * 2 + 1"
      using len bounds(5) assms(4) by linarith
    moreover have "line_characters ?lines \<le> MAX_SOURCE_CONTEXT_CHARACTERS"
      unfolding returned by (simp add: tool_limits)
    ultimately show ?thesis
      using assms(1-5) bounds(1-4) len unfolding r' valid_source_result_def valid_counts_def
      by (simp add: total returned) linarith
  qed
  show ?thesis
    using valid bounds numbers texts take_lines_last trunc snd_w take_lines_concat
    unfolding r' by (simp add: tool_limits)
qed

theorem source_context_exact_witness:
  "map cl_line (rs_source_lines (source_context ''a.py'' 9 1 [[97], [98], [99]])) = [2, 3]
     \<and> valid_source_result (source_context ''a.py'' 9 1 [[97], [98], [99]])"
proof -
  have "path_length_ok ''a.py''" "canonical_python_path ''a.py''"
    by code_simp+
  then have "valid_source_result (source_context ''a.py'' 9 1 [[97], [98], [99]])"
    using source_context_exact [of "''a.py''" 9 1 "[[97], [98], [99]]"]
    by (simp add: tool_limits)
  moreover have "map cl_line (rs_source_lines (source_context ''a.py'' 9 1 [[97], [98], [99]])) = [2, 3]"
    by code_simp
  ultimately show ?thesis by blast
qed

section \<open>Importers\<close>

text \<open>The files that import a file directly, itself excepted.\<close>

definition importing_files :: "local_import_graph \<Rightarrow> string \<Rightarrow> string set" where
  "importing_files g p =
     {q. q \<noteq> p \<and> (\<exists>e \<in> set (gr_edges g). ed_imported_path e = p \<and> ed_importer_path e = q)}"

lemma into_file_paths:
  assumes "valid_graph g"
  shows "map ed_importer_path (into_file g p) = sorted_list_of_set (importing_files g p)"
proof -
  have "set (map ed_importer_path (into_file g p)) = importing_files g p"
    by (auto simp: into_file_def importing_files_def)
  moreover have "sorted (map ed_importer_path (into_file g p))"
    "distinct (map ed_importer_path (into_file g p))"
    using sorted_wrt_filter_into [OF assms] by (simp_all only: strict_sorted_iff)
  ultimately show ?thesis
    by (metis sorted_list_of_set.idem_if_sorted_distinct)
qed

text \<open>C34: the importer tool answers with the one-hop relation of the graph.  On a valid graph
  whose modules have names and canonical paths it succeeds for every file of the project; the
  total is the number of other files with an edge into the file, and the first fifty of them
  are listed in the order of their paths, each with its own module name, the rest being
  declared as truncated.\<close>

theorem importers_tool_exact:
  assumes "valid_graph (cx_graph cx)"
    and named: "\<forall>m \<in> set (gr_modules (cx_graph cx)). mod_name m \<noteq> []
          \<and> path_length_ok (mod_path m) \<and> canonical_python_path (mod_path m)"
    and "p \<in> set (map mod_path (gr_modules (cx_graph cx)))"
  shows "\<exists>r. get_local_importers_impl cx p = Inr (ImportersResult r)
     \<and> rt_total_count r = card (importing_files (cx_graph cx) p)
     \<and> map li_path (ri_importers r)
         = take 50 (sorted_list_of_set (importing_files (cx_graph cx) p))
     \<and> (\<forall>i \<in> set (ri_importers r). \<exists>m \<in> set (gr_modules (cx_graph cx)).
          mod_path m = li_path i \<and> mod_name m = li_module i)
     \<and> rt_truncated r = (50 < card (importing_files (cx_graph cx) p))"
proof -
  let ?g = "cx_graph cx" and ?es = "into_file (cx_graph cx) p"
  let ?is = "map (\<lambda>e. \<lparr>li_path = ed_importer_path e, li_module = ed_importer_module e\<rparr>)
    (take MAX_IMPORTERS_RETURNED ?es)"
  let ?r = "\<lparr>rt_total_count = length ?es, rt_returned_count = length ?is,
    rt_truncated = (length ?is < length ?es), ri_path = p, ri_importers = ?is\<rparr>"
  from assms(3) named valid_graph_facts(4) [OF assms(1)]
  have p: "valid_python_path p" "path_length_ok p" "canonical_python_path p" by auto
  then have run: "get_local_importers_impl cx p = make_result (ImportersResult ?r)"
    using assms(1,3)
    by (simp add: get_local_importers_impl_def make_graph_def get_importers_def into_file_def Let_def)
  have paths: "map ed_importer_path ?es = sorted_list_of_set (importing_files ?g p)"
    by (rule into_file_paths [OF assms(1)])
  then have total: "length ?es = card (importing_files ?g p)"
    by (metis length_map length_sorted_list_of_set)
  have importer: "\<exists>m \<in> set (gr_modules ?g). mod_path m = li_path i \<and> mod_name m = li_module i"
    if "i \<in> set ?is" for i
  proof -
    from that obtain e where "e \<in> set (take MAX_IMPORTERS_RETURNED ?es)"
      and i: "i = \<lparr>li_path = ed_importer_path e, li_module = ed_importer_module e\<rparr>"
      by auto
    then have "e \<in> set (gr_edges ?g)"
      by (auto simp: into_file_def dest: in_set_takeD)
    with i valid_graph_edge [OF assms(1) this(1)] show ?thesis by auto
  qed
  have other: "li_path i \<noteq> p" if "i \<in> set ?is" for i
    using that by (auto simp: into_file_def dest!: in_set_takeD)
  let ?keys = "map (\<lambda>i. (li_path i, li_module i)) ?is"
  have listed: "map li_path ?is = take MAX_IMPORTERS_RETURNED (map ed_importer_path ?es)"
    by (simp add: take_map comp_def)
  have "sorted_wrt (<) (map li_path ?is)"
    unfolding listed paths by (intro sorted_wrt_take) simp
  then have strict: "sorted_wrt (<) ?keys"
    unfolding sorted_wrt_map by (rule sorted_wrt_mono_rel [rotated]) (simp add: less_prod_def')
  then have "sort ?keys = ?keys" "distinct ?keys"
    using sorted_by_iff [of "\<lambda>x. x" ?keys] by (simp_all only: strict_sorted_iff map_ident)
  then have "valid_importers_result ?r"
    using p importer other named
    by (fastforce simp: valid_importers_result_def valid_counts_def Let_def tool_limits)
  moreover have "(min n 50 < n) = (50 < n)" for n :: nat
    by (simp add: min_def)
  ultimately show ?thesis
    using run total importer listed unfolding paths
    by (intro exI [of _ ?r]) (simp add: tool_limits)
qed

definition two_module_context :: tool_context where
  "two_module_context =
     \<lparr>cx_validated = \<lparr>zr_task_root = [], zr_python_files = [], zr_member_count = 0,
                       zr_regular_file_count = 0, zr_directory_count = 0,
                       zr_total_uncompressed_bytes = 0, zr_python_file_count = 0,
                       zr_python_total_lines = 0, zr_ignored_python_file_count = 0,
                       zr_ignored_non_python_file_count = 0\<rparr>,
      cx_findings = [], cx_graph = \<lparr>gr_modules = two_modules, gr_edges = two_edges\<rparr>\<rparr>"

theorem importers_tool_exact_witness:
  "\<exists>r. get_local_importers_impl two_module_context ''pkg/a.py'' = Inr (ImportersResult r)
     \<and> map li_path (ri_importers r)
         = take 50 (sorted_list_of_set (importing_files (cx_graph two_module_context) ''pkg/a.py''))"
proof -
  have "valid_graph (cx_graph two_module_context)" by code_simp
  moreover have "\<forall>m \<in> set (gr_modules (cx_graph two_module_context)). mod_name m \<noteq> []
      \<and> path_length_ok (mod_path m) \<and> canonical_python_path (mod_path m)" by code_simp
  moreover have "''pkg/a.py'' \<in> set (map mod_path (gr_modules (cx_graph two_module_context)))"
    by code_simp
  ultimately show ?thesis using importers_tool_exact by blast
qed

end
