(* ===== verification/AgentInvariant.thy ===== *)
theory AgentInvariant
  imports AgentGraph ToolProps
begin

text \<open>
  What holds in every state of the review graph.  \<open>bounded_graph\<close> is the interface between the
  engine and a set of nodes: an invariant that every edge keeps, and a rank that every edge
  lowers, so that enough fuel brings the engine to the end of the graph.
\<close>

locale bounded_graph =
  fixes step :: "'env \<Rightarrow> 'node \<Rightarrow> 'state \<Rightarrow> 'e + ('node option \<times> 'state)"
    and inv :: "'node \<Rightarrow> 'state \<Rightarrow> bool"
    and final :: "'state \<Rightarrow> bool"
    and rank :: "'node \<Rightarrow> 'state \<Rightarrow> nat"
  assumes step_inv: "inv nd st \<Longrightarrow> step env nd st = Inr (Some nd', st') \<Longrightarrow> inv nd' st'"
    and step_rank: "inv nd st \<Longrightarrow> step env nd st = Inr (Some nd', st') \<Longrightarrow> rank nd' st' < rank nd st"
    and step_final: "inv nd st \<Longrightarrow> step env nd st = Inr (None, st') \<Longrightarrow> final st'"
begin

lemma run_final:
  "run_graph step cancelled x envs n nd st = Inr (Some st') \<Longrightarrow> inv nd st \<Longrightarrow> final st'"
proof (induction n arbitrary: nd st)
  case (Suc n)
  from Suc.prems(1) obtain next_node st1 where one: "step (envs n) nd st = Inr (next_node, st1)"
    and rest: "(case next_node of None \<Rightarrow> Inr (Some st1)
        | Some nd' \<Rightarrow> run_graph step cancelled x envs n nd' st1) = Inr (Some st')"
    by (auto split: if_splits)
  show ?case
  proof (cases next_node)
    case None
    with one rest step_final Suc.prems(2) show ?thesis by simp
  next
    case (Some nd')
    with one rest step_inv Suc.prems(2) Suc.IH show ?thesis by auto
  qed
qed simp

text \<open>With more fuel than the rank the engine never gives up: what the run raises, a node
  raised from a state of the invariant.\<close>

lemma run_not_exhausted:
  "rank nd st < n \<Longrightarrow> inv nd st \<Longrightarrow> run_graph step cancelled x envs n nd st = Inl e
     \<Longrightarrow> \<exists>i nd' st'. inv nd' st' \<and> step (envs i) nd' st' = Inl e"
proof (induction n arbitrary: nd st)
  case (Suc n)
  show ?case
  proof (cases "step (envs n) nd st")
    case (Inl e')
    with Suc.prems show ?thesis by (auto split: if_splits)
  next
    case (Inr r)
    obtain next_node st1 where r: "r = (next_node, st1)" by (cases r)
    with Inr Suc.prems obtain nd' where "next_node = Some nd'"
      and "run_graph step cancelled x envs n nd' st1 = Inl e"
      by (auto split: if_splits option.splits)
    with Inr r step_inv step_rank Suc.prems Suc.IH show ?thesis
      by (metis less_Suc_eq_le order_less_le_trans)
  qed
qed simp

end

section \<open>What the helpers do\<close>

lemma Inr_eq_bindE: "Inr y = bindE m f \<longleftrightarrow> (\<exists>x. m = Inr x \<and> f x = Inr y)"
  by (cases m) auto

definition covered :: "draft \<Rightarrow> ambiguous_group \<Rightarrow> bool" where
  "covered d g \<longleftrightarrow>
     ag_group_id g \<in> ex_group_id ` set (df_explanations d)
     \<or> ag_group_id g \<in> dc_group_id ` set (df_doc_candidates d)
     \<or> Some (ag_group_id g) \<in> hi_group_id ` set (df_human_items d)"

lemma covered_add_human: "covered d g \<Longrightarrow> covered (add_human_item d h) g"
  by (auto simp: covered_def add_human_item_def)

lemma covered_new_human:
  assumes "hi_group_id h = Some (ag_group_id g)"
  shows "covered (add_human_item d h) g"
proof (cases "human_key h \<in> set (map human_key (df_human_items d))")
  case True
  then obtain h' where "h' \<in> set (df_human_items d)" "human_key h' = human_key h" by auto
  with assms have "Some (ag_group_id g) \<in> hi_group_id ` set (df_human_items d)"
    by (force simp: human_key_def)
  with True show ?thesis by (simp add: covered_def add_human_item_def)
qed (use assms in \<open>auto simp: covered_def add_human_item_def\<close>)

lemma covered_add_explanation:
  "covered d g \<Longrightarrow> covered (add_explanation d e) g"
  "ex_group_id e = ag_group_id g \<Longrightarrow> covered (add_explanation d e) g"
  by (auto simp: covered_def add_explanation_def)

lemma covered_add_doc:
  "covered d g \<Longrightarrow> covered (add_doc_candidate d c) g"
  "dc_group_id c = ag_group_id g \<Longrightarrow> covered (add_doc_candidate d c) g"
  by (auto simp: covered_def add_doc_candidate_def)

lemma make_human_item_Inr [simp]: "make_human_item h = Inr h' \<Longrightarrow> h' = h"
  by (auto simp: make_human_item_def split: if_splits)

lemma add_human_groups_covers:
  "add_human_groups d gs r = Inr d' \<Longrightarrow>
     (\<forall>g \<in> set gs. covered d' g) \<and> (\<forall>g. covered d g \<longrightarrow> covered d' g)"
proof (induction d gs r rule: add_human_groups.induct)
  case (2 d g gs reason)
  then obtain h where h: "make_human_item \<lparr>hi_group_id = Some (ag_group_id g),
      hi_finding_ids = ag_finding_ids g, hi_reason = reason, hi_detail = None\<rparr> = Inr h"
    and rest: "add_human_groups (add_human_item d h) gs reason = Inr d'" by auto
  from h have "hi_group_id h = Some (ag_group_id g)"
    by (auto simp: make_human_item_def split: if_splits)
  with 2(1) [OF rest] show ?case
    using covered_new_human covered_add_human by auto
qed simp

lemma add_human_chunks_covers:
  "add_human_chunks d cs r = Inr d' \<Longrightarrow> covered d g \<Longrightarrow> covered d' g"
  by (induction d cs r rule: add_human_chunks.induct) (auto intro: covered_add_human)

lemma append_validation_error_length:
  "length errors \<le> MAX_AGENT_VALIDATION_ERRORS
     \<Longrightarrow> length (append_validation_error errors e) \<le> MAX_AGENT_VALIDATION_ERRORS"
  by (simp add: append_validation_error_def)

lemma add_error_Inr:
  "add_error st nd t gid = Inr st' \<Longrightarrow> length (gs_errors st) \<le> MAX_AGENT_VALIDATION_ERRORS \<Longrightarrow>
     \<exists>es. st' = st\<lparr>gs_errors := es\<rparr> \<and> length es \<le> MAX_AGENT_VALIDATION_ERRORS"
  by (auto simp: add_error_def intro: append_validation_error_length)

lemma degraded_update_Inr:
  assumes "degraded_update st r = Inr st'" and "r \<noteq> AMBIGUOUS_GROUP_LIMIT"
  obtains d x where
    "st' = st\<lparr>gs_draft := d, gs_degraded := Some x, gs_pending := None, gs_model := None,
       gs_finished := True\<rparr>"
    and "x \<noteq> AMBIGUOUS_GROUP_LIMIT"
    and "\<And>g. g \<in> set (drop (gs_index st) (gs_groups st)) \<Longrightarrow> covered d g"
    and "\<And>g. covered (gs_draft st) g \<Longrightarrow> covered d g"
proof -
  define x where "x = (case gs_degraded st of None \<Rightarrow> r
    | Some y \<Rightarrow> if y = AMBIGUOUS_GROUP_LIMIT then r else y)"
  from assms(1) obtain d where
    d: "add_human_groups (gs_draft st) (drop (gs_index st) (gs_groups st)) (degraded_value r) = Inr d"
    and st': "st' = st\<lparr>gs_draft := d, gs_degraded := Some x, gs_pending := None, gs_model := None,
       gs_finished := True\<rparr>"
    by (cases "gs_degraded st")
      (auto simp: degraded_update_def add_remaining_human_groups_def x_def Let_def)
  moreover have "x \<noteq> AMBIGUOUS_GROUP_LIMIT"
    using assms(2) by (simp add: x_def split: option.splits)
  ultimately show thesis
    using add_human_groups_covers [OF d] that by blast
qed

lemma begin_step_Some:
  "begin_step l st nd t = Inr (Some steps) \<Longrightarrow>
     \<exists>x. steps = gs_steps st @ [x] \<and> st_sequence x = length (gs_steps st) + 1
       \<and> length (gs_steps st) < lm_max_steps l"
  by (auto simp: begin_step_def make_step_def split: if_splits)

text \<open>The counters of the state after the attempts of one decision.\<close>

definition counted_on ::
  "agent_state \<Rightarrow> nat \<Rightarrow> nat \<Rightarrow> validation_error list \<Rightarrow> agent_state" where
  "counted_on st calls retries es =
     st\<lparr>gs_llm_calls := calls, gs_errors := es, gs_retry_count := retries\<rparr>"

definition attempt_bounds ::
  "agent_state \<Rightarrow> nat \<Rightarrow> nat \<Rightarrow> nat \<Rightarrow> validation_error list \<Rightarrow> bool" where
  "attempt_bounds st left calls retries es \<longleftrightarrow>
     calls \<le> gs_llm_calls st + left + 1 \<and> retries \<le> gs_retry_count st + left
     \<and> calls + gs_retry_count st \<le> retries + gs_llm_calls st + 1
     \<and> length es \<le> MAX_AGENT_VALIDATION_ERRORS"

lemma attempt_outcome_reason:
  "attempt_outcome cfg gid out = Inr (Inl r) \<Longrightarrow> r \<noteq> AMBIGUOUS_GROUP_LIMIT"
  "attempt_outcome cfg gid out = Inr (Inr (d, m)) \<Longrightarrow> decision_group d = gid"
  by (auto simp: attempt_outcome_def split: llm_outcome.splits sum.splits if_splits)

lemma decide_attempts_once:
  assumes "decide_attempts cfg env gid request a left st = Inr st'"
    and errors: "length (gs_errors st) \<le> MAX_AGENT_VALIDATION_ERRORS"
  obtains (decided) d m where "decision_group d = gid"
    and "st' = (counted_on st (gs_llm_calls st + 1) (gs_retry_count st) (gs_errors st))
           \<lparr>gs_pending := Some d, gs_model := Some m\<rparr>"
  | (stopped) calls es r where "calls \<le> gs_llm_calls st + 1"
    and "length es \<le> MAX_AGENT_VALIDATION_ERRORS" and "r \<noteq> AMBIGUOUS_GROUP_LIMIT"
    and "degraded_update (counted_on st calls (gs_retry_count st) es) r = Inr st'"
  | (retried) es where "left \<noteq> 0" and "length es \<le> MAX_AGENT_VALIDATION_ERRORS"
    and "decide_attempts cfg env gid request (a + 1) (left - 1)
           (counted_on st (gs_llm_calls st + 1) (gs_retry_count st + 1) es) = Inr st'"
proof -
  note unfolded = assms(1) [unfolded decide_attempts.simps [of _ _ _ _ a]]
  let ?st1 = "st\<lparr>gs_llm_calls := gs_llm_calls st + 1\<rparr>"
  show thesis
  proof (cases "gs_deadline st - ne_clock env (2 * a) \<le> 0")
    case True
    with unfolded obtain st1 where st1: "add_error st LLM_DECIDE (degraded_value AGENT_TIMEOUT) (Some gid) = Inr st1"
      and deg: "degraded_update st1 AGENT_TIMEOUT = Inr st'" by auto
    from add_error_Inr [OF st1 errors] obtain es where
      "st1 = counted_on st (gs_llm_calls st) (gs_retry_count st) es"
      "length es \<le> MAX_AGENT_VALIDATION_ERRORS"
      by (auto simp: counted_on_def)
    with deg stopped [of "gs_llm_calls st" es AGENT_TIMEOUT] show ?thesis by simp
  next
    case False
    with unfolded obtain x where x: "attempt_outcome cfg gid (ne_llm env request a) = Inr x"
      by (auto simp: Let_def split: if_splits)
    show ?thesis
    proof (cases x)
      case (Inl r)
      with False unfolded x obtain st2 where
        st2: "add_error ?st1 LLM_DECIDE (degraded_value r) (Some gid) = Inr st2"
        and rest: "(if left \<noteq> 0 \<and> gs_deadline st - ne_clock env (2 * a + 1) > 0
          then decide_attempts cfg env gid request (a + 1) (left - 1)
                 (st2\<lparr>gs_retry_count := gs_retry_count st2 + 1\<rparr>)
          else degraded_update st2 r) = Inr st'"
        by (auto simp: Let_def split: if_splits)
      from add_error_Inr [OF st2] errors obtain es where
        es: "st2 = counted_on st (gs_llm_calls st + 1) (gs_retry_count st) es"
        "length es \<le> MAX_AGENT_VALIDATION_ERRORS"
        by (auto simp: counted_on_def)
      from attempt_outcome_reason(1) [of cfg gid] x Inl have "r \<noteq> AMBIGUOUS_GROUP_LIMIT" by blast
      with es rest show ?thesis
        using stopped [of "gs_llm_calls st + 1" es r] retried [of es]
        by (auto simp: counted_on_def split: if_splits)
    next
      case (Inr dm)
      obtain d m where dm: "dm = (d, m)" by (cases dm)
      with False unfolded x Inr have "st' = (counted_on st (gs_llm_calls st + 1) (gs_retry_count st)
          (gs_errors st))\<lparr>gs_pending := Some d, gs_model := Some m\<rparr>"
        by (auto simp: Let_def counted_on_def split: if_splits)
      with dm x Inr show ?thesis
        using attempt_outcome_reason(2) [of cfg gid] decided by blast
    qed
  qed
qed

lemma decide_attempts_Inr:
  "decide_attempts cfg env gid request a left st = Inr st' \<Longrightarrow>
   length (gs_errors st) \<le> MAX_AGENT_VALIDATION_ERRORS \<Longrightarrow>
     \<exists>calls retries es. attempt_bounds st left calls retries es
       \<and> ((\<exists>d m. decision_group d = gid
             \<and> st' = (counted_on st calls retries es)\<lparr>gs_pending := Some d, gs_model := Some m\<rparr>)
          \<or> (\<exists>r. r \<noteq> AMBIGUOUS_GROUP_LIMIT
             \<and> degraded_update (counted_on st calls retries es) r = Inr st'))"
proof (induction left arbitrary: a st)
  case (0 a st)
  from 0(1,2) show ?case
  proof (cases rule: decide_attempts_once)
    case (decided d m)
    moreover have "attempt_bounds st 0 (gs_llm_calls st + 1) (gs_retry_count st) (gs_errors st)"
      using 0(2) by (simp add: attempt_bounds_def)
    ultimately show ?thesis by blast
  next
    case (stopped calls es r)
    then have "attempt_bounds st 0 calls (gs_retry_count st) es"
      by (simp add: attempt_bounds_def)
    with stopped show ?thesis by blast
  qed simp
next
  case (Suc left a st)
  from Suc.prems show ?case
  proof (cases rule: decide_attempts_once)
    case (decided d m)
    moreover have "attempt_bounds st (Suc left) (gs_llm_calls st + 1) (gs_retry_count st) (gs_errors st)"
      using Suc.prems(2) by (simp add: attempt_bounds_def)
    ultimately show ?thesis by blast
  next
    case (stopped calls es r)
    then have "attempt_bounds st (Suc left) calls (gs_retry_count st) es"
      by (simp add: attempt_bounds_def)
    with stopped show ?thesis by blast
  next
    case (retried es)
    let ?st = "counted_on st (gs_llm_calls st + 1) (gs_retry_count st + 1) es"
    have again: "counted_on ?st c r e = counted_on st c r e" for c r e
      by (simp add: counted_on_def)
    have "attempt_bounds ?st left c r e \<Longrightarrow> attempt_bounds st (Suc left) c r e" for c r e
      by (simp add: attempt_bounds_def counted_on_def)
    moreover have "length (gs_errors ?st) \<le> MAX_AGENT_VALIDATION_ERRORS"
      using retried(2) by (simp add: counted_on_def)
    ultimately show ?thesis
      using Suc.IH [of "a + 1" ?st] retried(3) unfolding again diff_Suc_1 by blast
  qed
qed

section \<open>The invariant\<close>

text \<open>The groups come from the preparation, and the request is carried along unchanged.\<close>

definition carried :: "agent_config \<Rightarrow> run_request \<Rightarrow> agent_state \<Rightarrow> bool" where
  "carried cfg rq st \<longleftrightarrow>
     gs_analysis_id st = rq_analysis_id rq \<and> gs_summary st = rq_summary rq
     \<and> gs_findings st = rq_findings rq \<and> gs_importers st = rq_importers rq
     \<and> prepare_ambiguous_groups (ac_digest cfg) (rq_findings rq)
          (lm_max_ambiguous_groups (ac_limits cfg))
         = Inr \<lparr>pp_groups = gs_groups st, pp_overflow_ids = gs_overflow_ids st\<rparr>"

definition within_limits :: "agent_config \<Rightarrow> agent_state \<Rightarrow> bool" where
  "within_limits cfg st \<longleftrightarrow>
     length (gs_steps st) \<le> lm_max_steps (ac_limits cfg)
     \<and> map st_sequence (gs_steps st) = [1 ..< length (gs_steps st) + 1]
     \<and> gs_tool_calls st \<le> lm_max_tool_calls (ac_limits cfg)
     \<and> length (gs_errors st) \<le> MAX_AGENT_VALIDATION_ERRORS"

text \<open>The first \<open>k\<close> groups have been shown to the model, each once; every call beyond the first
  for a group is a retry.\<close>

definition reviewed_upto :: "agent_config \<Rightarrow> agent_state \<Rightarrow> nat \<Rightarrow> bool" where
  "reviewed_upto cfg st k \<longleftrightarrow>
     k \<le> length (gs_groups st)
     \<and> gs_reviewed st = concat (map ag_finding_ids (take k (gs_groups st)))
     \<and> gs_llm_calls st \<le> (lm_max_retries (ac_limits cfg) + 1) * k
     \<and> gs_retry_count st \<le> lm_max_retries (ac_limits cfg) * k
     \<and> gs_llm_calls st \<le> gs_retry_count st + k
     \<and> gs_tool_calls st \<le> k"

text \<open>A group is settled when the draft mentions it; the exception are groups whose search of
  the documents came back empty.\<close>

definition empty_searches :: "agent_state \<Rightarrow> nat" where
  "empty_searches st =
     length (filter (\<lambda>e. ae_tool e = SEARCH_OFFICIAL_DOCS \<and> ae_status e = TOOL_EMPTY)
       (ts_events (gs_tools st)))"

definition settled_upto :: "agent_state \<Rightarrow> nat \<Rightarrow> bool" where
  "settled_upto st n \<longleftrightarrow>
     length (filter (\<lambda>g. \<not> covered (gs_draft st) g) (take n (gs_groups st))) \<le> empty_searches st"

definition common :: "agent_config \<Rightarrow> run_request \<Rightarrow> agent_state \<Rightarrow> bool" where
  "common cfg rq st \<longleftrightarrow> carried cfg rq st \<and> within_limits cfg st \<and> gs_index st \<le> length (gs_groups st)"

definition done_state :: "agent_config \<Rightarrow> run_request \<Rightarrow> agent_state \<Rightarrow> bool" where
  "done_state cfg rq st \<longleftrightarrow>
     common cfg rq st
     \<and> (\<exists>k. reviewed_upto cfg st k \<and> (gs_degraded st = None \<longrightarrow> k = length (gs_groups st)))
     \<and> settled_upto st (length (gs_groups st))
     \<and> (gs_degraded st = None \<longrightarrow> gs_overflow_ids st = [])"

definition reviewing :: "agent_config \<Rightarrow> run_request \<Rightarrow> agent_state \<Rightarrow> nat \<Rightarrow> bool" where
  "reviewing cfg rq st k \<longleftrightarrow>
     common cfg rq st \<and> \<not> gs_finished st \<and> gs_index st < length (gs_groups st)
     \<and> reviewed_upto cfg st k \<and> settled_upto st (gs_index st)
     \<and> gs_degraded st = (if gs_overflow_ids st = [] then None else Some AMBIGUOUS_GROUP_LIMIT)"

fun graph_inv :: "agent_config \<Rightarrow> run_request \<Rightarrow> graph_node \<Rightarrow> agent_state \<Rightarrow> bool" where
  "graph_inv cfg rq N_PREPARE st \<longleftrightarrow>
     valid_limits (ac_limits cfg) \<and> (\<exists>t tools. st = initial_state cfg rq t tools)"
| "graph_inv cfg rq N_LLM_DECIDE st \<longleftrightarrow> reviewing cfg rq st (gs_index st) \<and> gs_pending st = None"
| "graph_inv cfg rq N_VALIDATE st \<longleftrightarrow>
     gs_finished st \<and> done_state cfg rq st
     \<or> reviewing cfg rq st (gs_index st + 1) \<and> gs_pending st \<noteq> None
       \<and> gs_tool_calls st \<le> gs_index st"
| "graph_inv cfg rq N_EXECUTE st \<longleftrightarrow>
     reviewing cfg rq st (gs_index st + 1)
     \<and> gs_tool_calls st \<le> gs_index st
     \<and> gs_tool_calls st < lm_max_tool_calls (ac_limits cfg)"
| "graph_inv cfg rq N_COMPLETE st \<longleftrightarrow>
     reviewing cfg rq st (gs_index st + 1)
     \<and> gs_tool_calls st \<le> gs_index st"
| "graph_inv cfg rq N_FINALIZE st \<longleftrightarrow> done_state cfg rq st"

text \<open>After an edge into \<open>route_after_group\<close>.\<close>

lemma route_after_group_inv:
  assumes "gs_finished st \<and> done_state cfg rq st
     \<or> common cfg rq st \<and> \<not> gs_finished st \<and> reviewed_upto cfg st (gs_index st)
       \<and> settled_upto st (gs_index st) \<and> gs_pending st = None
       \<and> gs_degraded st = (if gs_overflow_ids st = [] then None else Some AMBIGUOUS_GROUP_LIMIT)"
  shows "graph_inv cfg rq (route_after_group st) st"
  using assms
proof (elim disjE conjE)
  assume st: "common cfg rq st" "\<not> gs_finished st" "reviewed_upto cfg st (gs_index st)"
    "settled_upto st (gs_index st)" "gs_pending st = None"
    "gs_degraded st = (if gs_overflow_ids st = [] then None else Some AMBIGUOUS_GROUP_LIMIT)"
  show ?thesis
  proof (cases "gs_index st < length (gs_groups st)")
    case True
    with st show ?thesis
      by (auto simp: route_after_group_def reviewing_def)
  next
    case False
    with st(1) have "gs_index st = length (gs_groups st)" by (simp add: common_def)
    with st have "done_state cfg rq st"
      by (auto simp: done_state_def)
    with st False show ?thesis by (auto simp: route_after_group_def)
  qed
qed (simp add: route_after_group_def)

text \<open>A stop of the review: the remaining groups go to a person.\<close>

lemma degraded_done:
  assumes "common cfg rq st" "reviewed_upto cfg st k" "settled_upto st (gs_index st)"
    and "degraded_update st r = Inr st'" "r \<noteq> AMBIGUOUS_GROUP_LIMIT"
  shows "gs_finished st' \<and> done_state cfg rq st'"
proof -
  from assms(4,5) obtain d x where
    st': "st' = st\<lparr>gs_draft := d, gs_degraded := Some x, gs_pending := None, gs_model := None,
       gs_finished := True\<rparr>"
    and "x \<noteq> AMBIGUOUS_GROUP_LIMIT"
    and rest: "\<And>g. g \<in> set (drop (gs_index st) (gs_groups st)) \<Longrightarrow> covered d g"
    and kept: "\<And>g. covered (gs_draft st) g \<Longrightarrow> covered d g"
    by (rule degraded_update_Inr) (rule that)
  have "filter (\<lambda>g. \<not> covered d g) (gs_groups st)
      = filter (\<lambda>g. \<not> covered d g) (take (gs_index st) (gs_groups st))"
    using rest by (subst append_take_drop_id [of "gs_index st", symmetric], subst filter_append)
      (simp add: filter_empty_conv)
  moreover have "length (filter (\<lambda>g. \<not> covered d g) gs) \<le> length (filter (\<lambda>g. \<not> covered (gs_draft st) g) gs)" for gs
    using kept by (induction gs) auto
  ultimately have "length (filter (\<lambda>g. \<not> covered d g) (gs_groups st)) \<le> empty_searches st"
    using assms(3) unfolding settled_upto_def by (metis order_trans)
  then have "settled_upto st' (length (gs_groups st'))"
    by (simp add: st' settled_upto_def empty_searches_def)
  with assms(1,2) show ?thesis
    by (auto simp: st' done_state_def common_def carried_def within_limits_def reviewed_upto_def)
qed

lemma stop_with_error_done:
  assumes "common cfg rq st" "reviewed_upto cfg st k" "settled_upto st (gs_index st)"
    and "stop_with_error st nd r = Inr st'" "r \<noteq> AMBIGUOUS_GROUP_LIMIT"
  shows "gs_finished st' \<and> done_state cfg rq st'"
proof -
  from assms(4) obtain st1 where st1: "add_error st nd (degraded_value r) (current_group_id st) = Inr st1"
    and deg: "degraded_update st1 r = Inr st'"
    by (auto simp: stop_with_error_def limit_error_def)
  from add_error_Inr [OF st1] assms(1) obtain es where
    "st1 = st\<lparr>gs_errors := es\<rparr>" "length es \<le> MAX_AGENT_VALIDATION_ERRORS"
    by (auto simp: common_def within_limits_def)
  with assms(1-3) have "common cfg rq st1" "reviewed_upto cfg st1 k" "settled_upto st1 (gs_index st1)"
    by (auto simp: common_def carried_def within_limits_def reviewed_upto_def settled_upto_def
        empty_searches_def)
  then show ?thesis
    using deg assms(5) by (rule degraded_done)
qed

text \<open>Taking a step keeps the limits.\<close>

lemma begin_step_common:
  assumes "common cfg rq st" "begin_step (ac_limits cfg) st nd t = Inr (Some steps)"
  shows "common cfg rq (st\<lparr>gs_steps := steps\<rparr>)"
proof -
  from begin_step_Some [OF assms(2)] obtain x where
    "steps = gs_steps st @ [x]" "st_sequence x = length (gs_steps st) + 1"
    "length (gs_steps st) < lm_max_steps (ac_limits cfg)" by blast
  with assms(1) show ?thesis
    by (simp add: common_def carried_def within_limits_def)
qed

lemma llm_decide_keeps:
  assumes "reviewing cfg rq st (gs_index st)"
    and "llm_decide_node cfg env st = Inr st'"
  shows "graph_inv cfg rq N_VALIDATE st'"
proof -
  let ?k = "gs_index st"
  from assms(1) have c: "common cfg rq st" "\<not> gs_finished st" "?k < length (gs_groups st)"
    "reviewed_upto cfg st ?k" "settled_upto st ?k"
    "gs_degraded st = (if gs_overflow_ids st = [] then None else Some AMBIGUOUS_GROUP_LIMIT)"
    by (simp_all add: reviewing_def)
  from assms(2) c(2) obtain os where os: "begin_step (ac_limits cfg) st LLM_DECIDE None = Inr os"
    by (auto simp: llm_decide_node_def)
  show ?thesis
  proof (cases os)
    case None
    with assms(2) c(2) os have "stop_with_error st LLM_DECIDE STEP_LIMIT = Inr st'"
      by (simp add: llm_decide_node_def)
    from stop_with_error_done [OF c(1,4,5) this] show ?thesis by simp
  next
    case (Some steps)
    let ?g = "gs_groups st ! ?k"
    let ?st1 = "st\<lparr>gs_steps := steps, gs_reviewed := gs_reviewed st @ ag_finding_ids ?g\<rparr>"
    from assms(2) c(2,3) os Some obtain request where run:
      "decide_attempts cfg env (ag_group_id ?g) request 0 (lm_max_retries (ac_limits cfg)) ?st1 = Inr st'"
      by (auto simp: llm_decide_node_def current_group_def split: if_splits)
    have "length (gs_errors ?st1) \<le> MAX_AGENT_VALIDATION_ERRORS"
      using c(1) by (simp add: common_def within_limits_def)
    from decide_attempts_Inr [OF run this] obtain calls retries es where
      bounds: "attempt_bounds ?st1 (lm_max_retries (ac_limits cfg)) calls retries es"
      and out: "(\<exists>d m. decision_group d = ag_group_id ?g
             \<and> st' = (counted_on ?st1 calls retries es)\<lparr>gs_pending := Some d, gs_model := Some m\<rparr>)
          \<or> (\<exists>r. r \<noteq> AMBIGUOUS_GROUP_LIMIT
             \<and> degraded_update (counted_on ?st1 calls retries es) r = Inr st')"
      by blast
    let ?st2 = "counted_on ?st1 calls retries es"
    from begin_step_common [OF c(1)] os Some bounds have c2: "common cfg rq ?st2"
      by (auto simp: common_def carried_def within_limits_def counted_on_def attempt_bounds_def)
    have r2: "reviewed_upto cfg ?st2 (?k + 1)"
      using c(3,4) bounds
      by (auto simp: reviewed_upto_def counted_on_def attempt_bounds_def take_Suc_conv_app_nth
          algebra_simps)
    have s2: "settled_upto ?st2 (gs_index ?st2)"
      using c(5) by (simp add: settled_upto_def counted_on_def empty_searches_def)
    from out show ?thesis
    proof (elim disjE exE conjE)
      fix d m assume st': "st' = ?st2\<lparr>gs_pending := Some d, gs_model := Some m\<rparr>"
      have "reviewing cfg rq st' (gs_index st' + 1)" "gs_tool_calls st' \<le> gs_index st'"
        using c c2 r2 s2 unfolding st'
        by (auto simp: reviewing_def common_def carried_def within_limits_def reviewed_upto_def
            settled_upto_def empty_searches_def counted_on_def)
      then show ?thesis by (simp add: st')
    next
      fix r assume "r \<noteq> AMBIGUOUS_GROUP_LIMIT" "degraded_update ?st2 r = Inr st'"
      then show ?thesis
        using degraded_done [OF c2 r2 s2] by simp
    qed
  qed
qed

lemmas state_facts = common_def carried_def within_limits_def reviewed_upto_def settled_upto_def
  empty_searches_def

lemma validate_action_keeps:
  assumes "graph_inv cfg rq N_VALIDATE st"
    and "validate_action_node cfg env st = Inr st'"
  shows "graph_inv cfg rq (route_after_validation st') st'"
proof (cases "gs_finished st")
  case True
  with assms have "st' = st\<lparr>gs_pending := None\<rparr>" "done_state cfg rq st"
    by (auto simp: validate_action_node_def reviewing_def)
  with True show ?thesis
    by (auto simp: route_after_validation_def done_state_def state_facts)
next
  case False
  let ?k = "gs_index st + 1"
  from assms(1) False obtain d where d: "gs_pending st = Some d" "gs_tool_calls st \<le> gs_index st"
    and rev: "reviewing cfg rq st ?k" by auto
  then have c: "common cfg rq st" "gs_index st < length (gs_groups st)"
    "reviewed_upto cfg st ?k" "settled_upto st (gs_index st)"
    by (simp_all add: reviewing_def)
  from assms(2) False d obtain os where os: "begin_step (ac_limits cfg) st VALIDATE_ACTION None = Inr os"
    by (auto simp: validate_action_node_def)
  have finished: "graph_inv cfg rq (route_after_validation st') st'"
    if "gs_finished st' \<and> done_state cfg rq st'"
    using that by (simp add: route_after_validation_def)
  show ?thesis
  proof (cases os)
    case None
    with assms(2) False d os have "stop_with_error st VALIDATE_ACTION STEP_LIMIT = Inr st'"
      by (simp add: validate_action_node_def)
    from stop_with_error_done [OF c(1,3,4) this] show ?thesis using finished by simp
  next
    case (Some steps)
    let ?st1 = "st\<lparr>gs_steps := steps\<rparr>"
    from begin_step_common [OF c(1)] os Some have c1: "common cfg rq ?st1" by blast
    have r1: "reviewed_upto cfg ?st1 ?k" and s1: "settled_upto ?st1 (gs_index ?st1)"
      using c by (simp_all add: state_facts)
    from assms(2) False d os Some consider
        (stop) r where "stop_with_error ?st1 VALIDATE_ACTION r = Inr st'" "r \<noteq> AMBIGUOUS_GROUP_LIMIT"
      | (go) "st' = ?st1" "is_tool_call d \<longrightarrow> gs_tool_calls st < lm_max_tool_calls (ac_limits cfg)"
      by (fastforce simp: validate_action_node_def Let_def split: if_splits)
    then show ?thesis
    proof cases
      case stop
      from stop_with_error_done [OF c1 r1 s1 stop] show ?thesis by (rule finished)
    next
      case go
      have "reviewing cfg rq st' (gs_index st' + 1)"
        using rev c1 unfolding go(1) by (simp add: reviewing_def state_facts)
      with go d False show ?thesis
        by (simp add: route_after_validation_def)
    qed
  qed
qed

lemma add_doc_results_covers:
  "add_doc_results d aid g cs = Inr d' \<Longrightarrow>
     (\<forall>g'. covered d g' \<longrightarrow> covered d' g') \<and> (cs \<noteq> [] \<longrightarrow> covered d' g)"
proof (induction d aid g cs rule: add_doc_results.induct)
  case (2 d aid g c cs)
  then obtain x where x: "make_doc_candidate \<lparr>dc_analysis_id = aid, dc_group_id = ag_group_id g,
      dc_finding_ids = ag_finding_ids g, dc_chunk_id = oc_chunk_id c\<rparr> = Inr x"
    and rest: "add_doc_results (add_doc_candidate d x) aid g cs = Inr d'" by auto
  from x have "dc_group_id x = ag_group_id g"
    by (auto simp: make_doc_candidate_def split: if_splits)
  with 2(1) [OF rest] show ?case
    using covered_add_doc by blast
qed simp

lemma note_documents_Inr:
  assumes "note_documents cfg st g query r = Inr st'"
  obtains chunks bindings d where
    "st' = st\<lparr>gs_chunks := chunks, gs_bindings := bindings, gs_draft := d\<rparr>"
    and "\<And>g'. covered (gs_draft st) g' \<Longrightarrow> covered d g'" and "rd_results r \<noteq> [] \<Longrightarrow> covered d g"
proof -
  from assms obtain d bindings where
    d: "add_doc_results (gs_draft st) (gs_analysis_id st) g (rd_results r) = Inr d"
    and st': "st' = st\<lparr>gs_chunks := gs_chunks st @ filter (\<lambda>c. oc_chunk_id c \<notin>
        set (map oc_chunk_id (gs_chunks st))) (rd_results r), gs_bindings := bindings, gs_draft := d\<rparr>"
    unfolding note_documents_def Let_def bindE_eq_Inr sum.inject by blast
  from add_doc_results_covers [OF d] show thesis
    by (intro that [OF st']) auto
qed

lemma note_human_Inr:
  assumes "note_human st g reason detail = Inr st'"
  obtains d where "st' = st\<lparr>gs_draft := d\<rparr>"
    and "\<And>g'. covered (gs_draft st) g' \<Longrightarrow> covered d g'" and "covered d g"
proof -
  from assms obtain h where h: "make_human_item \<lparr>hi_group_id = Some (ag_group_id g),
      hi_finding_ids = ag_finding_ids g, hi_reason = reason, hi_detail = detail\<rparr> = Inr h"
    and st': "st' = st\<lparr>gs_draft := add_human_item (gs_draft st) h\<rparr>"
    by (auto simp: note_human_def)
  from h have "hi_group_id h = Some (ag_group_id g)"
    by (auto simp: make_human_item_def split: if_splits)
  then show thesis
    using covered_new_human covered_add_human by (intro that [OF st']) auto
qed

text \<open>Leaving the current group after the draft and the trace have grown.\<close>

lemma leave_group_keeps:
  assumes "reviewing cfg rq st (gs_index st + 1)"
    and common: "common cfg rq st1"
    and same: "gs_index st1 = gs_index st" "gs_groups st1 = gs_groups st"
      "gs_reviewed st1 = gs_reviewed st" "gs_llm_calls st1 = gs_llm_calls st"
      "gs_retry_count st1 = gs_retry_count st" "gs_finished st1 = gs_finished st"
      "gs_degraded st1 = gs_degraded st" "gs_overflow_ids st1 = gs_overflow_ids st"
    and calls: "gs_tool_calls st1 \<le> gs_index st + 1"
    and kept: "\<And>g. covered (gs_draft st) g \<Longrightarrow> covered (gs_draft st1) g"
    and settled: "empty_searches st + (if covered (gs_draft st1) (gs_groups st ! gs_index st) then 0 else 1)
        \<le> empty_searches st1"
  shows "graph_inv cfg rq (route_after_group (leave_group st1)) (leave_group st1)"
proof (rule route_after_group_inv, rule disjI2, intro conjI)
  let ?k = "gs_index st"
  from assms(1) have k: "?k < length (gs_groups st)" and r: "reviewed_upto cfg st (?k + 1)"
    and s: "settled_upto st ?k" and nf: "\<not> gs_finished st"
    and deg: "gs_degraded st = (if gs_overflow_ids st = [] then None else Some AMBIGUOUS_GROUP_LIMIT)"
    by (simp_all add: reviewing_def)
  show "common cfg rq (leave_group st1)"
    using common k same by (simp add: state_facts leave_group_def)
  show "\<not> gs_finished (leave_group st1)"
    "gs_degraded (leave_group st1) =
       (if gs_overflow_ids (leave_group st1) = [] then None else Some AMBIGUOUS_GROUP_LIMIT)"
    "gs_pending (leave_group st1) = None"
    using nf deg same by (simp_all add: leave_group_def)
  show "reviewed_upto cfg (leave_group st1) (gs_index (leave_group st1))"
    using r same calls by (simp add: reviewed_upto_def leave_group_def)
  have fewer: "length (filter (\<lambda>g. \<not> covered (gs_draft st1) g) gs)
      \<le> length (filter (\<lambda>g. \<not> covered (gs_draft st) g) gs)" for gs
    using kept by (induction gs) auto
  have "length (filter (\<lambda>g. \<not> covered (gs_draft st1) g) (take (?k + 1) (gs_groups st)))
      \<le> empty_searches st1"
    using s settled fewer [of "take ?k (gs_groups st)"] k
    by (auto simp: take_Suc_conv_app_nth settled_upto_def split: if_splits)
  then show "settled_upto (leave_group st1) (gs_index (leave_group st1))"
    using same by (simp add: settled_upto_def leave_group_def empty_searches_def)
qed

lemma complete_group_keeps:
  assumes "graph_inv cfg rq N_COMPLETE st" and "complete_group_node cfg st = Inr st'"
  shows "graph_inv cfg rq (route_after_group st') st'"
proof -
  from assms(1) have rev: "reviewing cfg rq st (gs_index st + 1)"
    and calls: "gs_tool_calls st \<le> gs_index st" by simp_all
  then have c: "common cfg rq st" "gs_index st < length (gs_groups st)"
    "reviewed_upto cfg st (gs_index st + 1)" "settled_upto st (gs_index st)"
    by (simp_all add: reviewing_def)
  let ?g = "gs_groups st ! gs_index st"
  from assms(2) obtain d os where d: "gs_pending st = Some d"
    and os: "begin_step (ac_limits cfg) st COMPLETE_GROUP None = Inr os"
    by (auto simp: complete_group_node_def split: option.splits if_splits)
  show ?thesis
  proof (cases os)
    case None
    with assms(2) d os have "stop_with_error st COMPLETE_GROUP STEP_LIMIT = Inr st'"
      by (simp add: complete_group_node_def split: if_splits)
    from stop_with_error_done [OF c(1,3,4) this] show ?thesis
      by (simp add: route_after_group_inv)
  next
    case (Some steps)
    let ?st1 = "st\<lparr>gs_steps := steps\<rparr>"
    from begin_step_common [OF c(1)] os Some have c1: "common cfg rq ?st1" by blast
    have go: "is_tool_call d \<or> complete_group_node cfg st =
        bindE (case d of
           FinishGroup gid tx \<Rightarrow>
             (case gs_model st of
                None \<Rightarrow> Inl AgentRuntimeErr
              | Some model \<Rightarrow>
                  bindE (make_explanation \<lparr>ex_group_id = ag_group_id ?g,
                           ex_finding_ids = ag_finding_ids ?g, ex_text = tx,
                           ex_model = model\<rparr>) (\<lambda>e.
                    Inr (?st1\<lparr>gs_draft := add_explanation (gs_draft st) e\<rparr>)))
         | RequestHumanReview gid tx \<Rightarrow> note_human ?st1 ?g ''requested_by_model'' (Some tx)
         | CallTool gid q \<Rightarrow> Inl AgentRuntimeErr) (\<lambda>st2. Inr (leave_group st2))"
      using d os Some c(2) by (simp add: complete_group_node_def current_group_def Let_def)
    obtain st2 where st': "st' = leave_group st2"
      and st2: "(\<exists>e. ex_group_id e = ag_group_id ?g
            \<and> st2 = ?st1\<lparr>gs_draft := add_explanation (gs_draft st) e\<rparr>)
          \<or> (\<exists>tx. note_human ?st1 ?g ''requested_by_model'' (Some tx) = Inr st2)"
    proof (cases d)
      case (CallTool gid q)
      with assms(2) d show thesis by (simp add: complete_group_node_def)
    next
      case (FinishGroup gid tx)
      with go assms(2) obtain m e where e: "make_explanation \<lparr>ex_group_id = ag_group_id ?g,
            ex_finding_ids = ag_finding_ids ?g, ex_text = tx, ex_model = m\<rparr> = Inr e"
        and st': "st' = leave_group (?st1\<lparr>gs_draft := add_explanation (gs_draft st) e\<rparr>)"
        by (auto simp: Inr_eq_bindE split: option.splits)
      from e have "ex_group_id e = ag_group_id ?g"
        by (auto simp: make_explanation_def split: if_splits)
      with st' show thesis
        by (intro that [of "?st1\<lparr>gs_draft := add_explanation (gs_draft st) e\<rparr>"]) auto
    next
      case (RequestHumanReview gid tx)
      with go assms(2) show thesis by (auto simp: Inr_eq_bindE intro: that)
    qed
    obtain dr where st2: "st2 = ?st1\<lparr>gs_draft := dr\<rparr>" and kept: "\<And>g'. covered (gs_draft st) g' \<Longrightarrow> covered dr g'"
      and new: "covered dr ?g"
      using st2
    proof (elim disjE exE conjE)
      fix tx assume "note_human ?st1 ?g ''requested_by_model'' (Some tx) = Inr st2"
      from note_human_Inr [OF this] obtain d' where "st2 = ?st1\<lparr>gs_draft := d'\<rparr>"
        "\<And>g'. covered (gs_draft ?st1) g' \<Longrightarrow> covered d' g'" "covered d' ?g" by blast
      then show thesis by (intro that [of d']) simp_all
    next
      fix e assume "ex_group_id e = ag_group_id ?g"
        "st2 = ?st1\<lparr>gs_draft := add_explanation (gs_draft st) e\<rparr>"
      then show thesis
        using covered_add_explanation by (intro that [of "add_explanation (gs_draft st) e"]) simp_all
    qed
    show ?thesis
      unfolding st'
      by (rule leave_group_keeps [OF rev])
        (use c1 kept new calls in \<open>auto simp: st2 state_facts\<close>)
  qed
qed

text \<open>A call of a tool keeps the events so far; an empty search is recorded as such.\<close>

lemma execute_searches:
  assumes "execute sha cx env q ts = (out, ts')"
  shows "length (filter (\<lambda>e. ae_tool e = SEARCH_OFFICIAL_DOCS \<and> ae_status e = TOOL_EMPTY) (ts_events ts))
     \<le> length (filter (\<lambda>e. ae_tool e = SEARCH_OFFICIAL_DOCS \<and> ae_status e = TOOL_EMPTY) (ts_events ts'))"
    and "out = Inr (DocsResult r) \<Longrightarrow> q = SearchOfficialDocs query k \<Longrightarrow> rd_results r = [] \<Longrightarrow>
     length (filter (\<lambda>e. ae_tool e = SEARCH_OFFICIAL_DOCS \<and> ae_status e = TOOL_EMPTY) (ts_events ts)) + 1
     \<le> length (filter (\<lambda>e. ae_tool e = SEARCH_OFFICIAL_DOCS \<and> ae_status e = TOOL_EMPTY) (ts_events ts'))"
proof -
  note logs = execute_logs [of env q ts sha cx] and silent = execute_cancelled [of env q sha cx ts]
  show "length (filter (\<lambda>e. ae_tool e = SEARCH_OFFICIAL_DOCS \<and> ae_status e = TOOL_EMPTY) (ts_events ts))
     \<le> length (filter (\<lambda>e. ae_tool e = SEARCH_OFFICIAL_DOCS \<and> ae_status e = TOOL_EMPTY) (ts_events ts'))"
    using logs silent assms by (cases "cancelled_in_flight env q") (auto simp: logged_def)
  show "length (filter (\<lambda>e. ae_tool e = SEARCH_OFFICIAL_DOCS \<and> ae_status e = TOOL_EMPTY) (ts_events ts)) + 1
     \<le> length (filter (\<lambda>e. ae_tool e = SEARCH_OFFICIAL_DOCS \<and> ae_status e = TOOL_EMPTY) (ts_events ts'))"
    if "out = Inr (DocsResult r)" "q = SearchOfficialDocs query k" "rd_results r = []"
    using logs silent assms that
    by (cases "cancelled_in_flight env q") (auto simp: logged_def valid_docs_result_def)
qed

lemma execute_tool_keeps:
  assumes "graph_inv cfg rq N_EXECUTE st" and "execute_tool_node cfg env st = Inr st'"
  shows "graph_inv cfg rq (route_after_group st') st'"
proof -
  from assms(1) have rev: "reviewing cfg rq st (gs_index st + 1)"
    and calls: "gs_tool_calls st \<le> gs_index st" "gs_tool_calls st < lm_max_tool_calls (ac_limits cfg)"
    by simp_all
  then have c: "common cfg rq st" "gs_index st < length (gs_groups st)"
    "reviewed_upto cfg st (gs_index st + 1)" "settled_upto st (gs_index st)"
    by (simp_all add: reviewing_def)
  let ?g = "gs_groups st ! gs_index st"
  from assms(2) obtain gid request os where d: "gs_pending st = Some (CallTool gid request)"
    and os: "begin_step (ac_limits cfg) st EXECUTE_TOOL (Some (tool_of request)) = Inr os"
    by (auto simp: execute_tool_node_def split: option.splits decision.splits)
  show ?thesis
  proof (cases os)
    case None
    with assms(2) d os have "stop_with_error st EXECUTE_TOOL STEP_LIMIT = Inr st'"
      by (simp add: execute_tool_node_def)
    from stop_with_error_done [OF c(1,3,4) this] show ?thesis
      by (simp add: route_after_group_inv)
  next
    case (Some steps)
    obtain out tools' where ex:
      "execute (ac_sha cfg) (ac_context cfg) (ne_tool env) request (gs_tools st) = (out, tools')"
      by (cases "execute (ac_sha cfg) (ac_context cfg) (ne_tool env) request (gs_tools st)")
    let ?st1 = "st\<lparr>gs_steps := steps, gs_tool_calls := Suc (gs_tool_calls st), gs_tools := tools'\<rparr>"
    have go: "(case out of
          Inl (ToolErr t e) \<Rightarrow>
            bindE (add_error ?st1 EXECUTE_TOOL (tool_error_value e) (Some (ag_group_id ?g))) (\<lambda>st2.
              degraded_update st2 TOOL_ERROR_REASON)
        | Inl ToolRaised \<Rightarrow> Inl AgentRaised
        | Inl ToolCancelled \<Rightarrow> Inl AgentCancelled
        | Inr (DocsResult r) \<Rightarrow>
            (case request of
               SearchOfficialDocs query k \<Rightarrow>
                 bindE (note_documents cfg ?st1 ?g query r) (\<lambda>st2. Inr (leave_group st2))
             | _ \<Rightarrow> Inl AgentRuntimeErr)
        | Inr _ \<Rightarrow> bindE (note_human ?st1 ?g ''tool_observation'' None) (\<lambda>st2. Inr (leave_group st2)))
        = Inr st'"
      using assms(2) d os Some ex c(2)
      by (simp add: execute_tool_node_def current_group_def Let_def)
    from begin_step_common [OF c(1)] os Some calls have c1: "common cfg rq ?st1"
      by (auto simp: state_facts)
    have r1: "reviewed_upto cfg ?st1 (gs_index st + 1)"
      using c(3) calls by (simp add: reviewed_upto_def)
    have more: "empty_searches st \<le> empty_searches ?st1"
      using execute_searches(1) [OF ex] by (simp add: empty_searches_def)
    have s1: "settled_upto ?st1 (gs_index ?st1)"
      using c(4) more by (simp add: settled_upto_def)
    consider (failed) t e where "out = Inl (ToolErr t e)"
      | (docs) r query k where "out = Inr (DocsResult r)" "request = SearchOfficialDocs query k"
        "bindE (note_documents cfg ?st1 ?g query r) (\<lambda>st2. Inr (leave_group st2)) = Inr st'"
      | (other) "bindE (note_human ?st1 ?g ''tool_observation'' None) (\<lambda>st2. Inr (leave_group st2)) = Inr st'"
      using go by (cases out) (auto split: tool_exn.splits tool_result.splits tool_request.splits)
    then show ?thesis
    proof cases
      case failed
      with go obtain st2 where
        st2: "add_error ?st1 EXECUTE_TOOL (tool_error_value e) (Some (ag_group_id ?g)) = Inr st2"
        and deg: "degraded_update st2 TOOL_ERROR_REASON = Inr st'" by auto
      have "length (gs_errors ?st1) \<le> MAX_AGENT_VALIDATION_ERRORS"
        using c1 by (simp add: common_def within_limits_def)
      from add_error_Inr [OF st2 this] obtain es where
        es: "st2 = ?st1\<lparr>gs_errors := es\<rparr>" "length es \<le> MAX_AGENT_VALIDATION_ERRORS" by blast
      with c1 r1 s1 have "common cfg rq st2" "reviewed_upto cfg st2 (gs_index st + 1)"
        "settled_upto st2 (gs_index st2)"
        by (simp_all add: state_facts)
      from degraded_done [OF this deg] show ?thesis
        by (simp add: route_after_group_inv)
    next
      case docs
      then obtain st2 where noted: "note_documents cfg ?st1 ?g query r = Inr st2"
        and st': "st' = leave_group st2" by auto
      from note_documents_Inr [OF noted] obtain ch bi dr where
        st2: "st2 = ?st1\<lparr>gs_chunks := ch, gs_bindings := bi, gs_draft := dr\<rparr>"
        and kept: "\<And>g'. covered (gs_draft ?st1) g' \<Longrightarrow> covered dr g'"
        and new: "rd_results r \<noteq> [] \<Longrightarrow> covered dr ?g" by metis
      have "empty_searches st + (if covered dr ?g then 0 else 1) \<le> empty_searches st2"
        using execute_searches [OF ex] docs(1,2) new
        by (auto simp: empty_searches_def st2)
      then show ?thesis
        unfolding st' using c1 kept calls
        by (intro leave_group_keeps [OF rev]) (auto simp: st2 state_facts)
    next
      case other
      then obtain st2 where noted: "note_human ?st1 ?g ''tool_observation'' None = Inr st2"
        and st': "st' = leave_group st2" by auto
      from note_human_Inr [OF noted] obtain dr where
        st2: "st2 = ?st1\<lparr>gs_draft := dr\<rparr>"
        and kept: "\<And>g'. covered (gs_draft ?st1) g' \<Longrightarrow> covered dr g'"
        and new: "covered dr ?g" by metis
      show ?thesis
        unfolding st' using c1 kept calls more new
        by (intro leave_group_keeps [OF rev]) (auto simp: st2 state_facts)
    qed
  qed
qed

lemma add_human_overflow:
  "add_human_finding_ids d ids r = Inr d' \<Longrightarrow> covered d g \<Longrightarrow> covered d' g"
  unfolding add_human_finding_ids_def by (rule add_human_chunks_covers)

lemma prepare_keeps:
  assumes "graph_inv cfg rq N_PREPARE st" and "prepare_node cfg st = Inr st'"
  shows "graph_inv cfg rq (route_after_group st') st'"
proof -
  from assms(1) obtain t tools where limits: "valid_limits (ac_limits cfg)"
    and st: "st = initial_state cfg rq t tools" by auto
  from assms(2) obtain os where os: "begin_step (ac_limits cfg) st PREPARE None = Inr os"
    by (auto simp: prepare_node_def)
  then obtain steps where steps: "os = Some steps"
    using limits by (auto simp: begin_step_def st initial_state_def valid_limits_def split: if_splits)
  from begin_step_Some [of "ac_limits cfg" st] os steps obtain x where
    x: "steps = [x]" "st_sequence x = 1" "0 < lm_max_steps (ac_limits cfg)"
    by (fastforce simp: st initial_state_def)
  from assms(2) os steps obtain p d reason d' reason' finished where
    p: "prepare_ambiguous_groups (ac_digest cfg) (gs_findings st)
          (lm_max_ambiguous_groups (ac_limits cfg)) = Inr p"
    and d: "(if pp_overflow_ids p = [] then Inr (gs_draft st, gs_degraded st)
        else bindE (add_human_finding_ids (gs_draft st) (pp_overflow_ids p)
               (degraded_value AMBIGUOUS_GROUP_LIMIT)) (\<lambda>d. Inr (d, Some AMBIGUOUS_GROUP_LIMIT)))
        = Inr (d, reason)"
    and blocked: "(case if pp_groups p \<noteq> [] \<and> \<not> gs_llm_review st then Some LLM_REVIEW_DISABLED
                     else if pp_groups p \<noteq> [] \<and> \<not> ac_has_model cfg then Some NO_MODEL else None
        of None \<Rightarrow> Inr (d, reason, pp_groups p = [])
         | Some r \<Rightarrow> bindE (add_human_groups d (pp_groups p) (degraded_value r)) (\<lambda>d'.
             Inr (d', Some r, True))) = Inr (d', reason', finished)"
    and st': "st' = st\<lparr>gs_groups := pp_groups p, gs_overflow_ids := pp_overflow_ids p,
        gs_steps := steps, gs_draft := d', gs_degraded := reason', gs_finished := finished\<rparr>"
    by (auto simp: prepare_node_def Let_def)
  have carried: "common cfg rq st'"
    using p x by (simp add: st' st initial_state_def state_facts)
  have reviewed: "reviewed_upto cfg st' 0"
    by (simp add: st' st initial_state_def reviewed_upto_def)
  have reason: "reason = (if pp_overflow_ids p = [] then None else Some AMBIGUOUS_GROUP_LIMIT)"
    using d by (auto simp: st initial_state_def split: if_splits)
  show ?thesis
  proof (cases "pp_groups p \<noteq> [] \<and> (\<not> gs_llm_review st \<or> \<not> ac_has_model cfg)")
    case True
    with blocked obtain r where "add_human_groups d (pp_groups p) (degraded_value r) = Inr d'"
      "reason' = Some r" "finished"
      by (auto split: if_splits)
    with carried reviewed add_human_groups_covers [OF this(1)]
    have "gs_finished st' \<and> done_state cfg rq st'"
      by (auto simp: done_state_def settled_upto_def st' filter_empty_conv)
    then show ?thesis by (simp add: route_after_group_inv)
  next
    case False
    with blocked have b: "d' = d" "reason' = reason" "finished = (pp_groups p = [])"
      by (auto split: if_splits)
    show ?thesis
    proof (cases "pp_groups p = []")
      case True
      with b carried reviewed reason have "gs_finished st' \<and> done_state cfg rq st'"
        by (auto simp: done_state_def settled_upto_def st')
      then show ?thesis by (simp add: route_after_group_inv)
    next
      case False
      with b carried reviewed reason show ?thesis
        by (intro route_after_group_inv disjI2)
          (auto simp: st' st initial_state_def settled_upto_def)
    qed
  qed
qed

end
