(* ===== verification/AgentRank.thy ===== *)
theory AgentRank
  imports AgentInvariant
begin

text \<open>
  Why the review graph ends: every node takes a step of the step budget or leads to the last
  node.  The two interpretations give the engine what \<open>bounded_graph\<close> asks for, \<open>budget\<close>
  without any assumption on the states and \<open>review\<close> with the invariant.
\<close>

section \<open>The rank\<close>

text \<open>What is left of the step budget, and the few nodes that take no step.\<close>

fun graph_rank :: "agent_config \<Rightarrow> graph_node \<Rightarrow> agent_state \<Rightarrow> nat" where
  "graph_rank cfg N_FINALIZE st = 1"
| "graph_rank cfg N_VALIDATE st =
     (if gs_finished st then 2 else lm_max_steps (ac_limits cfg) - length (gs_steps st) + 4)"
| "graph_rank cfg nd st = lm_max_steps (ac_limits cfg) - length (gs_steps st) + 4"

lemma finished_route:
  "gs_finished st \<Longrightarrow> route_after_group st = N_FINALIZE"
  "gs_finished st \<Longrightarrow> route_after_validation st = N_FINALIZE"
  by (simp_all add: route_after_group_def route_after_validation_def)

text \<open>Every node but the last either ends the review or takes a step of the budget.\<close>

definition advances :: "agent_config \<Rightarrow> agent_state \<Rightarrow> agent_state \<Rightarrow> bool" where
  "advances cfg st st' \<longleftrightarrow>
     gs_finished st'
     \<or> length (gs_steps st') = length (gs_steps st) + 1
       \<and> length (gs_steps st) < lm_max_steps (ac_limits cfg)"

lemma degraded_update_finishes: "degraded_update st r = Inr st' \<Longrightarrow> gs_finished st'"
  by (auto simp: degraded_update_def Let_def)

lemma stop_with_error_finishes: "stop_with_error st nd r = Inr st' \<Longrightarrow> gs_finished st'"
  by (auto simp: stop_with_error_def dest: degraded_update_finishes)

lemma decide_attempts_shape:
  assumes "decide_attempts cfg env gid request a left st = Inr st'"
  shows "gs_finished st' \<or> gs_steps st' = gs_steps st
     \<or> left \<noteq> 0 \<and> (\<exists>st2. gs_steps st2 = gs_steps st
         \<and> decide_attempts cfg env gid request (a + 1) (left - 1) st2 = Inr st')"
proof -
  note unfolded = assms [unfolded decide_attempts.simps [of _ _ _ _ a] Let_def]
  show ?thesis
  proof (cases "gs_deadline st - ne_clock env (2 * a) \<le> 0")
    case True
    with unfolded show ?thesis by (auto dest: degraded_update_finishes)
  next
    case False
    with unfolded obtain x where x: "attempt_outcome cfg gid (ne_llm env request a) = Inr x"
      by (auto split: if_splits)
    show ?thesis
    proof (cases x)
      case (Inl r)
      with False unfolded x obtain st2 where
        st2: "add_error (st\<lparr>gs_llm_calls := gs_llm_calls st + 1\<rparr>) LLM_DECIDE (degraded_value r)
          (Some gid) = Inr st2"
        and rest: "(if left \<noteq> 0 \<and> gs_deadline st - ne_clock env (2 * a + 1) > 0
          then decide_attempts cfg env gid request (a + 1) (left - 1)
                 (st2\<lparr>gs_retry_count := gs_retry_count st2 + 1\<rparr>)
          else degraded_update st2 r) = Inr st'"
        by (auto split: if_splits)
      from st2 have "gs_steps (st2\<lparr>gs_retry_count := gs_retry_count st2 + 1\<rparr>) = gs_steps st"
        by (auto simp: add_error_def)
      show ?thesis
      proof (cases "left \<noteq> 0 \<and> gs_deadline st - ne_clock env (2 * a + 1) > 0")
        case True
        with rest \<open>gs_steps (st2\<lparr>gs_retry_count := gs_retry_count st2 + 1\<rparr>) = gs_steps st\<close>
        show ?thesis
          by (intro disjI2 conjI exI [of _ "st2\<lparr>gs_retry_count := gs_retry_count st2 + 1\<rparr>"])
            (simp_all only: if_True simp_thms)
      next
        case False
        with rest have "degraded_update st2 r = Inr st'" by (simp only: if_False)
        then show ?thesis by (simp add: degraded_update_finishes)
      qed
    next
      case (Inr dm)
      with False unfolded x show ?thesis
        by (cases dm) (auto split: if_splits)
    qed
  qed
qed

lemma decide_attempts_steps:
  "decide_attempts cfg env gid request a left st = Inr st'
     \<Longrightarrow> gs_finished st' \<or> gs_steps st' = gs_steps st"
proof (induction left arbitrary: a st)
  case (0 a st)
  from decide_attempts_shape [OF this] show ?case by blast
next
  case (Suc left a st)
  from decide_attempts_shape [OF Suc.prems] Suc.IH show ?case
    unfolding diff_Suc_1 by metis
qed

lemma begin_step_length:
  "begin_step l st nd t = Inr (Some steps) \<Longrightarrow>
     length steps = length (gs_steps st) + 1 \<and> length (gs_steps st) < lm_max_steps l"
  using begin_step_Some [of l st nd t steps] by auto

lemma prepare_advances:
  assumes "prepare_node cfg st = Inr st'"
  shows "advances cfg st st'"
proof -
  from assms obtain os where os: "begin_step (ac_limits cfg) st PREPARE None = Inr os"
    by (auto simp: prepare_node_def)
  show ?thesis
  proof (cases os)
    case None
    with assms os show ?thesis
      by (auto simp: prepare_node_def advances_def dest: degraded_update_finishes)
  next
    case (Some steps)
    with assms os obtain gs ov d r f where "st' = st\<lparr>gs_groups := gs, gs_overflow_ids := ov,
        gs_steps := steps, gs_draft := d, gs_degraded := r, gs_finished := f\<rparr>"
      by (auto simp: prepare_node_def Let_def)
    with begin_step_length [of "ac_limits cfg" st] os Some show ?thesis
      by (simp add: advances_def)
  qed
qed

lemma llm_decide_advances:
  assumes "llm_decide_node cfg env st = Inr st'" "\<not> gs_finished st"
  shows "advances cfg st st'"
proof -
  from assms obtain os where os: "begin_step (ac_limits cfg) st LLM_DECIDE None = Inr os"
    by (auto simp: llm_decide_node_def)
  show ?thesis
  proof (cases os)
    case None
    with assms os show ?thesis
      by (auto simp: llm_decide_node_def advances_def dest: stop_with_error_finishes)
  next
    case (Some steps)
    from assms os Some obtain g where "current_group st = Inr g"
      by (auto simp: llm_decide_node_def)
    moreover from assms os Some this obtain request where
      "llm_request cfg (gs_findings st) g = Inr request"
      by (auto simp: llm_decide_node_def split: if_splits)
    ultimately have "decide_attempts cfg env (ag_group_id g) request 0
        (lm_max_retries (ac_limits cfg))
        (st\<lparr>gs_steps := steps, gs_reviewed := gs_reviewed st @ ag_finding_ids g\<rparr>) = Inr st'"
      using assms os Some by (simp add: llm_decide_node_def split: if_splits)
    then have "gs_finished st' \<or> gs_steps st' = steps"
      using decide_attempts_steps by fastforce
    with begin_step_length [of "ac_limits cfg" st] os Some
    show ?thesis by (auto simp: advances_def)
  qed
qed

lemma validate_action_advances:
  assumes "validate_action_node cfg env st = Inr st'"
  shows "advances cfg st st' \<or> route_after_validation st' = N_FINALIZE"
proof (cases "gs_finished st \<or> gs_pending st = None")
  case True
  then have "validate_action_node cfg env st = Inr (st\<lparr>gs_pending := None\<rparr>)"
    by (cases "gs_finished st"; cases "gs_pending st") (simp_all add: validate_action_node_def)
  with assms show ?thesis
    by (auto simp: route_after_validation_def)
next
  case False
  then obtain d where d: "\<not> gs_finished st" "gs_pending st = Some d" by blast
  with assms obtain os where os: "begin_step (ac_limits cfg) st VALIDATE_ACTION None = Inr os"
    by (auto simp: validate_action_node_def)
  show ?thesis
  proof (cases os)
    case None
    with assms d os show ?thesis
      by (auto simp: validate_action_node_def advances_def dest: stop_with_error_finishes)
  next
    case (Some steps)
    with assms d os have "gs_finished st' \<or> gs_steps st' = steps"
      by (auto simp: validate_action_node_def Let_def dest: stop_with_error_finishes
          split: if_splits)
    with begin_step_length [of "ac_limits cfg" st] os Some show ?thesis
      by (auto simp: advances_def)
  qed
qed

lemma note_human_steps: "note_human st g r x = Inr st' \<Longrightarrow> gs_steps st' = gs_steps st"
  by (auto simp: note_human_def)

lemma note_documents_steps: "note_documents cfg st g q r = Inr st' \<Longrightarrow> gs_steps st' = gs_steps st"
  unfolding note_documents_def Let_def bindE_eq_Inr sum.inject by auto

lemma execute_tool_advances:
  assumes "execute_tool_node cfg env st = Inr st'"
  shows "advances cfg st st'"
proof -
  from assms obtain gid request os where d: "gs_pending st = Some (CallTool gid request)"
    and os: "begin_step (ac_limits cfg) st EXECUTE_TOOL (Some (tool_of request)) = Inr os"
    by (auto simp: execute_tool_node_def split: option.splits decision.splits)
  show ?thesis
  proof (cases os)
    case None
    with assms d os show ?thesis
      by (auto simp: execute_tool_node_def advances_def dest: stop_with_error_finishes)
  next
    case (Some steps)
    obtain out tools' where ex:
      "execute (ac_sha cfg) (ac_context cfg) (ne_tool env) request (gs_tools st) = (out, tools')"
      by (cases "execute (ac_sha cfg) (ac_context cfg) (ne_tool env) request (gs_tools st)")
    from assms d os Some obtain g where g: "current_group st = Inr g"
      by (auto simp: execute_tool_node_def)
    with assms d os Some ex have "gs_finished st' \<or> gs_steps st' = steps"
      by (cases out; simp only: execute_tool_node_def)
        (auto simp: execute_tool_node_def leave_group_def Let_def
          dest!: degraded_update_finishes note_human_steps note_documents_steps
          split: tool_exn.splits tool_result.splits tool_request.splits)
    with begin_step_length [of "ac_limits cfg" st] os Some show ?thesis
      by (auto simp: advances_def)
  qed
qed

lemma complete_group_advances:
  assumes "complete_group_node cfg st = Inr st'"
  shows "advances cfg st st'"
proof -
  from assms obtain d os where d: "gs_pending st = Some d" "\<not> is_tool_call d"
    and os: "begin_step (ac_limits cfg) st COMPLETE_GROUP None = Inr os"
    by (auto simp: complete_group_node_def split: option.splits if_splits)
  show ?thesis
  proof (cases os)
    case None
    with assms d os show ?thesis
      by (auto simp: complete_group_node_def advances_def dest: stop_with_error_finishes)
  next
    case (Some steps)
    with assms d os have "gs_steps st' = steps"
      by (cases d; cases "gs_model st")
        (auto simp: complete_group_node_def leave_group_def Let_def dest!: note_human_steps)
    with begin_step_length [of "ac_limits cfg" st] os Some show ?thesis
      by (auto simp: advances_def)
  qed
qed

lemma route_rank:
  assumes "advances cfg st st'"
  shows "graph_rank cfg (route_after_group st') st'
       < lm_max_steps (ac_limits cfg) - length (gs_steps st) + 4"
    and "graph_rank cfg (route_after_validation st') st'
       < lm_max_steps (ac_limits cfg) - length (gs_steps st) + 4"
  using assms finished_route
  by (auto simp: advances_def route_after_group_def route_after_validation_def
      split: option.splits)

lemma node_step_rank:
  assumes "node_step cfg env nd st = Inr (Some nd', st')"
  shows "graph_rank cfg nd' st' < graph_rank cfg nd st"
proof (cases nd)
  case N_PREPARE
  with assms prepare_advances route_rank(1) show ?thesis by auto
next
  case N_LLM_DECIDE
  with assms have "llm_decide_node cfg env st = Inr st'" "nd' = N_VALIDATE" by auto
  with N_LLM_DECIDE llm_decide_advances [of cfg env st st'] show ?thesis
    by (cases "gs_finished st") (auto simp: llm_decide_node_def advances_def)
next
  case N_VALIDATE
  with assms have v: "validate_action_node cfg env st = Inr st'" "nd' = route_after_validation st'"
    by auto
  show ?thesis
  proof (cases "gs_finished st")
    case True
    with v have "gs_finished st'" by (auto simp: validate_action_node_def split: option.splits)
    with True v N_VALIDATE finished_route show ?thesis by simp
  next
    case False
    with v N_VALIDATE validate_action_advances [OF v(1)] route_rank(2) show ?thesis by auto
  qed
next
  case N_EXECUTE
  with assms execute_tool_advances route_rank(1) show ?thesis by auto
next
  case N_COMPLETE
  with assms complete_group_advances route_rank(1) show ?thesis by auto
qed (use assms in simp)

interpretation budget: bounded_graph "node_step cfg" "\<lambda>_ _. True" "\<lambda>_. True" "graph_rank cfg"
  for cfg
  by unfold_locales (auto intro: node_step_rank)

lemma node_step_inv:
  assumes inv: "graph_inv cfg rq nd st" and step: "node_step cfg env nd st = Inr (Some nd', st')"
  shows "graph_inv cfg rq nd' st'"
proof (cases nd)
  case N_PREPARE
  with step have "prepare_node cfg st = Inr st'" "nd' = route_after_group st'" by auto
  with inv N_PREPARE prepare_keeps show ?thesis by blast
next
  case N_LLM_DECIDE
  with step have "llm_decide_node cfg env st = Inr st'" "nd' = N_VALIDATE" by auto
  moreover from inv N_LLM_DECIDE have "reviewing cfg rq st (gs_index st)" by simp
  ultimately show ?thesis using llm_decide_keeps by blast
next
  case N_VALIDATE
  with step have "validate_action_node cfg env st = Inr st'" "nd' = route_after_validation st'" by auto
  with inv N_VALIDATE validate_action_keeps show ?thesis by blast
next
  case N_EXECUTE
  with step have "execute_tool_node cfg env st = Inr st'" "nd' = route_after_group st'" by auto
  with inv N_EXECUTE execute_tool_keeps show ?thesis by blast
next
  case N_COMPLETE
  with step have "complete_group_node cfg st = Inr st'" "nd' = route_after_group st'" by auto
  with inv N_COMPLETE complete_group_keeps show ?thesis by blast
qed (use step in simp)

lemma finalize_keeps: "done_state cfg rq st \<Longrightarrow> done_state cfg rq (finalize_node st)"
  by (simp add: finalize_node_def done_state_def state_facts)

lemma node_step_final:
  assumes "graph_inv cfg rq nd st" "node_step cfg env nd st = Inr (None, st')"
  shows "done_state cfg rq st'"
proof (cases nd)
  case N_FINALIZE
  with assms finalize_keeps [of cfg rq st] show ?thesis by auto
qed (use assms(2) in auto)

interpretation review: bounded_graph "node_step cfg" "graph_inv cfg rq" "done_state cfg rq"
  "graph_rank cfg" for cfg rq
proof unfold_locales
  show "graph_inv cfg rq nd st \<Longrightarrow> node_step cfg env nd st = Inr (Some nd', st') \<Longrightarrow> graph_inv cfg rq nd' st'"
    for nd st env nd' st' by (rule node_step_inv)
  show "node_step cfg env nd st = Inr (Some nd', st') \<Longrightarrow> graph_rank cfg nd' st' < graph_rank cfg nd st"
    for nd st env nd' st' by (rule node_step_rank)
  show "graph_inv cfg rq nd st \<Longrightarrow> node_step cfg env nd st = Inr (None, st') \<Longrightarrow> done_state cfg rq st'"
    for nd st env st' by (rule node_step_final)
qed

section \<open>No node runs out of fuel\<close>

named_theorems not_exhausted \<open>the operations of the graph never raise the engine's error\<close>

lemma make_not_exhausted [not_exhausted]:
  "make_group g \<noteq> Inl AgentRecursionErr" "make_preparation p \<noteq> Inl AgentRecursionErr"
  "make_step s \<noteq> Inl AgentRecursionErr" "make_validation_error v \<noteq> Inl AgentRecursionErr"
  "make_explanation x \<noteq> Inl AgentRecursionErr" "make_doc_candidate d \<noteq> Inl AgentRecursionErr"
  "make_binding b \<noteq> Inl AgentRecursionErr" "make_human_item h \<noteq> Inl AgentRecursionErr"
  "make_run_result f r \<noteq> Inl AgentRecursionErr" "current_group st \<noteq> Inl AgentRecursionErr"
  by (simp_all add: make_group_def make_preparation_def make_step_def make_validation_error_def
      make_explanation_def make_doc_candidate_def make_binding_def make_human_item_def
      make_run_result_def current_group_def Let_def)

lemma add_human_groups_not_exhausted [not_exhausted]:
  "add_human_groups d gs r \<noteq> Inl AgentRecursionErr"
  by (induction d gs r rule: add_human_groups.induct) (auto simp: bindE_eq_Inl not_exhausted)

lemma add_human_chunks_not_exhausted [not_exhausted]:
  "add_human_chunks d cs r \<noteq> Inl AgentRecursionErr"
  by (induction d cs r rule: add_human_chunks.induct) (auto simp: bindE_eq_Inl not_exhausted)

lemma add_doc_results_not_exhausted [not_exhausted]:
  "add_doc_results d a g ch \<noteq> Inl AgentRecursionErr"
  by (induction d a g ch rule: add_doc_results.induct) (auto simp: bindE_eq_Inl not_exhausted)

lemma helper_not_exhausted [not_exhausted]:
  "add_human_finding_ids d ids r \<noteq> Inl AgentRecursionErr"
  "degraded_update st x \<noteq> Inl AgentRecursionErr"
  "add_error st nd t gid \<noteq> Inl AgentRecursionErr"
  "stop_with_error st nd x \<noteq> Inl AgentRecursionErr"
  "begin_step l st nd tool \<noteq> Inl AgentRecursionErr"
  "note_human st g r detail \<noteq> Inl AgentRecursionErr"
  "attempt_outcome cfg i out \<noteq> Inl AgentRecursionErr"
  by (auto simp: add_human_finding_ids_def degraded_update_def add_remaining_human_groups_def
      add_error_def stop_with_error_def limit_error_def begin_step_def note_human_def
      attempt_outcome_def Let_def bindE_eq_Inl not_exhausted
      split: llm_outcome.splits sum.splits)

lemma groups_of_entry_not_exhausted [not_exhausted]: "groups_of_entry f e \<noteq> Inl AgentRecursionErr"
  by (auto simp: groups_of_entry_def not_exhausted split: prod.splits dest!: traverseE_Inl)

lemma prepare_groups_not_exhausted [not_exhausted]:
  "prepare_ambiguous_groups f fs n \<noteq> Inl AgentRecursionErr"
proof
  assume "prepare_ambiguous_groups f fs n = Inl AgentRecursionErr"
  then obtain checked where
    "traverseE (groups_of_entry f) (grouped_findings checked) = Inl AgentRecursionErr"
    by (auto simp: prepare_ambiguous_groups_def bindE_eq_Inl not_exhausted Let_def
        split: if_splits sum.splits)
  from traverseE_Inl [OF this] show False by (auto simp: not_exhausted)
qed

lemma llm_request_not_exhausted [not_exhausted]: "llm_request cfg fs g \<noteq> Inl AgentRecursionErr"
  by (auto simp: llm_request_def bindE_eq_Inl Let_def split: if_splits option.splits
      dest!: traverseE_Inl)

lemma matched_terms_not_exhausted [not_exhausted]:
  "matched_query_terms cfg fs g q \<noteq> Inl AgentRecursionErr"
  by (auto simp: matched_query_terms_def bindE_eq_Inl Let_def split: sum.splits option.splits
      dest!: traverseE_Inl)

lemma note_documents_not_exhausted [not_exhausted]:
  "note_documents cfg st g q r \<noteq> Inl AgentRecursionErr"
  by (auto simp: note_documents_def bindE_eq_Inl Let_def not_exhausted split: if_splits)

lemma decide_attempts_not_exhausted [not_exhausted]:
  "decide_attempts cfg env gid request a left st \<noteq> Inl AgentRecursionErr"
proof (induction left arbitrary: a st)
  case (0 a st)
  show ?case
    by (subst decide_attempts.simps)
      (auto simp: Let_def bindE_eq_Inl not_exhausted split: if_splits sum.splits)
next
  case (Suc left a st)
  then show ?case
    by (subst decide_attempts.simps)
      (auto simp: Let_def bindE_eq_Inl not_exhausted split: if_splits sum.splits)
qed

lemma node_step_not_exhausted: "node_step cfg env nd st \<noteq> Inl AgentRecursionErr"
proof (cases nd)
  case N_PREPARE
  then show ?thesis
    by (auto simp: prepare_node_def bindE_eq_Inl not_exhausted Let_def
        split: option.splits if_splits)
next
  case N_LLM_DECIDE
  then show ?thesis
    by (auto simp: llm_decide_node_def bindE_eq_Inl not_exhausted split: option.splits if_splits)
next
  case N_VALIDATE
  then show ?thesis
    by (auto simp: validate_action_node_def bindE_eq_Inl not_exhausted Let_def
        split: option.splits if_splits bool.splits)
next
  case N_EXECUTE
  then show ?thesis
    by (auto simp: execute_tool_node_def bindE_eq_Inl not_exhausted Let_def
        split: option.splits decision.splits prod.splits sum.splits tool_exn.splits
          tool_result.splits tool_request.splits)
next
  case N_COMPLETE
  then show ?thesis
    by (auto simp: complete_group_node_def bindE_eq_Inl not_exhausted Let_def
        split: option.splits decision.splits if_splits)
qed simp

end
