(* ===== verification/AgentSamples.thy ===== *)
theory AgentSamples
  imports AgentRank
begin

text \<open>
  A small request and the runs on it that the witnesses evaluate: two findings in two files,
  hence two evidence groups, a digest that is cheap to compute, and a model given by what it
  answers in each attempt.
\<close>

section \<open>Findings and groups\<close>

definition one_hit :: finding where
  "one_hit = hit\<lparr>fd_evidence := [\<lparr>ev_key = EV_IMPORT_SYMBOL, ev_value = ''BaseSettings''\<rparr>]\<rparr>"

definition other_hit :: finding where
  "other_hit = one_hit\<lparr>fd_path := ''pkg/beta.py''\<rparr>"

definition length_digest :: "string \<Rightarrow> string" where
  "length_digest s = replicate 63 (CHR ''0'') @ [digit_char (length s mod 16)]"

lemma length_digest_hex: "is_digest (length_digest s)"
  using hex_digit [of "length s"] by (simp add: is_digest_def length_digest_def)

section \<open>Sample runs\<close>

text \<open>
  Two findings in two files, so two evidence groups, and a model that asks for a human review
  of the first group and explains the second.
\<close>

definition sample_request :: run_request where
  "sample_request =
     \<lparr>rq_analysis_id = ''run-1'',
      rq_summary = \<lparr>su_python_files = 2, su_python_loc = 10, su_direct_finding_count = 2,
        su_directly_affected_files = 2, su_one_hop_dependent_files = 0\<rparr>,
      rq_findings = [one_hit, other_hit], rq_importers = [], rq_llm_review = True\<rparr>"

definition sample_group_id :: "finding \<Rightarrow> string" where
  "sample_group_id f = ''sha256:'' @ length_digest
     (group_text (fd_path f) (fd_rule_id f) [finding_identity length_digest f])"

definition sample_read :: "string \<Rightarrow> decision option" where
  "sample_read s =
     (if s = ''review'' then Some (RequestHumanReview (sample_group_id one_hit) ''why'')
      else if s = ''explain'' then Some (FinishGroup (sample_group_id other_hit) ''because'')
      else None)"

definition sample_config :: agent_config where
  "sample_config =
     \<lparr>ac_digest = length_digest, ac_sha = (\<lambda>_. []), ac_read = sample_read,
      ac_set_order = (\<lambda>xs. xs), ac_system_prompt = ''prompt'', ac_context = two_module_context,
      ac_has_model = True, ac_limits = default_agent_limits\<rparr>"

text \<open>The last argument tells what the model answers in each attempt for each group.\<close>

definition sample_envs :: "(bool \<Rightarrow> nat \<Rightarrow> llm_outcome) \<Rightarrow> nat \<Rightarrow> node_env" where
  "sample_envs answer n =
     \<lparr>ne_cancelled = False, ne_clock = (\<lambda>_. 1),
      ne_llm = (\<lambda>_. answer (n > 76)),
      ne_tool = \<lparr>te_source = \<lparr>se_lstat = (\<lambda>_. OsMissing), se_resolve = (\<lambda>_. OsMissing),
                               se_open = (\<lambda>_. OsMissing)\<rparr>,
                 te_search = (\<lambda>_. SearchFailed), te_expired = False, te_cancelled = False,
                 te_duration_ms = 0\<rparr>\<rparr>"

definition no_tool_calls :: tool_state where
  "no_tool_calls = \<lparr>ts_sequence = 0, ts_events = []\<rparr>"

definition sample_group :: "finding \<Rightarrow> ambiguous_group" where
  "sample_group f = group_of length_digest (fd_path f) (fd_rule_id f) [finding_identity length_digest f]"

definition sample_message :: "finding \<Rightarrow> string" where
  "sample_message f = (let g = sample_group f in dumps (json_dict [(''group'', group_json g),
     (''findings'', JArr [finding_summary (finding_identity length_digest f) f]),
     (''allowed_tools'', JArr (map (JStr \<circ> tool_value)
                [GET_FINDINGS, GET_SOURCE_CONTEXT, GET_LOCAL_IMPORTERS, SEARCH_OFFICIAL_DOCS,
                 LOOKUP_RULE_SPEC]))]))"

text \<open>The values of the model's functions on the samples that the proofs below need.\<close>

lemma sample_findings:
  "valid_finding one_hit"
  "valid_finding other_hit"
  "one_hit \<noteq> other_hit"
  by code_simp+

lemma sample_digests:
  "length_digest (finding_text other_hit) \<noteq> length_digest (finding_text one_hit)"
  by code_simp+

lemma sample_group_ids_differ:
  "ag_group_id (sample_group one_hit) \<noteq> ag_group_id (sample_group other_hit)"
  by code_simp+

lemma sample_order:
  "sort_key finding_sort_key [one_hit, other_hit] = [one_hit, other_hit]"
  "is_analysis_id ''run-1''"
  "card (set (map fd_path [one_hit, other_hit])) = 2"
  by code_simp+

lemma sample_lengths:
  "length (sample_message one_hit) = 568"
  "length (sample_message other_hit) = 571"
  by code_simp+

lemma sample_checks:
  "strip ''why'' = ''why''"
  "strip ''because'' = ''because''"
  "strip ''moved'' = ''moved''"
  "strip ''m'' = ''m''"
  "strip '' m'' \<noteq> '' m''"
  "is_reason_text ''llm_timeout''"
  "is_reason_text ''requested_by_model''"
  "valid_limits default_agent_limits"
  by code_simp+

lemma sample_grouped:
  "grouped_findings [one_hit, other_hit]
      = [((fd_path one_hit, fd_rule_id one_hit), [one_hit]),
         ((fd_path other_hit, fd_rule_id other_hit), [other_hit])]"
  by code_simp+

lemmas sample_values = sample_findings sample_digests sample_group_ids_differ sample_order
  sample_lengths sample_checks sample_grouped

lemma sample_digest: "good_digest length_digest [one_hit, other_hit]"
  using sample_values(4) by (auto simp: good_digest_def length_digest_hex)

lemma sample_all_groups:
  "all_groups length_digest [one_hit, other_hit] = [sample_group one_hit, sample_group other_hit]"
  using sample_values(19)
  by (simp add: all_groups_def entry_groups_def sample_group_def MAX_FINDINGS_PER_GROUP_def
      chunks_of.simps [of _ "[x]" for x] chunks_of.simps [of _ "[]"])

lemma sample_prepare:
  "prepare_ambiguous_groups length_digest [one_hit, other_hit] MAX_AMBIGUOUS_GROUPS
     = Inr \<lparr>pp_groups = [sample_group one_hit, sample_group other_hit], pp_overflow_ids = []\<rparr>"
proof -
  have "\<forall>f \<in> set [one_hit, other_hit]. valid_finding f" "distinct [one_hit, other_hit]"
    using sample_values(1-3) by simp_all
  then show ?thesis
    using prepare_eq [OF sample_digest, of MAX_AMBIGUOUS_GROUPS] sample_values(6)
    by (simp add: sample_all_groups MAX_AMBIGUOUS_GROUPS_def)
qed

lemma sample_group_ids: "sample_group_id f = ag_group_id (sample_group f)"
  by (simp add: sample_group_id_def sample_group_def group_of_def)

lemma sample_group_simps [simp]:
  "ag_finding_ids (sample_group f) = [finding_identity length_digest f]"
  "is_sha256_id (ag_group_id (sample_group f))"
  "is_sha256_id (finding_identity length_digest f)"
  using length_digest_hex
  by (simp_all add: sample_group_def group_of_def finding_identity_def is_sha256_id_def is_digest_def)


lemma sample_distinct:
  "finding_identity length_digest one_hit \<noteq> finding_identity length_digest other_hit"
  "ag_group_id (sample_group one_hit) \<noteq> ag_group_id (sample_group other_hit)"
  using sample_values(4,5) by (simp_all add: finding_identity_def eq_commute)

lemma sample_valid: "valid_run_request sample_request"
proof -
  have "make_rule_scan_result [one_hit, other_hit] = Inr [one_hit, other_hit]"
    using sample_values(3,6) by (simp add: make_rule_scan_result_def del: sort_key_simps)
  with sample_values(1,2,7,8) show ?thesis
    by (simp add: valid_run_request_def sample_request_def valid_summary_def)
qed

lemma sample_messages:
  "llm_request sample_config [one_hit, other_hit] (sample_group one_hit)
     = Inr (sample_message one_hit)"
  "llm_request sample_config [one_hit, other_hit] (sample_group other_hit)
     = Inr (sample_message other_hit)"
  using sample_values(9,10) sample_distinct(1)
  by (simp_all add: llm_request_def finding_by_id_def sample_config_def valid_message_def
      sample_message_def Let_def)

lemma run_graph_numeral:
  "run_graph step cancelled exhausted envs (numeral k) node st =
     (if cancelled (envs (pred_numeral k)) then Inr None
      else bindE (step (envs (pred_numeral k)) node st) (\<lambda>(next_node, st').
        case next_node of
          None \<Rightarrow> Inr (Some st')
        | Some nd \<Rightarrow> run_graph step cancelled exhausted envs (pred_numeral k) nd st'))"
  by (simp add: numeral_eq_Suc)

lemma sample_prepared:
  "prepare_node sample_config (initial_state sample_config sample_request 0 no_tool_calls)
    = Inr ((initial_state sample_config sample_request 0 no_tool_calls)
       \<lparr>gs_groups := [sample_group one_hit, sample_group other_hit],
         gs_steps := [\<lparr>st_sequence = 1, st_node = PREPARE, st_status = STEP_SUCCESS,
                       st_group_id = None, st_tool = None\<rparr>]\<rparr>)"
  using sample_prepare
  by (simp add: prepare_node_def begin_step_def make_step_def initial_state_def sample_config_def
      default_agent_limits_def MAX_AGENT_STEPS_def current_group_id_def sample_request_def Let_def)

section \<open>What the runs do\<close>

lemma sample_config_simps [simp]:
  "ac_digest sample_config = length_digest" "ac_read sample_config = sample_read"
  "ac_has_model sample_config = True" "ac_limits sample_config = default_agent_limits"
  by (simp_all add: sample_config_def)

lemma sample_limits [simp]:
  "lm_max_steps default_agent_limits = 32" "lm_max_retries default_agent_limits = 1"
  "lm_total_timeout_seconds default_agent_limits = 45"
  by (simp_all add: default_agent_limits_def agent_limits)

lemma sample_request_simps [simp]:
  "rq_findings sample_request = [one_hit, other_hit]" "rq_llm_review sample_request = True"
  "rq_analysis_id sample_request = ''run-1''"
  by (simp_all add: sample_request_def)

lemma parse_samples [simp]:
  "parse_agent_decision sample_read ''review''
     = Inr (RequestHumanReview (ag_group_id (sample_group one_hit)) ''why'')"
  "parse_agent_decision sample_read ''explain''
     = Inr (FinishGroup (ag_group_id (sample_group other_hit)) ''because'')"
  using sample_values(11,12)
  by (simp_all add: parse_agent_decision_def sample_read_def sample_group_ids)

lemmas node_defs = begin_step_def make_step_def current_group_id_def current_group_def
  llm_decide_node_def decide_attempts.simps attempt_outcome_def add_error_def
  make_validation_error_def append_validation_error_def validate_action_node_def
  complete_group_node_def note_human_def make_human_item_def make_explanation_def
  leave_group_def finalize_node_def route_after_group_def route_after_validation_def
  add_human_item_def add_explanation_def human_key_def

lemmas sample_texts = sample_values(16,17,12,14,15)

text \<open>A model that answers in every first attempt.\<close>

definition prompt_answers :: "nat \<Rightarrow> node_env" where
  "prompt_answers = sample_envs (\<lambda>first n. LlmAnswer ''m'' (if first then ''review'' else ''explain''))"

text \<open>A model that times out in the first attempt for either group and answers in the second.\<close>

definition late_answers :: "nat \<Rightarrow> node_env" where
  "late_answers = sample_envs (\<lambda>first n.
     if n = 0 then LlmTimeout else LlmAnswer ''m'' (if first then ''review'' else ''explain''))"

text \<open>A model whose name starts with a blank.\<close>

definition blank_answers :: "nat \<Rightarrow> node_env" where
  "blank_answers = sample_envs (\<lambda>first n. LlmAnswer '' m'' (if first then ''review'' else ''explain''))"

lemmas sample_facts = sample_texts sample_prepared sample_distinct sample_messages sample_valid

lemmas sample_run_simps = agent_run_def run_graph_numeral node_defs initial_state_def
  sample_envs_def empty_draft_def group_sized_def agent_limits recursion_limit_def

lemmas sample_sorted = sample_values(6,3)

lemma sample_final:
  "\<exists>st. run_graph (node_step sample_config) ne_cancelled AgentRecursionErr prompt_answers 80
     N_PREPARE (initial_state sample_config sample_request 0 no_tool_calls) = Inr (Some st)
     \<and> length (gs_groups st) = 2 \<and> ts_events (gs_tools st) = []"
  using sample_facts by (simp add: sample_run_simps prompt_answers_def no_tool_calls_def)

lemma sample_reviewed:
  "\<exists>r. agent_run sample_config prompt_answers 0 no_tool_calls sample_request = Inr r
     \<and> rr_degraded r = None \<and> rr_llm_calls r = 2 \<and> length (rr_steps r) = 7"
  using sample_facts sample_sorted
  by (simp add: sample_run_simps prompt_answers_def state_to_result_def make_run_result_def valid_run_result_def)

end
