(* ===== verification/AgentProps.thy ===== *)
theory AgentProps
  imports AgentSamples
begin

text \<open>
  The properties of the grouping and of a run of the review graph.
\<close>

section \<open>Grouping\<close>

text \<open>C28: the groups partition the findings.  For valid, distinct findings whose canonical texts
  SHA-256 does not collide, the grouping succeeds for every allowed number of groups; the
  identities in the groups followed by the overflow are exactly those of the findings, each
  once; there are at most \<open>max_groups\<close> groups, all of them used before anything overflows; a
  group is valid and holds findings of one file and one rule only; and the order in which the
  findings arrive does not matter.\<close>

theorem groups_partition:
  assumes "good_digest digest fs" "\<forall>f \<in> set fs. valid_finding f" "distinct fs"
    and "1 \<le> max_groups" "max_groups \<le> 8"
  shows "\<exists>p. prepare_ambiguous_groups digest fs max_groups = Inr p
     \<and> distinct (concat (map ag_finding_ids (pp_groups p)) @ pp_overflow_ids p)
     \<and> mset (concat (map ag_finding_ids (pp_groups p)) @ pp_overflow_ids p)
         = mset (map (finding_identity digest) fs)
     \<and> length (pp_groups p) \<le> max_groups
     \<and> (pp_overflow_ids p \<noteq> [] \<longrightarrow> length (pp_groups p) = max_groups)
     \<and> (\<forall>g \<in> set (pp_groups p). make_group g = Inr g
          \<and> (\<forall>i \<in> set (ag_finding_ids g). \<exists>f \<in> set fs. finding_identity digest f = i
               \<and> fd_path f = ag_path g \<and> fd_rule_id f = ag_rule_id g))
     \<and> (\<forall>fs'. mset fs' = mset fs \<longrightarrow> prepare_ambiguous_groups digest fs' max_groups = Inr p)"
proof -
  let ?fs = "sort_key finding_sort_key fs"
  let ?gs = "all_groups digest ?fs"
  let ?p = "\<lparr>pp_groups = take max_groups ?gs,
    pp_overflow_ids = concat (map ag_finding_ids (drop max_groups ?gs))\<rparr>"
  have fs: "good_digest digest ?fs" "\<forall>f \<in> set ?fs. valid_finding f" "distinct ?fs"
    using assms(1-3) by (simp_all add: good_digest_def)
  have max: "max_groups \<le> MAX_AMBIGUOUS_GROUPS"
    using assms(5) by (simp add: agent_limits)
  have run: "prepare_ambiguous_groups digest fs max_groups = Inr ?p"
    by (rule prepare_eq [OF assms(1-4) max])
  have split: "concat (map ag_finding_ids (take max_groups ?gs))
      @ concat (map ag_finding_ids (drop max_groups ?gs)) = concat (map ag_finding_ids ?gs)"
    by (metis append_take_drop_id concat_append map_append)
  have ids: "mset (concat (map ag_finding_ids ?gs)) = mset (map (finding_identity digest) fs)"
    unfolding all_groups_ids by simp
  have "distinct (map (finding_identity digest) fs)"
    using assms(3) finding_identity_inj [OF assms(1)] by (simp add: distinct_map)
  with ids have "distinct (concat (map ag_finding_ids ?gs))"
    by (metis mset_eq_imp_distinct_iff)
  moreover have "make_group g = Inr g \<and> (\<forall>i \<in> set (ag_finding_ids g). \<exists>f \<in> set fs.
      finding_identity digest f = i \<and> fd_path f = ag_path g \<and> fd_rule_id f = ag_rule_id g)"
    if "g \<in> set (take max_groups ?gs)" for g
    using all_groups_origin [OF fs in_set_takeD [OF that]] by simp
  moreover have "prepare_ambiguous_groups digest fs' max_groups = Inr ?p" if "mset fs' = mset fs" for fs'
  proof -
    have "sort_key finding_sort_key fs' = ?fs"
      using that assms(2) findings.sorted_unique [of fs fs'] by simp
    then have "prepare_ambiguous_groups digest fs' max_groups = prepare_ambiguous_groups digest fs max_groups"
      by (simp only: prepare_ambiguous_groups_def)
    with run show ?thesis by simp
  qed
  moreover have "length (take max_groups ?gs) = max_groups"
    if "concat (map ag_finding_ids (drop max_groups ?gs)) \<noteq> []"
    using that by (cases "length ?gs \<le> max_groups") auto
  ultimately show ?thesis
    using run ids split by (intro exI [of _ ?p] conjI allI impI ballI) simp_all
qed

theorem groups_partition_witness:
  "\<exists>p. prepare_ambiguous_groups length_digest [other_hit, one_hit] 1 = Inr p
     \<and> mset (concat (map ag_finding_ids (pp_groups p)) @ pp_overflow_ids p)
         = mset (map (finding_identity length_digest) [other_hit, one_hit])"
proof -
  have "good_digest length_digest [other_hit, one_hit]"
    using sample_values(4) by (auto simp: good_digest_def length_digest_hex)
  moreover have "\<forall>f \<in> set [other_hit, one_hit]. valid_finding f" "distinct [other_hit, one_hit]"
    using sample_values(1-3) by auto
  ultimately show ?thesis
    using groups_partition [of length_digest "[other_hit, one_hit]" 1] by auto
qed

section \<open>Runs\<close>

text \<open>C29: the recursion limit of the graph engine is never the reason why a run ends.  Whatever
  the clock, the model and the tools do, the review graph comes to its last node within the
  limit the code passes to the engine.\<close>

theorem agent_run_terminates:
  "agent_run cfg envs started tools rq \<noteq> Inl AgentRecursionErr"
proof
  assume raised: "agent_run cfg envs started tools rq = Inl AgentRecursionErr"
  let ?run = "run_graph (node_step cfg) ne_cancelled AgentRecursionErr envs
    (recursion_limit (ac_limits cfg)) N_PREPARE (initial_state cfg rq started tools)"
  have timeout: "timeout_result cfg rq \<noteq> Inl AgentRecursionErr"
    by (auto simp: timeout_result_def bindE_eq_Inl not_exhausted split: if_splits)
  have "?run = Inl AgentRecursionErr"
    using raised timeout
    by (auto simp: agent_run_def state_to_result_def not_exhausted
        split: if_splits option.splits sum.splits)
  moreover have "graph_rank cfg N_PREPARE (initial_state cfg rq started tools)
      < recursion_limit (ac_limits cfg)"
    by (simp add: recursion_limit_def initial_state_def)
  ultimately show False
    using budget.run_not_exhausted node_step_not_exhausted by blast
qed

lemma run_done:
  assumes "valid_limits (ac_limits cfg)"
    and "run_graph (node_step cfg) ne_cancelled AgentRecursionErr envs n N_PREPARE
           (initial_state cfg rq started tools) = Inr (Some st)"
  shows "done_state cfg rq st"
  using review.run_final [OF assms(2), of rq] assms(1) by auto

text \<open>C30: no group is forgotten.  When the graph has come to its end, the draft holds an
  explanation, a document or a request for human review for every evidence group, except for
  at most as many groups as there are searches in the trace that found no document.\<close>

theorem groups_settled:
  assumes "valid_limits (ac_limits cfg)"
    and "run_graph (node_step cfg) ne_cancelled AgentRecursionErr envs n N_PREPARE
           (initial_state cfg rq started tools) = Inr (Some st)"
  shows "length (filter (\<lambda>g. \<not> covered (gs_draft st) g) (gs_groups st))
     \<le> length (filter (\<lambda>e. ae_tool e = SEARCH_OFFICIAL_DOCS \<and> ae_status e = TOOL_EMPTY)
         (ts_events (gs_tools st)))"
  using run_done [OF assms]
  by (simp add: done_state_def settled_upto_def empty_searches_def)

theorem groups_settled_witness:
  "\<exists>st. run_graph (node_step sample_config) ne_cancelled AgentRecursionErr prompt_answers 80
       N_PREPARE (initial_state sample_config sample_request 0 no_tool_calls) = Inr (Some st)
     \<and> length (gs_groups st) = 2
     \<and> filter (\<lambda>g. \<not> covered (gs_draft st) g) (gs_groups st) = []"
proof -
  obtain st where st: "run_graph (node_step sample_config) ne_cancelled AgentRecursionErr
      prompt_answers 80 N_PREPARE (initial_state sample_config sample_request 0 no_tool_calls)
      = Inr (Some st)" "length (gs_groups st) = 2" "ts_events (gs_tools st) = []"
    using sample_final by blast
  have "valid_limits (ac_limits sample_config)" using sample_values(18) by simp
  from groups_settled [OF this st(1)] st show ?thesis by simp
qed

lemma timeout_result_Inr:
  assumes "timeout_result cfg rq = Inr r"
  obtains p where "prepare_ambiguous_groups (ac_digest cfg) (rq_findings rq)
      (lm_max_ambiguous_groups (ac_limits cfg)) = Inr p"
    and "rr_findings r = rq_findings rq" and "rr_groups r = pp_groups p"
    and "rr_reviewed r = []" and "rr_steps r = []" and "rr_tool_calls r = 0"
    and "rr_llm_calls r = 0" and "rr_degraded r = Some AGENT_TIMEOUT"
    and "valid_run_result (ac_digest cfg) r"
proof -
  from assms obtain p d where "prepare_ambiguous_groups (ac_digest cfg) (rq_findings rq)
      (lm_max_ambiguous_groups (ac_limits cfg)) = Inr p"
    and r: "make_run_result (ac_digest cfg) d = Inr r"
    and d: "rr_findings d = rq_findings rq" "rr_groups d = pp_groups p" "rr_reviewed d = []"
      "rr_steps d = []" "rr_tool_calls d = 0" "rr_llm_calls d = 0"
      "rr_degraded d = Some AGENT_TIMEOUT"
    unfolding timeout_result_def bindE_eq_Inr by force
  with r show thesis
    by (intro that) (auto simp: make_run_result_def split: if_splits)
qed

text \<open>C31: what a returned result says is what happened.  The findings are those of the
  request; the groups are the deterministic ones; the reviewed identities are those of the
  first groups in order, each once; the steps are numbered from one and stay within the limit;
  the tool calls stay within their limit and below the number of groups, the calls of the
  model below the attempts each group has; and a run that is not degraded has reviewed every
  group with nothing left over.\<close>

theorem agent_run_sound:
  assumes "agent_run cfg envs started tools rq = Inr r" and "valid_limits (ac_limits cfg)"
  shows "rr_findings r = rq_findings rq
     \<and> rr_finding_ids r = map (finding_identity (ac_digest cfg)) (rq_findings rq)
     \<and> distinct (rr_reviewed r)
     \<and> (\<exists>p k. prepare_ambiguous_groups (ac_digest cfg) (rq_findings rq)
            (lm_max_ambiguous_groups (ac_limits cfg)) = Inr p
          \<and> rr_groups r = pp_groups p \<and> k \<le> length (rr_groups r)
          \<and> rr_reviewed r = concat (map ag_finding_ids (take k (rr_groups r)))
          \<and> rr_tool_calls r \<le> k
          \<and> rr_llm_calls r \<le> (lm_max_retries (ac_limits cfg) + 1) * k
          \<and> (rr_degraded r = None \<longrightarrow> k = length (rr_groups r) \<and> pp_overflow_ids p = []))
     \<and> rr_tool_calls r \<le> lm_max_tool_calls (ac_limits cfg)
     \<and> map st_sequence (rr_steps r) = [1 ..< length (rr_steps r) + 1]
     \<and> length (rr_steps r) \<le> lm_max_steps (ac_limits cfg)"
proof -
  from assms(1) consider (stopped) "timeout_result cfg rq = Inr r"
    | (final) st where "run_graph (node_step cfg) ne_cancelled AgentRecursionErr envs
        (recursion_limit (ac_limits cfg)) N_PREPARE (initial_state cfg rq started tools) = Inr (Some st)"
      "state_to_result cfg st (rq_findings rq) = Inr r"
    by (auto simp: agent_run_def split: if_splits sum.splits option.splits)
  then show ?thesis
  proof cases
    case stopped
    from timeout_result_Inr [OF this] obtain p where
      "prepare_ambiguous_groups (ac_digest cfg) (rq_findings rq)
         (lm_max_ambiguous_groups (ac_limits cfg)) = Inr p"
      "rr_findings r = rq_findings rq" "rr_groups r = pp_groups p"
      "rr_reviewed r = []" "rr_steps r = []" "rr_tool_calls r = 0" "rr_llm_calls r = 0"
      "rr_degraded r = Some AGENT_TIMEOUT" "valid_run_result (ac_digest cfg) r"
      by metis
    then show ?thesis
      by (auto simp: valid_run_result_def intro!: exI [of _ "0 :: nat"])
  next
    case (final st)
    then have "done_state cfg rq st"
      using run_done [OF assms(2)] by blast
    then obtain k where k: "reviewed_upto cfg st k"
      "gs_degraded st = None \<longrightarrow> k = length (gs_groups st)"
      and d: "gs_degraded st = None \<longrightarrow> gs_overflow_ids st = []"
      and c: "carried cfg rq st" "within_limits cfg st"
      by (auto simp: done_state_def common_def)
    from final(2) have r: "rr_findings r = rq_findings rq"
      "rr_finding_ids r = map (finding_identity (ac_digest cfg)) (rq_findings rq)"
      "rr_groups r = gs_groups st" "rr_reviewed r = gs_reviewed st" "rr_steps r = gs_steps st"
      "rr_tool_calls r = gs_tool_calls st" "rr_llm_calls r = gs_llm_calls st"
      "rr_degraded r = gs_degraded st" "distinct (rr_reviewed r)"
      by (auto simp: state_to_result_def make_run_result_def valid_run_result_def split: if_splits)
    show ?thesis
      using k d c unfolding r
      by (intro conjI exI [of _ "\<lparr>pp_groups = gs_groups st, pp_overflow_ids = gs_overflow_ids st\<rparr>"]
          exI [of _ k]) (use r(4,9) in \<open>simp_all add: carried_def within_limits_def reviewed_upto_def\<close>)
  qed
qed

theorem agent_run_sound_witness:
  "\<exists>r. agent_run sample_config prompt_answers 0 no_tool_calls sample_request = Inr r
     \<and> rr_findings r = [one_hit, other_hit] \<and> rr_llm_calls r = 2
     \<and> map st_sequence (rr_steps r) = [1 ..< 8]"
proof -
  obtain r where r: "agent_run sample_config prompt_answers 0 no_tool_calls sample_request = Inr r"
    "rr_llm_calls r = 2" "length (rr_steps r) = 7"
    using sample_reviewed by blast
  have "valid_limits (ac_limits sample_config)" using sample_values(18) by simp
  from agent_run_sound [OF r(1) this] have "rr_findings r = rq_findings sample_request"
    "map st_sequence (rr_steps r) = [1 ..< length (rr_steps r) + 1]" by blast+
  with r show ?thesis by simp
qed

section \<open>Runs that raise\<close>

lemma retries_raise:
  assumes "valid_limits (ac_limits cfg)" and "valid_run_request rq"
    and "run_graph (node_step cfg) ne_cancelled AgentRecursionErr envs
           (recursion_limit (ac_limits cfg)) N_PREPARE (initial_state cfg rq started tools)
         = Inr (Some st)"
    and "MAX_AGENT_RETRIES < gs_retry_count st"
  shows "agent_run cfg envs started tools rq = Inl AgentValidationErr"
proof -
  have "gs_findings st = rq_findings rq"
    using run_done [OF assms(1,3)] by (simp add: done_state_def common_def carried_def)
  with assms(2-4) show ?thesis
    by (simp add: agent_run_def state_to_result_def make_run_result_def valid_run_result_def)
qed

text \<open>C33: one retry too many.  Every group has its own retry, but the result counts the retries of
  the whole run and its model allows one.  So whenever the client was called at least twice
  more often than there are evidence groups, and even if each group was settled in the end,
  the count is over the limit and the run raises the \<open>ValidationError\<close> of its own result
  instead of returning it.\<close>

theorem late_answers_raise:
  assumes "valid_limits (ac_limits cfg)" and "valid_run_request rq"
    and "run_graph (node_step cfg) ne_cancelled AgentRecursionErr envs
           (recursion_limit (ac_limits cfg)) N_PREPARE (initial_state cfg rq started tools)
         = Inr (Some st)"
    and "length (gs_groups st) + MAX_AGENT_RETRIES < gs_llm_calls st"
  shows "MAX_AGENT_RETRIES < gs_retry_count st
     \<and> agent_run cfg envs started tools rq = Inl AgentValidationErr"
proof -
  obtain k where "reviewed_upto cfg st k"
    using run_done [OF assms(1,3)] by (auto simp: done_state_def)
  then have "MAX_AGENT_RETRIES < gs_retry_count st"
    using assms(4) by (simp add: reviewed_upto_def)
  with retries_raise [OF assms(1-3)] show ?thesis by blast
qed

text \<open>The client times out once for each of two groups and answers the second time: both groups
  are settled, each by the one retry it is given, and the run raises.\<close>

lemma late_final:
  "\<exists>st. run_graph (node_step sample_config) ne_cancelled AgentRecursionErr late_answers
       (recursion_limit (ac_limits sample_config)) N_PREPARE
       (initial_state sample_config sample_request 0 no_tool_calls) = Inr (Some st)
     \<and> length (gs_groups st) = 2 \<and> gs_llm_calls st = 4 \<and> gs_degraded st = None"
  using sample_facts sample_sorted
  by (simp add: sample_run_simps late_answers_def)

theorem late_answers_raise_witness:
  "agent_run sample_config late_answers 0 no_tool_calls sample_request = Inl AgentValidationErr"
proof -
  obtain st where st: "run_graph (node_step sample_config) ne_cancelled AgentRecursionErr
      late_answers (recursion_limit (ac_limits sample_config)) N_PREPARE
      (initial_state sample_config sample_request 0 no_tool_calls) = Inr (Some st)"
    "length (gs_groups st) = 2" "gs_llm_calls st = 4"
    using late_final by blast
  have "valid_limits (ac_limits sample_config)" using sample_values(18) by simp
  from late_answers_raise [OF this sample_valid st(1)] st(2,3) show ?thesis
    by (simp add: MAX_AGENT_RETRIES_def)
qed

text \<open>A model whose name is not stripped makes the run raise as soon as it finishes a group.\<close>

lemma blank_model_raises:
  "agent_run sample_config blank_answers 0 no_tool_calls sample_request = Inl AgentValidationErr"
  using sample_facts sample_sorted
  by (simp add: sample_run_simps blank_answers_def state_to_result_def make_run_result_def
      valid_run_result_def)

end
