(* ===== verification/AgentOffline.thy ===== *)
theory AgentOffline
  imports AgentSamples
begin

text \<open>
  A run without a review: when the request disables it or there is no model client, the run
  always returns, whatever the clock and the order of events, and hands every finding to a
  human reviewer.
\<close>

section \<open>Human review items\<close>

lemma is_reason_text_degraded: "is_reason_text (degraded_value r)"
  by (cases r) (simp_all add: is_reason_text_def is_rule_char_def)

text \<open>The identities a draft hands to a human.\<close>

definition handed :: "draft \<Rightarrow> string set" where
  "handed d = (\<Union>h \<in> set (df_human_items d). set (hi_finding_ids h))"

lemma handed_add_human_item: "handed (add_human_item d h) = handed d \<union> set (hi_finding_ids h)"
  by (auto simp: handed_def add_human_item_def human_key_def image_iff)

lemma add_human_groups_total:
  assumes "\<forall>g \<in> set gs. make_group g = Inr g" and "is_reason_text reason"
  shows "\<exists>d'. add_human_groups d gs reason = Inr d'
     \<and> handed d' = handed d \<union> set (concat (map ag_finding_ids gs))"
  using assms
proof (induction gs arbitrary: d)
  case (Cons g gs)
  let ?h = "\<lparr>hi_group_id = Some (ag_group_id g), hi_finding_ids = ag_finding_ids g,
    hi_reason = reason, hi_detail = None\<rparr>"
  have "make_human_item ?h = Inr ?h"
    using Cons.prems by (simp add: make_human_item_def make_group_def group_sized_def split: if_splits)
  moreover obtain d' where "add_human_groups (add_human_item d ?h) gs reason = Inr d'"
    "handed d' = handed (add_human_item d ?h) \<union> set (concat (map ag_finding_ids gs))"
    using Cons by fastforce
  ultimately show ?case by (auto simp: handed_add_human_item)
qed simp

lemma add_human_chunks_total:
  assumes "\<forall>c \<in> set cs. group_sized c" and "is_reason_text reason"
  shows "\<exists>d'. add_human_chunks d cs reason = Inr d' \<and> handed d' = handed d \<union> set (concat cs)"
  using assms
proof (induction cs arbitrary: d)
  case (Cons c cs)
  let ?h = "\<lparr>hi_group_id = None, hi_finding_ids = c, hi_reason = reason, hi_detail = None\<rparr>"
  have "make_human_item ?h = Inr ?h"
    using Cons.prems by (simp add: make_human_item_def)
  moreover obtain d' where "add_human_chunks (add_human_item d ?h) cs reason = Inr d'"
    "handed d' = handed (add_human_item d ?h) \<union> set (concat cs)"
    using Cons by fastforce
  ultimately show ?case by (auto simp: handed_add_human_item)
qed simp

lemma add_human_finding_ids_total:
  assumes "is_reason_text reason"
  shows "\<exists>d'. add_human_finding_ids d ids reason = Inr d' \<and> handed d' = handed d \<union> set ids"
proof -
  have "\<forall>c \<in> set (chunks_of MAX_FINDINGS_PER_GROUP ids). group_sized c"
    using chunks_size [of _ MAX_FINDINGS_PER_GROUP ids]
    by (auto simp: group_sized_def Suc_le_eq)
  from add_human_chunks_total [OF this assms, of d] show ?thesis
    by (simp add: add_human_finding_ids_def concat_chunks MAX_FINDINGS_PER_GROUP_def)
qed

text \<open>A draft to which only these operations have added.\<close>

definition offline_draft :: "draft \<Rightarrow> bool" where
  "offline_draft d \<longleftrightarrow>
     df_explanations d = [] \<and> df_doc_candidates d = []
     \<and> distinct (map human_key (df_human_items d))
     \<and> hi_reason ` set (df_human_items d) \<subseteq> range degraded_value"

lemma offline_draft_empty: "offline_draft empty_draft"
  by (simp add: offline_draft_def empty_draft_def)

lemma offline_draft_item:
  "offline_draft d \<Longrightarrow> hi_reason h = degraded_value x \<Longrightarrow> offline_draft (add_human_item d h)"
  by (simp add: offline_draft_def add_human_item_def)

lemma offline_draft_groups:
  "add_human_groups d gs (degraded_value x) = Inr d' \<Longrightarrow> offline_draft d \<Longrightarrow> offline_draft d'"
proof (induction gs arbitrary: d)
  case (Cons g gs)
  let ?h = "\<lparr>hi_group_id = Some (ag_group_id g), hi_finding_ids = ag_finding_ids g,
    hi_reason = degraded_value x, hi_detail = None\<rparr>"
  have "add_human_groups (add_human_item d ?h) gs (degraded_value x) = Inr d'"
    using Cons.prems(1) by (auto simp: bindE_eq_Inr dest!: make_human_item_Inr)
  moreover have "offline_draft (add_human_item d ?h)"
    by (rule offline_draft_item [OF Cons.prems(2)]) simp
  ultimately show ?case by (rule Cons.IH)
qed simp

lemma offline_draft_chunks:
  "add_human_chunks d cs (degraded_value x) = Inr d' \<Longrightarrow> offline_draft d \<Longrightarrow> offline_draft d'"
proof (induction cs arbitrary: d)
  case (Cons c cs)
  let ?h = "\<lparr>hi_group_id = None, hi_finding_ids = c, hi_reason = degraded_value x, hi_detail = None\<rparr>"
  have "add_human_chunks (add_human_item d ?h) cs (degraded_value x) = Inr d'"
    using Cons.prems(1) by (auto simp: bindE_eq_Inr dest!: make_human_item_Inr)
  moreover have "offline_draft (add_human_item d ?h)"
    by (rule offline_draft_item [OF Cons.prems(2)]) simp
  ultimately show ?case by (rule Cons.IH)
qed simp

lemma offline_draft_ids:
  "add_human_finding_ids d ids (degraded_value x) = Inr d' \<Longrightarrow> offline_draft d \<Longrightarrow> offline_draft d'"
  unfolding add_human_finding_ids_def by (rule offline_draft_chunks)

section \<open>The two ways a run without review ends\<close>

text \<open>What the findings of a request are grouped into.\<close>

lemma request_prepared:
  assumes "valid_run_request rq" "good_digest (ac_digest cfg) (rq_findings rq)"
    and "valid_limits (ac_limits cfg)"
  obtains p where "prepare_ambiguous_groups (ac_digest cfg) (rq_findings rq)
      (lm_max_ambiguous_groups (ac_limits cfg)) = Inr p"
    and "\<forall>g \<in> set (pp_groups p). make_group g = Inr g"
    and "length (pp_groups p) \<le> MAX_AMBIGUOUS_GROUPS"
    and "set (concat (map ag_finding_ids (pp_groups p))) \<union> set (pp_overflow_ids p)
           = finding_identity (ac_digest cfg) ` set (rq_findings rq)"
proof -
  let ?fs = "rq_findings rq" and ?digest = "ac_digest cfg"
    and ?max = "lm_max_ambiguous_groups (ac_limits cfg)"
  have fs: "sort_key finding_sort_key ?fs = ?fs" "distinct ?fs" "\<forall>f \<in> set ?fs. valid_finding f"
    using assms(1) by (auto simp: valid_run_request_def make_rule_scan_result_def split: if_splits)
  let ?gs = "all_groups ?digest ?fs"
  have max: "1 \<le> ?max" "?max \<le> MAX_AMBIGUOUS_GROUPS"
    using assms(3) by (simp_all add: valid_limits_def)
  show thesis
  proof (rule that)
    show "prepare_ambiguous_groups ?digest ?fs ?max = Inr \<lparr>pp_groups = take ?max ?gs,
        pp_overflow_ids = concat (map ag_finding_ids (drop ?max ?gs))\<rparr>"
      using prepare_eq [OF assms(2) fs(3,2) max] fs(1) by simp
    have "make_group g = Inr g" if "g \<in> set (take ?max ?gs)" for g
      using all_groups_origin(1) [OF assms(2) fs(3,2) in_set_takeD [OF that]] .
    then show "\<forall>g \<in> set (pp_groups \<lparr>pp_groups = take ?max ?gs,
        pp_overflow_ids = concat (map ag_finding_ids (drop ?max ?gs))\<rparr>). make_group g = Inr g"
      by simp
    show "length (pp_groups \<lparr>pp_groups = take ?max ?gs,
        pp_overflow_ids = concat (map ag_finding_ids (drop ?max ?gs))\<rparr>) \<le> MAX_AMBIGUOUS_GROUPS"
      using max by simp
    have "set (concat (map ag_finding_ids (take ?max ?gs)))
        \<union> set (concat (map ag_finding_ids (drop ?max ?gs))) = set (concat (map ag_finding_ids ?gs))"
      by (metis append_take_drop_id concat_append map_append set_append)
    also have "\<dots> = finding_identity ?digest ` set ?fs"
      using arg_cong [OF all_groups_ids [of ?digest ?fs], of set_mset] by simp
    finally show "set (concat (map ag_finding_ids (pp_groups \<lparr>pp_groups = take ?max ?gs,
        pp_overflow_ids = concat (map ag_finding_ids (drop ?max ?gs))\<rparr>)))
        \<union> set (pp_overflow_ids \<lparr>pp_groups = take ?max ?gs,
        pp_overflow_ids = concat (map ag_finding_ids (drop ?max ?gs))\<rparr>)
        = finding_identity ?digest ` set ?fs" by simp
  qed
qed


definition handed_over :: "agent_config \<Rightarrow> run_request \<Rightarrow> run_result \<Rightarrow> bool" where
  "handed_over cfg rq r \<longleftrightarrow>
     rr_findings r = rq_findings rq \<and> rr_llm_calls r = 0 \<and> rr_tool_calls r = 0
     \<and> handed (rr_draft r) = finding_identity (ac_digest cfg) ` set (rq_findings rq)
     \<and> offline_draft (rr_draft r) \<and> rr_chunks r = [] \<and> valid_run_result (ac_digest cfg) r
     \<and> (\<forall>g \<in> set (rr_groups r). make_group g = Inr g)
     \<and> rr_analysis_id r = rq_analysis_id rq \<and> rr_summary r = rq_summary rq
     \<and> rr_importers r = rq_importers rq"

lemma request_findings:
  assumes "valid_run_request rq"
  shows "sort_key finding_sort_key (rq_findings rq) = rq_findings rq" "distinct (rq_findings rq)"
    "1 \<le> length (rq_analysis_id rq)" "length (rq_analysis_id rq) \<le> 128"
  using assms
  by (auto simp: valid_run_request_def make_rule_scan_result_def is_analysis_id_def Let_def
      split: if_splits list.splits)

lemma timeout_result_returns:
  assumes "valid_run_request rq" "good_digest (ac_digest cfg) (rq_findings rq)"
    and "valid_limits (ac_limits cfg)"
  shows "\<exists>r. timeout_result cfg rq = Inr r \<and> handed_over cfg rq r"
proof -
  obtain p where p: "prepare_ambiguous_groups (ac_digest cfg) (rq_findings rq)
      (lm_max_ambiguous_groups (ac_limits cfg)) = Inr p"
    "\<forall>g \<in> set (pp_groups p). make_group g = Inr g"
    "length (pp_groups p) \<le> MAX_AMBIGUOUS_GROUPS"
    "set (concat (map ag_finding_ids (pp_groups p))) \<union> set (pp_overflow_ids p)
       = finding_identity (ac_digest cfg) ` set (rq_findings rq)"
    using request_prepared [OF assms] .
  obtain d where d: "add_human_groups empty_draft (pp_groups p) (degraded_value AGENT_TIMEOUT) = Inr d"
    "handed d = handed empty_draft \<union> set (concat (map ag_finding_ids (pp_groups p)))"
    using add_human_groups_total [OF p(2) is_reason_text_degraded] by blast
  obtain d' where d': "(if pp_overflow_ids p = [] then Inr d
      else add_human_finding_ids d (pp_overflow_ids p) (degraded_value AMBIGUOUS_GROUP_LIMIT)) = Inr d'"
    "handed d' = handed d \<union> set (pp_overflow_ids p)"
    using add_human_finding_ids_total [OF is_reason_text_degraded
      [of AMBIGUOUS_GROUP_LIMIT], of d "pp_overflow_ids p"]
    by (cases "pp_overflow_ids p = []") auto
  have draft: "offline_draft d'"
  proof (cases "pp_overflow_ids p = []")
    case True
    with d'(1) offline_draft_groups [OF d(1) offline_draft_empty] show ?thesis by simp
  next
    case False
    then have "add_human_finding_ids d (pp_overflow_ids p) (degraded_value AMBIGUOUS_GROUP_LIMIT) = Inr d'"
      using d'(1) by (simp only: if_False)
    then show ?thesis by (rule offline_draft_ids [OF _ offline_draft_groups [OF d(1) offline_draft_empty]])
  qed
  have "handed empty_draft = {}" by (simp add: handed_def empty_draft_def)
  then have handed: "handed d' = finding_identity (ac_digest cfg) ` set (rq_findings rq)"
    using p(4) d(2) d'(2) by simp
  note reason = is_reason_text_degraded [of AGENT_TIMEOUT]
  show ?thesis
    unfolding timeout_result_def p(1) bindE.simps d(1) d'(1)
    using p(2,3) draft handed reason request_findings [OF assms(1)]
    by (auto simp: make_validation_error_def make_run_result_def valid_run_result_def
        handed_over_def MAX_AGENT_VALIDATION_ERRORS_def)
qed

lemma prepare_node_offline:
  assumes "valid_run_request rq" "good_digest (ac_digest cfg) (rq_findings rq)"
    and "valid_limits (ac_limits cfg)" and "\<not> rq_llm_review rq \<or> \<not> ac_has_model cfg"
  shows "\<exists>st. prepare_node cfg (initial_state cfg rq started tools) = Inr st
     \<and> (gs_finished st \<or> gs_groups st = []) \<and> gs_index st = 0
     \<and> gs_analysis_id st = rq_analysis_id rq \<and> gs_findings st = rq_findings rq
     \<and> gs_chunks st = [] \<and> gs_bindings st = [] \<and> length (gs_steps st) = 1
     \<and> length (gs_groups st) \<le> MAX_AMBIGUOUS_GROUPS
     \<and> gs_errors st = [] \<and> gs_tool_calls st = 0 \<and> gs_llm_calls st = 0 \<and> gs_reviewed st = []
     \<and> gs_retry_count st = 0
     \<and> handed (gs_draft st) = finding_identity (ac_digest cfg) ` set (rq_findings rq)
     \<and> offline_draft (gs_draft st) \<and> (\<forall>g \<in> set (gs_groups st). make_group g = Inr g)
     \<and> gs_summary st = rq_summary rq \<and> gs_importers st = rq_importers rq"
proof -
  let ?st = "initial_state cfg rq started tools"
  obtain p where p: "prepare_ambiguous_groups (ac_digest cfg) (rq_findings rq)
      (lm_max_ambiguous_groups (ac_limits cfg)) = Inr p"
    "\<forall>g \<in> set (pp_groups p). make_group g = Inr g"
    "length (pp_groups p) \<le> MAX_AMBIGUOUS_GROUPS"
    "set (concat (map ag_finding_ids (pp_groups p))) \<union> set (pp_overflow_ids p)
       = finding_identity (ac_digest cfg) ` set (rq_findings rq)"
    using request_prepared [OF assms(1-3)] .
  obtain s where s: "begin_step (ac_limits cfg) ?st PREPARE None = Inr (Some [s])"
    using assms(3)
    by (simp add: begin_step_def make_step_def initial_state_def current_group_id_def
        valid_limits_def MAX_AGENT_STEPS_def)
  have start: "gs_draft ?st = empty_draft" by (simp add: initial_state_def)
  obtain d reason where d: "(if pp_overflow_ids p = [] then Inr (gs_draft ?st, gs_degraded ?st)
      else bindE (add_human_finding_ids (gs_draft ?st) (pp_overflow_ids p)
             (degraded_value AMBIGUOUS_GROUP_LIMIT)) (\<lambda>d. Inr (d, Some AMBIGUOUS_GROUP_LIMIT)))
      = Inr (d, reason)"
    "handed d = set (pp_overflow_ids p)" "offline_draft d"
  proof (cases "pp_overflow_ids p = []")
    case True
    show thesis
      by (rule that [of empty_draft "gs_degraded ?st"])
        (use True offline_draft_empty in \<open>simp_all add: start handed_def\<close>, simp add: empty_draft_def)
  next
    case False
    obtain d where "add_human_finding_ids empty_draft (pp_overflow_ids p)
        (degraded_value AMBIGUOUS_GROUP_LIMIT) = Inr d" "handed d = handed empty_draft \<union> set (pp_overflow_ids p)"
      using add_human_finding_ids_total [OF is_reason_text_degraded
        [of AMBIGUOUS_GROUP_LIMIT], of empty_draft "pp_overflow_ids p"] by blast
    note d = this
    have "handed empty_draft = {}" by (simp add: handed_def empty_draft_def)
    with d(2) False show thesis
      using offline_draft_ids [OF d(1) offline_draft_empty]
      by (intro that [of d "Some AMBIGUOUS_GROUP_LIMIT"])
        (simp_all only: start d(1) bindE.simps if_False Un_empty_left)
  qed
  let ?blocked = "if pp_groups p \<noteq> [] \<and> \<not> gs_llm_review ?st then Some LLM_REVIEW_DISABLED
    else if pp_groups p \<noteq> [] \<and> \<not> ac_has_model cfg then Some NO_MODEL else None"
  have blocked: "?blocked = None \<longleftrightarrow> pp_groups p = []"
    using assms(4) by (auto simp: initial_state_def)
  obtain d' reason' finished where d': "(case ?blocked of None \<Rightarrow> Inr (d, reason, pp_groups p = [])
      | Some r \<Rightarrow> bindE (add_human_groups d (pp_groups p) (degraded_value r)) (\<lambda>d'. Inr (d', Some r, True)))
      = Inr (d', reason', finished)"
    and finished and handed: "handed d' = handed d \<union> set (concat (map ag_finding_ids (pp_groups p)))"
    and draft: "offline_draft d'"
  proof (cases ?blocked)
    case None
    with blocked d(3) show thesis by (intro that) auto
  next
    case (Some r)
    obtain d' where "add_human_groups d (pp_groups p) (degraded_value r) = Inr d'"
      "handed d' = handed d \<union> set (concat (map ag_finding_ids (pp_groups p)))"
      using add_human_groups_total [OF p(2) is_reason_text_degraded] by blast
    with Some show thesis using offline_draft_groups [OF _ d(3)] by (intro that) auto
  qed
  have gs: "gs_findings ?st = rq_findings rq" by (simp add: initial_state_def)
  have "prepare_node cfg ?st = Inr (?st\<lparr>gs_groups := pp_groups p,
      gs_overflow_ids := pp_overflow_ids p, gs_steps := [s], gs_draft := d',
      gs_degraded := reason', gs_finished := finished\<rparr>)"
    unfolding prepare_node_def s bindE.simps option.case gs p(1) d(1) Let_def prod.case d'(1) ..
  moreover have "handed d' = finding_identity (ac_digest cfg) ` set (rq_findings rq)"
    using p(4) d(2) handed by blast
  ultimately show ?thesis
    using p(2,3) \<open>finished\<close> draft by (simp add: initial_state_def)
qed


lemma graph_offline:
  assumes "valid_run_request rq" "good_digest (ac_digest cfg) (rq_findings rq)"
    and "valid_limits (ac_limits cfg)" and "\<not> rq_llm_review rq \<or> \<not> ac_has_model cfg"
  shows "run_graph (node_step cfg) ne_cancelled AgentRecursionErr envs
        (recursion_limit (ac_limits cfg)) N_PREPARE (initial_state cfg rq started tools) = Inr None
     \<or> (\<exists>st r. run_graph (node_step cfg) ne_cancelled AgentRecursionErr envs
        (recursion_limit (ac_limits cfg)) N_PREPARE (initial_state cfg rq started tools)
          = Inr (Some st) \<and> gs_findings st = rq_findings rq
        \<and> state_to_result cfg st (rq_findings rq) = Inr r \<and> handed_over cfg rq r)"
proof -
  obtain n where n: "recursion_limit (ac_limits cfg) = Suc (Suc n)"
    by (rule that [of "lm_max_steps (ac_limits cfg) * 2 + 14"]) (simp add: recursion_limit_def)
  obtain st where st: "prepare_node cfg (initial_state cfg rq started tools) = Inr st"
    "gs_finished st \<or> gs_groups st = []" "gs_index st = 0"
    "gs_analysis_id st = rq_analysis_id rq" "gs_findings st = rq_findings rq"
    "gs_chunks st = []" "gs_bindings st = []" "length (gs_steps st) = 1"
    "length (gs_groups st) \<le> MAX_AMBIGUOUS_GROUPS"
    "gs_errors st = []" "gs_tool_calls st = 0" "gs_llm_calls st = 0" "gs_reviewed st = []"
    "gs_retry_count st = 0"
    "handed (gs_draft st) = finding_identity (ac_digest cfg) ` set (rq_findings rq)"
    "offline_draft (gs_draft st)" "\<forall>g \<in> set (gs_groups st). make_group g = Inr g"
    "gs_summary st = rq_summary rq" "gs_importers st = rq_importers rq"
    using prepare_node_offline [OF assms, of started tools] by blast
  have route: "route_after_group st = N_FINALIZE"
    using st(2,3) by (auto simp: route_after_group_def)
  have "\<exists>r. state_to_result cfg (finalize_node st) (rq_findings rq) = Inr r \<and> handed_over cfg rq r"
    using st request_findings [OF assms(1)]
    by (simp add: state_to_result_def make_run_result_def valid_run_result_def handed_over_def
        finalize_node_def MAX_AGENT_STEPS_def)
  then show ?thesis
    using st(1,5) route unfolding n by (auto simp: finalize_node_def)
qed

lemma offline_run_handed:
  assumes "valid_run_request rq" "good_digest (ac_digest cfg) (rq_findings rq)"
    and "valid_limits (ac_limits cfg)" and "\<not> rq_llm_review rq \<or> \<not> ac_has_model cfg"
  shows "\<exists>r. agent_run cfg envs started tools rq = Inr r \<and> handed_over cfg rq r"
  using graph_offline [OF assms, of envs started tools] timeout_result_returns [OF assms(1-3)]
    assms(1) by (auto simp: agent_run_def)

text \<open>C32: without a model, or with the review disabled by the request, a run always returns.
  Whenever the graph is cancelled and whatever the clock says, \<open>run\<close> returns a result (it does
  not raise), no model and no tool is called, the findings are those of the request, and every
  one of them is in some request for human review.\<close>

theorem offline_run_returns:
  assumes "valid_run_request rq" "good_digest (ac_digest cfg) (rq_findings rq)"
    and "valid_limits (ac_limits cfg)" and "\<not> rq_llm_review rq \<or> \<not> ac_has_model cfg"
  shows "\<exists>r. agent_run cfg envs started tools rq = Inr r
     \<and> rr_findings r = rq_findings rq \<and> rr_llm_calls r = 0 \<and> rr_tool_calls r = 0
     \<and> (\<forall>f \<in> set (rq_findings rq). \<exists>h \<in> set (df_human_items (rr_draft r)).
          finding_identity (ac_digest cfg) f \<in> set (hi_finding_ids h))"
proof -
  obtain r where "agent_run cfg envs started tools rq = Inr r" "handed_over cfg rq r"
    using offline_run_handed [OF assms] by blast
  moreover have "\<exists>h \<in> set (df_human_items (rr_draft r)).
      finding_identity (ac_digest cfg) f \<in> set (hi_finding_ids h)" if "f \<in> set (rq_findings rq)" for f
  proof -
    have "finding_identity (ac_digest cfg) f \<in> handed (rr_draft r)"
      using \<open>handed_over cfg rq r\<close> that by (simp add: handed_over_def)
    then show ?thesis by (auto simp: handed_def)
  qed
  ultimately show ?thesis by (simp add: handed_over_def)
qed

theorem offline_run_returns_witness:
  "\<exists>r. agent_run (sample_config\<lparr>ac_has_model := False\<rparr>) prompt_answers 0 no_tool_calls sample_request
       = Inr r \<and> rr_findings r = [one_hit, other_hit]"
proof -
  let ?cfg = "sample_config\<lparr>ac_has_model := False\<rparr>"
  have "valid_limits (ac_limits ?cfg)" using sample_values(18) by simp
  moreover have "good_digest (ac_digest ?cfg) (rq_findings sample_request)"
    using sample_digest by simp
  ultimately show ?thesis
    using offline_run_returns [OF sample_valid, of ?cfg prompt_answers 0 no_tool_calls] by auto
qed

end
