(* ===== verification/MarkdownText.thy ===== *)
theory MarkdownText
  imports PyText Json
begin

text \<open>
  \<open>app/ingestion/markdown_chunker.py\<close>, the text level: lines, fences, headings, the four
  boundary patterns and \<open>_parse_semantic_sections\<close>.

  The Markdown source is a list of Unicode code points.  A regular expression is the function
  that computes its match at the beginning of a text; each of the patterns of the code has at
  most one way to match there, so no search over alternatives is needed.
\<close>

definition cp :: "char \<Rightarrow> nat" where
  "cp c = of_char c"

abbreviation LF :: nat where "LF \<equiv> 0x0A"
abbreviation CR :: nat where "CR \<equiv> 0x0D"

definition is_blank :: "nat \<Rightarrow> bool" where
  "is_blank c \<longleftrightarrow> c = 0x20 \<or> c = 0x09"

text \<open>\<open>str.isspace\<close>, which is also what \<open>\s\<close> matches.\<close>

definition is_uspace :: "nat \<Rightarrow> bool" where
  "is_uspace c \<longleftrightarrow>
     (0x09 \<le> c \<and> c \<le> 0x0D) \<or> (0x1C \<le> c \<and> c \<le> 0x20) \<or> c = 0x85 \<or> c = 0xA0 \<or> c = 0x1680
     \<or> (0x2000 \<le> c \<and> c \<le> 0x200A) \<or> c = 0x2028 \<or> c = 0x2029 \<or> c = 0x202F \<or> c = 0x205F
     \<or> c = 0x3000"

definition rstrip_of :: "('a \<Rightarrow> bool) \<Rightarrow> 'a list \<Rightarrow> 'a list" where
  "rstrip_of P s = rev (dropWhile P (rev s))"

definition ustrip :: "source_text \<Rightarrow> source_text" where
  "ustrip s = rstrip_of is_uspace (dropWhile is_uspace s)"

text \<open>\<open>source.splitlines(keepends=True)\<close>.\<close>

fun keep_lines_from :: "source_text \<Rightarrow> source_text \<Rightarrow> source_text list" where
  "keep_lines_from cur [] = (if cur = [] then [] else [cur])"
| "keep_lines_from cur (c # cs) =
     (if c = CR then
        (case cs of
           d # ds \<Rightarrow> if d = LF then (cur @ [c, d]) # keep_lines_from [] ds
                     else (cur @ [c]) # keep_lines_from [] cs
         | [] \<Rightarrow> [cur @ [c]])
      else if is_line_end c then (cur @ [c]) # keep_lines_from [] cs
      else keep_lines_from (cur @ [c]) cs)"

definition keep_lines :: "source_text \<Rightarrow> source_text list" where
  "keep_lines s = keep_lines_from [] s"

definition logical_line :: "source_text \<Rightarrow> source_text" where
  "logical_line line = rstrip_of (\<lambda>c. c = CR \<or> c = LF) line"

section \<open>Fences and headings\<close>

text \<open>\<open>_FENCE_OPEN_PATTERN\<close>: the fence character and the length of the fence.\<close>

definition fence_open :: "source_text \<Rightarrow> (nat \<times> nat) option" where
  "fence_open line =
     (let s = dropWhile is_blank line
      in case s of
           [] \<Rightarrow> None
         | c # _ \<Rightarrow>
             (let n = length (takeWhile (\<lambda>d. d = c) s)
              in if (c = cp CHR 0x60 \<or> c = cp CHR ''~'') \<and> 3 \<le> n \<and> CR \<notin> set s \<and> LF \<notin> set s
                 then Some (c, n) else None))"

definition is_closing_fence :: "source_text \<Rightarrow> nat \<Rightarrow> nat \<Rightarrow> bool" where
  "is_closing_fence line c n \<longleftrightarrow>
     (let s = dropWhile is_blank line; run = takeWhile (\<lambda>d. d = c) s
      in n \<le> length run \<and> list_all is_blank (drop (length run) s))"

text \<open>\<open>_HEADING_PATTERN\<close>: the number of marks and the title.\<close>

definition heading_match :: "source_text \<Rightarrow> (nat \<times> source_text) option" where
  "heading_match line =
     (let indent = length (takeWhile (\<lambda>c. c = 0x20) line);
          s = drop indent line;
          marks = length (takeWhile (\<lambda>c. c = cp CHR ''#'') s);
          rest = drop marks s
      in if indent \<le> 3 \<and> (marks = 2 \<or> marks = 3) \<and> rest \<noteq> [] \<and> is_blank (hd rest)
            \<and> LF \<notin> set (rstrip_of is_blank (dropWhile is_blank rest))
         then Some (marks, rstrip_of is_blank (dropWhile is_blank rest)) else None)"

text \<open>The substitution removes a closing run of marks with the blanks around it.\<close>

definition normalize_heading_title :: "nat \<Rightarrow> source_text \<Rightarrow> source_text" where
  "normalize_heading_title marks title =
     (let t = rev (rstrip_of is_blank title);
          hashes = takeWhile (\<lambda>c. c = cp CHR ''#'') t;
          rest = drop (length hashes) t;
          normalized = ustrip (if hashes \<noteq> [] \<and> rest \<noteq> [] \<and> is_blank (hd rest)
                               then rev (dropWhile is_blank rest) else title)
      in if normalized = [] then replicate marks (cp CHR ''#'') else normalized)"

section \<open>Boundary patterns\<close>

type_synonym matcher = "source_text \<Rightarrow> nat option"

definition match_newline :: matcher where
  "match_newline s =
     (case s of
        c # cs \<Rightarrow> if c = LF then Some 1
                  else if c = CR \<and> cs \<noteq> [] \<and> hd cs = LF then Some 2 else None
      | [] \<Rightarrow> None)"

definition match_paragraph :: matcher where
  "match_paragraph s =
     (case match_newline s of
        None \<Rightarrow> None
      | Some n \<Rightarrow>
          (let blanks = length (takeWhile is_blank (drop n s))
           in case match_newline (drop (n + blanks) s) of
                None \<Rightarrow> None | Some k \<Rightarrow> Some (n + blanks + k)))"

definition SENTENCE_ENDS :: "nat list" where
  "SENTENCE_ENDS = [cp CHR ''.'', cp CHR ''!'', cp CHR ''?'', 0x3002, 0xFF01, 0xFF1F]"

definition SENTENCE_CLOSERS :: "nat list" where
  "SENTENCE_CLOSERS = [cp CHR 0x22, cp CHR 0x27, cp CHR '')'', cp CHR '']'']"

definition match_sentence :: matcher where
  "match_sentence s =
     (case s of
        [] \<Rightarrow> None
      | c # cs \<Rightarrow>
          (let closers = length (takeWhile (\<lambda>d. d \<in> set SENTENCE_CLOSERS) cs);
               blanks = length (takeWhile is_blank (drop closers cs))
           in if c \<in> set SENTENCE_ENDS \<and> 0 < blanks then Some (1 + closers + blanks) else None))"

definition match_spaces :: matcher where
  "match_spaces s =
     (let n = length (takeWhile is_uspace s) in if n = 0 then None else Some n)"

text \<open>\<open>_PARAGRAPH_BOUNDARY_PATTERN\<close>, \<open>_LINE_BOUNDARY_PATTERN\<close>, \<open>_SENTENCE_BOUNDARY_PATTERN\<close>,
  \<open>_WHITESPACE_BOUNDARY_PATTERN\<close>, in the order in which they are tried.\<close>

definition BOUNDARY_PATTERNS :: "matcher list" where
  "BOUNDARY_PATTERNS = [match_paragraph, match_newline, match_sentence, match_spaces]"

text \<open>The ends of the matches that \<open>pattern.finditer\<close> finds, from left to right.\<close>

function find_ends :: "matcher \<Rightarrow> nat \<Rightarrow> source_text \<Rightarrow> nat list" where
  "find_ends m pos s =
     (if s = [] then []
      else case m s of
          Some n \<Rightarrow> if n = 0 then find_ends m (pos + 1) (tl s)
                    else (pos + n) # find_ends m (pos + n) (drop n s)
        | None \<Rightarrow> find_ends m (pos + 1) (tl s))"
  by pat_completeness auto

termination
  by (relation "measure (\<lambda>(m, pos, s). length s)") auto

declare find_ends.simps [simp del]

section \<open>Sections and fences\<close>

record fence_span =
  fs_start :: nat
  fs_end :: nat

record semantic_section =
  ss_start :: nat
  ss_end :: nat
  ss_path :: "source_text list"

text \<open>The local variables of \<open>_parse_semantic_sections\<close>; an open fence is its character, its
  length and its start.\<close>

record parse_state =
  ps_sections :: "semantic_section list"
  ps_fences :: "fence_span list"
  ps_section_start :: nat
  ps_path :: "source_text list"
  ps_h2 :: "source_text option"
  ps_open :: "(nat \<times> nat \<times> nat) option"
  ps_offset :: nat

definition parse_start :: parse_state where
  "parse_start =
     \<lparr>ps_sections = [], ps_fences = [], ps_section_start = 0, ps_path = [], ps_h2 = None,
      ps_open = None, ps_offset = 0\<rparr>"

definition enter_section :: "nat \<Rightarrow> nat \<Rightarrow> source_text \<Rightarrow> parse_state \<Rightarrow> parse_state" where
  "enter_section line_start marks raw st =
     (let title = normalize_heading_title marks raw;
          sections = (if line_start > ps_section_start st
                      then ps_sections st @ [\<lparr>ss_start = ps_section_start st,
                             ss_end = line_start, ss_path = ps_path st\<rparr>]
                      else ps_sections st)
      in if marks = 2
         then st\<lparr>ps_sections := sections, ps_h2 := Some title, ps_path := [title],
                 ps_section_start := line_start\<rparr>
         else st\<lparr>ps_sections := sections,
                 ps_path := (case ps_h2 st of Some h \<Rightarrow> [h, title] | None \<Rightarrow> [title]),
                 ps_section_start := line_start\<rparr>)"

definition parse_line :: "source_text \<Rightarrow> parse_state \<Rightarrow> parse_state" where
  "parse_line line st0 =
     (let line_start = ps_offset st0;
          st = st0\<lparr>ps_offset := line_start + length line\<rparr>;
          text_line = logical_line line
      in case ps_open st of
           Some (c, n, start) \<Rightarrow>
             if is_closing_fence text_line c n
             then st\<lparr>ps_fences := ps_fences st @ [\<lparr>fs_start = start, fs_end = ps_offset st\<rparr>],
                     ps_open := None\<rparr>
             else st
         | None \<Rightarrow>
             (case fence_open text_line of
                Some (c, n) \<Rightarrow> st\<lparr>ps_open := Some (c, n, line_start)\<rparr>
              | None \<Rightarrow>
                  (case heading_match text_line of
                     None \<Rightarrow> st
                   | Some (marks, raw) \<Rightarrow> enter_section line_start marks raw st)))"

datatype chunk_exn = MarkdownChunkingErr | ChunkSourceErr | ChunkModelErr

definition parse_semantic_sections ::
  "source_text \<Rightarrow> chunk_exn + semantic_section list \<times> fence_span list" where
  "parse_semantic_sections source =
     (if source = [] then Inl MarkdownChunkingErr
      else
        (let st = fold parse_line (keep_lines source) parse_start
         in if ps_open st \<noteq> None then Inl MarkdownChunkingErr
            else Inr (if ps_section_start st < length source
                      then ps_sections st @ [\<lparr>ss_start = ps_section_start st,
                             ss_end = length source, ss_path = ps_path st\<rparr>]
                      else ps_sections st, ps_fences st)))"

end
