(* ===== verification/MarkdownChunks.thy ===== *)
theory MarkdownChunks
  imports MarkdownText
begin

text \<open>
  \<open>app/ingestion/markdown_chunker.py\<close>, the builder: the choice of a boundary, the cursor loop
  over a section, the identities of the chunks, the checks of \<open>MarkdownChunk\<close> and
  \<open>ChunkArtifact\<close>, and the audit that recomputes everything from the source.

  \<open>digest\<close> is the hexadecimal SHA-256 of a byte string (a \<^typ>\<open>string\<close>, one character per
  byte).  Writing and rereading the artifact file is left out.
\<close>

section \<open>Spans\<close>

record length_contract =
  lc_min :: nat
  lc_max :: nat
  lc_overlap :: nat

definition DEFAULT_CONTRACT :: length_contract where
  "DEFAULT_CONTRACT = \<lparr>lc_min = 500, lc_max = 1200, lc_overlap = 120\<rparr>"

definition valid_contract :: "length_contract \<Rightarrow> bool" where
  "valid_contract k \<longleftrightarrow>
     0 < lc_min k \<and> lc_min k \<le> lc_max k
     \<and> 100 \<le> lc_overlap k \<and> lc_overlap k \<le> 150 \<and> lc_overlap k < lc_max k"

record chunk_span =
  cs_start :: nat
  cs_end :: nat
  cs_path :: "source_text list"
  cs_continuation :: nat
  cs_overlap :: nat

definition position_inside_fence :: "nat \<Rightarrow> fence_span list \<Rightarrow> bool" where
  "position_inside_fence p fences \<longleftrightarrow> (\<exists>f \<in> set fences. fs_start f < p \<and> p < fs_end f)"

text \<open>The code compares \<open>span.end - (end - overlap) > max\<close> in unbounded integers.\<close>

definition next_oversized_code :: "nat \<Rightarrow> length_contract \<Rightarrow> fence_span list \<Rightarrow> bool" where
  "next_oversized_code e k fences \<longleftrightarrow>
     (\<exists>f \<in> set fences. fs_start f = e \<and> lc_max k + e < fs_end f + lc_overlap k)"

definition segment :: "nat \<Rightarrow> nat \<Rightarrow> 'a list \<Rightarrow> 'a list" where
  "segment a b xs = take (b - a) (drop a xs)"

definition boundary_candidates ::
  "source_text \<Rightarrow> nat \<Rightarrow> nat \<Rightarrow> nat \<Rightarrow> fence_span list \<Rightarrow> matcher \<Rightarrow> nat list" where
  "boundary_candidates source cursor lower limit fences m =
     filter (\<lambda>p. lower \<le> p \<and> p \<le> limit \<and> \<not> position_inside_fence p fences)
       (map (\<lambda>e. cursor + e) (find_ends m 0 (segment cursor limit source)))"

fun first_boundary ::
  "source_text \<Rightarrow> nat \<Rightarrow> nat \<Rightarrow> nat \<Rightarrow> fence_span list \<Rightarrow> matcher list \<Rightarrow> nat option" where
  "first_boundary source cursor lower limit fences [] = None"
| "first_boundary source cursor lower limit fences (m # ms) =
     (let candidates = boundary_candidates source cursor lower limit fences m
      in if candidates \<noteq> [] then Some (Max (set candidates))
         else first_boundary source cursor lower limit fences ms)"

definition choose_end ::
  "length_contract \<Rightarrow> source_text \<Rightarrow> nat \<Rightarrow> nat \<Rightarrow> fence_span list \<Rightarrow> chunk_exn + nat \<times> bool"
where
  "choose_end k source cursor section_end fences =
     (let limit = min (cursor + lc_max k) section_end
      in case find (\<lambda>f. fs_start f < limit \<and> limit < fs_end f \<and> cursor < fs_end f
                       \<and> fs_start f < section_end) fences of
           Some f \<Rightarrow>
             if cursor < fs_start f then Inr (fs_start f, True)
             else Inr (min (fs_end f) section_end, True)
         | None \<Rightarrow>
             (case first_boundary source cursor (min (cursor + lc_min k) limit) limit fences
                     BOUNDARY_PATTERNS of
                Some e \<Rightarrow> Inr (e, next_oversized_code e k fences)
              | None \<Rightarrow> if position_inside_fence limit fences then Inl MarkdownChunkingErr
                         else Inr (limit, False)))"

text \<open>Where the chunk after one that ends at \<open>e\<close> begins.\<close>

definition next_cursor_of ::
  "length_contract \<Rightarrow> fence_span list \<Rightarrow> nat \<Rightarrow> nat \<Rightarrow> bool \<Rightarrow> nat" where
  "next_cursor_of k fences cursor e suppress =
     (if \<not> suppress \<and> cursor < e - lc_overlap k
         \<and> \<not> position_inside_fence (e - lc_overlap k) fences
      then e - lc_overlap k else e)"

function chunk_loop ::
  "length_contract \<Rightarrow> source_text \<Rightarrow> semantic_section \<Rightarrow> fence_span list \<Rightarrow> nat \<Rightarrow> nat \<Rightarrow> nat
     \<Rightarrow> chunk_exn + chunk_span list" where
  "chunk_loop k source sec fences cursor index incoming =
     (if ss_end sec \<le> cursor then Inr []
      else
        (case (if ss_end sec - cursor \<le> lc_max k then Inr (ss_end sec, False)
               else choose_end k source cursor (ss_end sec) fences) of
           Inl err \<Rightarrow> Inl err
         | Inr (e, suppress) \<Rightarrow>
             if e \<le> cursor then Inl MarkdownChunkingErr
             else
               (let span = \<lparr>cs_start = cursor, cs_end = e, cs_path = ss_path sec,
                            cs_continuation = index, cs_overlap = incoming\<rparr>;
                    next_cursor = next_cursor_of k fences cursor e suppress
                in if e = ss_end sec then Inr [span]
                   else bindE (chunk_loop k source sec fences next_cursor (index + 1)
                                 (e - next_cursor)) (\<lambda>spans. Inr (span # spans)))))"
  by pat_completeness auto

termination
  by (relation "measure (\<lambda>(k, source, sec, fences, cursor, index, incoming). ss_end sec - cursor)")
    (auto simp: next_cursor_of_def)

declare chunk_loop.simps [simp del]

definition chunk_section ::
  "length_contract \<Rightarrow> source_text \<Rightarrow> fence_span list \<Rightarrow> semantic_section
     \<Rightarrow> chunk_exn + chunk_span list" where
  "chunk_section k source fences sec = chunk_loop k source sec fences (ss_start sec) 0 0"

section \<open>Identities\<close>

text \<open>\<open>str.encode("utf-8")\<close>, the bytes as characters.\<close>

definition utf8_bytes :: "nat \<Rightarrow> nat list" where
  "utf8_bytes c =
     (if c < 0x80 then [c]
      else if c < 0x800 then [0xC0 + c div 64, 0x80 + c mod 64]
      else if c < 0x10000 then [0xE0 + c div 4096, 0x80 + c div 64 mod 64, 0x80 + c mod 64]
      else [0xF0 + c div 262144, 0x80 + c div 4096 mod 64, 0x80 + c div 64 mod 64,
            0x80 + c mod 64])"

definition utf8_encode :: "source_text \<Rightarrow> string" where
  "utf8_encode s = concat (map (map char_of \<circ> utf8_bytes) s)"

text \<open>\<open>json.dumps\<close> escapes ASCII characters only, so it commutes with the encoding.\<close>

definition canonical_chunk_identity ::
  "string \<Rightarrow> string \<Rightarrow> source_text list \<Rightarrow> source_text \<Rightarrow> string" where
  "canonical_chunk_identity source_id source_path heading_path txt =
     dumps (json_dict [(''heading_path'', JArr (map (JStr \<circ> utf8_encode) heading_path)),
                       (''identity_schema'', JStr ''migrationlens-chunk-id-v1''),
                       (''source_id'', JStr source_id), (''source_path'', JStr source_path),
                       (''text'', JStr (utf8_encode txt))])"

definition chunk_id_of :: "(string \<Rightarrow> string) \<Rightarrow> string \<Rightarrow> nat \<Rightarrow> string" where
  "chunk_id_of digest identity_base occurrence =
     ''sha256:'' @ digest (identity_base @ CHR 0x0A # ''occurrence='' @ show_nat occurrence)"

definition calculate_chunk_id ::
  "(string \<Rightarrow> string) \<Rightarrow> string \<Rightarrow> string \<Rightarrow> source_text list \<Rightarrow> source_text \<Rightarrow> nat \<Rightarrow> string" where
  "calculate_chunk_id digest source_id source_path heading_path txt occurrence =
     chunk_id_of digest (canonical_chunk_identity source_id source_path heading_path txt) occurrence"

section \<open>Chunks and artifacts\<close>

definition SOURCE_ID :: string where "SOURCE_ID = ''pydantic-v2-migration''"
definition SOURCE_PATH :: string where "SOURCE_PATH = ''docs/migration.md''"

text \<open>The fields of the manifest that the builder copies.\<close>

record manifest =
  mf_source_id :: string
  mf_source_url :: string
  mf_git_ref :: string
  mf_commit :: string
  mf_path :: string
  mf_sha256 :: string
  mf_snapshot_path :: string
  mf_byte_length :: nat

record markdown_chunk =
  mc_chunk_id :: string
  mc_text :: source_text
  mc_path :: "source_text list"
  mc_content_sha256 :: string
  mc_char_length :: nat
  mc_source_id :: string
  mc_source_url :: string
  mc_git_ref :: string
  mc_commit :: string
  mc_source_path :: string
  mc_snapshot_sha256 :: string
  mc_start :: nat
  mc_end :: nat
  mc_continuation :: nat
  mc_overlap :: nat
  mc_occurrence :: nat

definition is_hex :: "nat \<Rightarrow> string \<Rightarrow> bool" where
  "is_hex n s \<longleftrightarrow> length s = n \<and> set s \<subseteq> set ''0123456789abcdef''"

definition make_chunk ::
  "(string \<Rightarrow> string) \<Rightarrow> markdown_chunk \<Rightarrow> chunk_exn + markdown_chunk" where
  "make_chunk digest c =
     (if take 7 (mc_chunk_id c) = ''sha256:'' \<and> is_hex 64 (drop 7 (mc_chunk_id c))
         \<and> mc_text c \<noteq> [] \<and> is_hex 64 (mc_content_sha256 c) \<and> 0 < mc_char_length c
         \<and> mc_source_id c = SOURCE_ID \<and> mc_source_url c \<noteq> [] \<and> mc_git_ref c \<noteq> []
         \<and> is_hex 40 (mc_commit c) \<and> mc_source_path c = SOURCE_PATH
         \<and> is_hex 64 (mc_snapshot_sha256 c) \<and> 0 < mc_end c \<and> mc_overlap c \<le> 150
         \<and> list_all (\<lambda>h. ustrip h \<noteq> []) (mc_path c)
         \<and> mc_char_length c = length (mc_text c)
         \<and> mc_end c = mc_start c + mc_char_length c
         \<and> digest (utf8_encode (mc_text c)) = mc_content_sha256 c
         \<and> \<not> (mc_continuation c = 0 \<and> mc_overlap c \<noteq> 0)
      then Inr c else Inl ChunkModelErr)"

definition SNAPSHOT_PATH :: string where
  "SNAPSHOT_PATH = ''data/snapshots/pydantic-v2-migration/migration.md''"

text \<open>The date of the snapshot and the schema version, which nothing compares, are left out.\<close>

record chunk_artifact =
  ca_manifest :: manifest
  ca_contract :: length_contract
  ca_chunks :: "markdown_chunk list"

definition chunk_of_artifact :: "manifest \<Rightarrow> length_contract \<Rightarrow> markdown_chunk \<Rightarrow> bool" where
  "chunk_of_artifact m k c \<longleftrightarrow>
     mc_source_id c = mf_source_id m \<and> mc_source_url c = mf_source_url m
     \<and> mc_git_ref c = mf_git_ref m \<and> mc_commit c = mf_commit m \<and> mc_source_path c = mf_path m
     \<and> mc_snapshot_sha256 c = mf_sha256 m \<and> mc_overlap c \<in> {0, lc_overlap k}"

text \<open>The loop over the chunks of \<open>validate_contract\<close>; \<open>previous\<close> is the last start, with
  \<^const>\<open>None\<close> for the \<open>-1\<close> of the code.\<close>

fun increasing_starts :: "nat option \<Rightarrow> markdown_chunk list \<Rightarrow> bool" where
  "increasing_starts previous [] = True"
| "increasing_starts previous (c # cs) =
     ((case previous of None \<Rightarrow> True | Some p \<Rightarrow> p < mc_start c)
      \<and> increasing_starts (Some (mc_start c)) cs)"

definition make_artifact :: "chunk_artifact \<Rightarrow> chunk_exn + chunk_artifact" where
  "make_artifact a =
     (let k = ca_contract a; m = ca_manifest a
      in if mf_source_id m = SOURCE_ID \<and> mf_source_url m \<noteq> [] \<and> mf_git_ref m \<noteq> []
            \<and> is_hex 40 (mf_commit m) \<and> mf_path m = SOURCE_PATH \<and> is_hex 64 (mf_sha256 m)
            \<and> mf_snapshot_path m = SNAPSHOT_PATH \<and> 0 < mf_byte_length m
            \<and> 0 < lc_min k \<and> 0 < lc_max k \<and> 100 \<le> lc_overlap k \<and> lc_overlap k \<le> 150
            \<and> ca_chunks a \<noteq> [] \<and> lc_min k \<le> lc_max k \<and> lc_overlap k < lc_max k
            \<and> distinct (map mc_chunk_id (ca_chunks a))
            \<and> increasing_starts None (ca_chunks a)
            \<and> list_all (chunk_of_artifact m k) (ca_chunks a)
         then Inr a else Inl ChunkModelErr)"

text \<open>The loop of \<open>build\<close> over the spans; \<open>seen\<close> are the identities so far.\<close>

fun build_chunks ::
  "(string \<Rightarrow> string) \<Rightarrow> manifest \<Rightarrow> source_text \<Rightarrow> string list \<Rightarrow> chunk_span list
     \<Rightarrow> chunk_exn + markdown_chunk list" where
  "build_chunks digest m source seen [] = Inr []"
| "build_chunks digest m source seen (s # ss) =
     (let txt = segment (cs_start s) (cs_end s) source;
          base = canonical_chunk_identity (mf_source_id m) (mf_path m) (cs_path s) txt;
          occurrence = length (filter (\<lambda>b. b = base) seen)
      in bindE (make_chunk digest
             \<lparr>mc_chunk_id = calculate_chunk_id digest (mf_source_id m) (mf_path m) (cs_path s) txt
                              occurrence,
              mc_text = txt, mc_path = cs_path s, mc_content_sha256 = digest (utf8_encode txt),
              mc_char_length = length txt, mc_source_id = mf_source_id m,
              mc_source_url = mf_source_url m, mc_git_ref = mf_git_ref m,
              mc_commit = mf_commit m, mc_source_path = mf_path m,
              mc_snapshot_sha256 = mf_sha256 m, mc_start = cs_start s, mc_end = cs_end s,
              mc_continuation = cs_continuation s, mc_overlap = cs_overlap s,
              mc_occurrence = occurrence\<rparr>) (\<lambda>c.
           bindE (build_chunks digest m source (base # seen) ss) (\<lambda>cs. Inr (c # cs))))"

section \<open>The source of a build\<close>

text \<open>\<open>SOURCE_UPSTREAM_REPO\<close> with the host of the raw files.\<close>

definition RAW_REPOSITORY :: string where
  "RAW_REPOSITORY = ''https://raw.githubusercontent.com/pydantic/pydantic''"

definition expected_source_url :: "manifest \<Rightarrow> string" where
  "expected_source_url m = RAW_REPOSITORY @ ''/'' @ mf_commit m @ ''/'' @ mf_path m"

text \<open>
  \<open>_load_verified_source\<close>: \<open>stored\<close> is what reading and validating the manifest gives,
  \<open>read_file\<close> what reading a file of the repository gives, \<open>sha\<close> the SHA-256 of bytes.
\<close>

definition load_verified_source ::
  "(byte list \<Rightarrow> string) \<Rightarrow> manifest option \<Rightarrow> (string \<Rightarrow> byte list option)
     \<Rightarrow> chunk_exn + manifest \<times> source_text" where
  "load_verified_source sha stored read_file =
     (case stored of
        None \<Rightarrow> Inl ChunkSourceErr
      | Some m \<Rightarrow>
          if mf_source_url m \<noteq> expected_source_url m then Inl ChunkSourceErr
          else (case read_file (mf_snapshot_path m) of
                  None \<Rightarrow> Inl ChunkSourceErr
                | Some bytes \<Rightarrow>
                    if sha bytes \<noteq> mf_sha256 m then Inl ChunkSourceErr
                    else if length bytes \<noteq> mf_byte_length m then Inl ChunkSourceErr
                    else (case utf8_decode bytes of
                            None \<Rightarrow> Inl ChunkSourceErr
                          | Some source \<Rightarrow> if source = [] then Inl ChunkSourceErr
                                           else Inr (m, source))))"

definition chunk_spans :: "length_contract \<Rightarrow> source_text \<Rightarrow> chunk_exn + chunk_span list" where
  "chunk_spans k source =
     bindE (parse_semantic_sections source) (\<lambda>(sections, fences).
     bindE (traverseE (chunk_section k source fences) sections) (\<lambda>spans.
       if concat spans = [] then Inl MarkdownChunkingErr else Inr (concat spans)))"

definition build_artifact ::
  "(string \<Rightarrow> string) \<Rightarrow> length_contract \<Rightarrow> manifest \<Rightarrow> source_text \<Rightarrow> chunk_exn + chunk_artifact"
where
  "build_artifact digest k m source =
     bindE (chunk_spans k source) (\<lambda>spans.
     bindE (build_chunks digest m source [] spans) (\<lambda>chunks.
       make_artifact \<lparr>ca_manifest = m, ca_contract = k, ca_chunks = chunks\<rparr>))"

section \<open>The audit\<close>

fun prose_cuts :: "nat \<Rightarrow> nat \<Rightarrow> nat \<Rightarrow> nat list \<Rightarrow> (nat \<times> nat) list" where
  "prose_cuts start cursor e [] = (if cursor < e then [(cursor, e)] else [])"
| "prose_cuts start cursor e (b # bs) =
     (if cursor < start + b then [(cursor, start + b)] else []) @ prose_cuts start (start + b) e bs"

definition prose_blocks :: "source_text \<Rightarrow> nat \<Rightarrow> nat \<Rightarrow> (nat \<times> nat) list" where
  "prose_blocks source start e =
     prose_cuts start start e (find_ends match_paragraph 0 (segment start e source))"

fun source_blocks_from :: "source_text \<Rightarrow> nat \<Rightarrow> fence_span list \<Rightarrow> (nat \<times> nat) list" where
  "source_blocks_from source cursor [] =
     (if cursor < length source then prose_blocks source cursor (length source) else [])"
| "source_blocks_from source cursor (f # fs) =
     (if cursor < fs_start f then prose_blocks source cursor (fs_start f) else [])
     @ (fs_start f, fs_end f) # source_blocks_from source (fs_end f) fs"

definition source_blocks :: "source_text \<Rightarrow> fence_span list \<Rightarrow> (nat \<times> nat) list" where
  "source_blocks source fences =
     filter (\<lambda>(a, b). a < b) (source_blocks_from source 0 fences)"

fun covered_until :: "nat \<Rightarrow> nat \<Rightarrow> markdown_chunk list \<Rightarrow> bool" where
  "covered_until e until [] = (e \<le> until)"
| "covered_until e until (c # cs) =
     (if mc_end c \<le> until then covered_until e until cs
      else if until < mc_start c then False
      else if e \<le> max until (mc_end c) then True
      else covered_until e (max until (mc_end c)) cs)"

definition interval_is_covered :: "nat \<Rightarrow> nat \<Rightarrow> markdown_chunk list \<Rightarrow> bool" where
  "interval_is_covered start e chunks = covered_until e start chunks"

text \<open>The first loop of the audit: the end, the number of characters and of gaps so far.\<close>

definition cover_step :: "markdown_chunk \<Rightarrow> nat \<times> nat \<times> nat \<Rightarrow> nat \<times> nat \<times> nat" where
  "cover_step c = (\<lambda>(covered_end, characters, gaps).
     let gaps' = (if mc_start c > covered_end then gaps + 1 else gaps);
         new_start = max covered_end (mc_start c);
         characters' = (if mc_end c > new_start then characters + (mc_end c - new_start)
                        else characters)
     in (max covered_end (mc_end c), characters', gaps'))"

definition preserved :: "markdown_chunk list \<Rightarrow> fence_span \<Rightarrow> bool" where
  "preserved chunks f \<longleftrightarrow> list_ex (\<lambda>c. mc_start c \<le> fs_start f \<and> fs_end f \<le> mc_end c) chunks"

record chunk_audit =
  cu_chunk_count :: nat
  cu_min_char_length :: nat
  cu_max_char_length :: nat
  cu_target_range_count :: nat
  cu_short_count :: nat
  cu_oversized_count :: nat
  cu_oversized_code_count :: nat
  cu_continuation_count :: nat
  cu_overlap_count :: nat
  cu_unique_id_count :: nat
  cu_id_collision_count :: nat
  cu_unique_hash_count :: nat
  cu_duplicate_hash_count :: nat
  cu_fence_count :: nat
  cu_preserved_fence_count :: nat
  cu_block_count :: nat
  cu_covered_block_count :: nat
  cu_character_count :: nat
  cu_covered_character_count :: nat
  cu_gap_count :: nat

definition count_of :: "('a \<Rightarrow> bool) \<Rightarrow> 'a list \<Rightarrow> nat" where
  "count_of P xs = length (filter P xs)"

text \<open>Whether a chunk counts as an oversized code block; its text has been parsed before.\<close>

definition oversized_code :: "nat \<Rightarrow> markdown_chunk \<Rightarrow> bool" where
  "oversized_code max_chars c \<longleftrightarrow>
     max_chars < mc_char_length c
     \<and> (case parse_semantic_sections (mc_text c) of
          Inl e \<Rightarrow> False
        | Inr (sections, fences) \<Rightarrow> list_ex (\<lambda>f. max_chars < fs_end f - fs_start f) fences)"

definition audit_chunk_artifact :: "source_text \<Rightarrow> chunk_artifact \<Rightarrow> chunk_exn + chunk_audit" where
  "audit_chunk_artifact source a =
     (let chunks = ca_chunks a; k = ca_contract a
      in bindE (raise_if (\<not> list_all (\<lambda>c. segment (mc_start c) (mc_end c) source = mc_text c) chunks)
                  MarkdownChunkingErr) (\<lambda>_.
           case fold cover_step chunks (0, 0, 0) of (covered_end, characters, gaps0) \<Rightarrow>
             (let gaps = (if covered_end < length source then gaps0 + 1 else gaps0)
              in bindE (raise_if (gaps \<noteq> 0 \<or> characters \<noteq> length source) MarkdownChunkingErr) (\<lambda>_.
                 bindE (parse_semantic_sections source) (\<lambda>(sections, fences).
                 bindE (raise_if (count_of (preserved chunks) fences \<noteq> length fences)
                          MarkdownChunkingErr) (\<lambda>_.
                 bindE (traverseE (\<lambda>c. parse_semantic_sections (mc_text c)) chunks) (\<lambda>_.
                 let blocks = source_blocks source fences;
                     covered = count_of (\<lambda>(s, e). interval_is_covered s e chunks) blocks;
                     lengths = map mc_char_length chunks;
                     ids = card (set (map mc_chunk_id chunks));
                     hashes = card (set (map mc_content_sha256 chunks))
                 in bindE (raise_if (covered \<noteq> length blocks) MarkdownChunkingErr) (\<lambda>_.
                 Inr \<lparr>cu_chunk_count = length chunks, cu_min_char_length = Min (set lengths),
                      cu_max_char_length = Max (set lengths),
                      cu_target_range_count = count_of (\<lambda>n. lc_min k \<le> n \<and> n \<le> lc_max k) lengths,
                      cu_short_count = count_of (\<lambda>n. n < lc_min k) lengths,
                      cu_oversized_count = count_of (\<lambda>n. n > lc_max k) lengths,
                      cu_oversized_code_count = count_of (oversized_code (lc_max k)) chunks,
                      cu_continuation_count = count_of (\<lambda>c. mc_continuation c > 0) chunks,
                      cu_overlap_count = count_of (\<lambda>c. mc_overlap c > 0) chunks,
                      cu_unique_id_count = ids, cu_id_collision_count = length chunks - ids,
                      cu_unique_hash_count = hashes,
                      cu_duplicate_hash_count = length chunks - hashes,
                      cu_fence_count = length fences,
                      cu_preserved_fence_count = count_of (preserved chunks) fences,
                      cu_block_count = length blocks, cu_covered_block_count = covered,
                      cu_character_count = length source, cu_covered_character_count = characters,
                      cu_gap_count = gaps\<rparr>))))))))"

end
