(* ===== verification/MarkdownParse.thy ===== *)
theory MarkdownParse
  imports MarkdownChunks
begin

text \<open>
  What \<open>_parse_semantic_sections\<close> establishes: the sections partition the source, the fences are
  apart from each other, no section begins or ends inside a fence, and no heading is blank.
\<close>

section \<open>Lists and stripping\<close>

lemma rstrip_of_sub: "set (rstrip_of P s) \<subseteq> set s"
  using set_dropWhileD [of _ P "rev s"] by (auto simp: rstrip_of_def)

lemma rstrip_of_length: "length (rstrip_of P s) \<le> length s"
  by (simp add: rstrip_of_def length_dropWhile_le [of P "rev s", simplified])

lemma dropWhile_keeps: "c \<in> set s \<Longrightarrow> \<not> P c \<Longrightarrow> c \<in> set (dropWhile P s)"
  by (induction s) auto

lemma rstrip_keeps: "c \<in> set s \<Longrightarrow> \<not> P c \<Longrightarrow> c \<in> set (rstrip_of P s)"
  by (simp add: rstrip_of_def dropWhile_keeps)

lemma ustrip_nonempty: "ustrip s \<noteq> [] \<longleftrightarrow> (\<exists>c \<in> set s. \<not> is_uspace c)"
proof
  assume "ustrip s \<noteq> []"
  then have "dropWhile is_uspace s \<noteq> []"
    unfolding ustrip_def rstrip_of_def by (metis dropWhile.simps(1) rev.simps(1))
  then show "\<exists>c \<in> set s. \<not> is_uspace c"
    using dropWhile_eq_Nil_conv [of is_uspace s] by blast
next
  assume "\<exists>c \<in> set s. \<not> is_uspace c"
  then obtain c where "c \<in> set s" "\<not> is_uspace c" by blast
  then have "c \<in> set (ustrip s)"
    by (simp add: ustrip_def dropWhile_keeps rstrip_keeps)
  then show "ustrip s \<noteq> []" by auto
qed

lemma ustrip_idem: "ustrip s \<noteq> [] \<Longrightarrow> ustrip (ustrip s) \<noteq> []"
proof -
  assume "ustrip s \<noteq> []"
  then obtain c where "c \<in> set s" "\<not> is_uspace c"
    using ustrip_nonempty by blast
  then have "c \<in> set (ustrip s)"
    by (simp add: ustrip_def dropWhile_keeps rstrip_keeps)
  with \<open>\<not> is_uspace c\<close> show ?thesis
    using ustrip_nonempty by blast
qed

lemma keep_lines_from_concat: "concat (keep_lines_from cur s) = cur @ s"
proof (induction cur s rule: keep_lines_from.induct)
  case (2 cur c cs)
  then show ?case
    by (cases cs) auto
qed simp

lemma keep_lines_concat: "concat (keep_lines s) = s"
  by (simp add: keep_lines_def keep_lines_from_concat)

lemma fence_open_length: "fence_open (logical_line line) = Some (c, n) \<Longrightarrow> 0 < length line"
  by (auto simp: fence_open_def logical_line_def rstrip_of_def split: list.splits)

lemma title_not_blank:
  assumes "heading_match line = Some (marks, raw)"
  shows "ustrip (normalize_heading_title marks raw) \<noteq> []"
proof -
  from assms have "marks \<noteq> 0"
    by (auto simp: heading_match_def Let_def split: if_splits)
  then have "ustrip (replicate marks (cp CHR ''#'')) \<noteq> []"
    unfolding ustrip_nonempty by (auto simp: is_uspace_def cp_def)
  then show ?thesis
    by (simp add: normalize_heading_title_def Let_def ustrip_idem)
qed

section \<open>Partitions\<close>

fun contiguous :: "nat \<Rightarrow> semantic_section list \<Rightarrow> nat \<Rightarrow> bool" where
  "contiguous a [] b = (a = b)"
| "contiguous a (s # ss) b = (ss_start s = a \<and> a < ss_end s \<and> contiguous (ss_end s) ss b)"

fun fenced :: "nat \<Rightarrow> fence_span list \<Rightarrow> nat \<Rightarrow> bool" where
  "fenced a [] b = (a \<le> b)"
| "fenced a (f # fs) b = (a \<le> fs_start f \<and> fs_start f < fs_end f \<and> fenced (fs_end f) fs b)"

lemma contiguous_append: "contiguous a xs b \<Longrightarrow> contiguous b ys c \<Longrightarrow> contiguous a (xs @ ys) c"
  by (induction a xs b rule: contiguous.induct) auto

lemma contiguous_le: "contiguous a ss b \<Longrightarrow> a \<le> b"
  by (induction a ss b rule: contiguous.induct) auto

lemma contiguous_member:
  "contiguous a ss b \<Longrightarrow> s \<in> set ss \<Longrightarrow> a \<le> ss_start s \<and> ss_start s < ss_end s \<and> ss_end s \<le> b"
  by (induction a ss b rule: contiguous.induct) (auto dest: contiguous_le)

lemma fenced_mono: "fenced a fs b \<Longrightarrow> b \<le> c \<Longrightarrow> fenced a fs c"
  by (induction a fs b rule: fenced.induct) auto

lemma fenced_le: "fenced a fs b \<Longrightarrow> a \<le> b"
  by (induction a fs b rule: fenced.induct) auto

lemma fenced_snoc:
  "fenced a fs (fs_start f) \<Longrightarrow> fs_start f < fs_end f \<Longrightarrow> fenced a (fs @ [f]) (fs_end f)"
  by (induction a fs "fs_start f" rule: fenced.induct) auto

lemma fenced_member:
  "fenced a fs b \<Longrightarrow> f \<in> set fs \<Longrightarrow> a \<le> fs_start f \<and> fs_start f < fs_end f \<and> fs_end f \<le> b"
  by (induction a fs b rule: fenced.induct) (auto dest: fenced_le)

lemma fenced_apart:
  assumes "fenced a fs b" "f \<in> set fs"
  shows "\<not> position_inside_fence (fs_start f) fs" and "\<not> position_inside_fence (fs_end f) fs"
proof -
  have "\<not> (fs_start g < fs_start f \<and> fs_start f < fs_end g)
      \<and> \<not> (fs_start g < fs_end f \<and> fs_end f < fs_end g)" if "g \<in> set fs" for g
    using assms that
    by (induction a fs b rule: fenced.induct) (auto dest: fenced_member)
  then show "\<not> position_inside_fence (fs_start f) fs" "\<not> position_inside_fence (fs_end f) fs"
    by (auto simp: position_inside_fence_def)
qed

section \<open>The invariant of the line loop\<close>

definition sections_ok :: "semantic_section list \<Rightarrow> fence_span list \<Rightarrow> bool" where
  "sections_ok ss fences \<longleftrightarrow>
     (\<forall>s \<in> set ss. \<not> position_inside_fence (ss_start s) fences
        \<and> \<not> position_inside_fence (ss_end s) fences \<and> (\<forall>h \<in> set (ss_path s). ustrip h \<noteq> []))"

definition parse_inv :: "parse_state \<Rightarrow> bool" where
  "parse_inv st \<longleftrightarrow>
     contiguous 0 (ps_sections st) (ps_section_start st)
     \<and> (case ps_open st of
          None \<Rightarrow> fenced 0 (ps_fences st) (ps_offset st) \<and> ps_section_start st \<le> ps_offset st
        | Some (c, n, start) \<Rightarrow> fenced 0 (ps_fences st) start \<and> ps_section_start st \<le> start
            \<and> start < ps_offset st)
     \<and> sections_ok (ps_sections st) (ps_fences st)
     \<and> \<not> position_inside_fence (ps_section_start st) (ps_fences st)
     \<and> (\<forall>h \<in> set (ps_path st). ustrip h \<noteq> []) \<and> (\<forall>h. ps_h2 st = Some h \<longrightarrow> ustrip h \<noteq> [])"

lemma parse_inv_start: "parse_inv parse_start"
  by (simp add: parse_inv_def parse_start_def sections_ok_def position_inside_fence_def)

lemma not_inside_after: "fenced a fs b \<Longrightarrow> b \<le> p \<Longrightarrow> \<not> position_inside_fence p fs"
  by (auto simp: position_inside_fence_def dest: fenced_member)

lemma inside_snoc:
  "p \<le> fs_start f \<Longrightarrow> position_inside_fence p (fs @ [f]) \<longleftrightarrow> position_inside_fence p fs"
  by (auto simp: position_inside_fence_def)

lemma enter_section_inv:
  assumes "parse_inv st" "ps_open st = None" "ps_offset st = n"
    and "ustrip (normalize_heading_title marks raw) \<noteq> []"
  shows "parse_inv (enter_section n marks raw (st\<lparr>ps_offset := n + d\<rparr>))"
proof -
  let ?new = "\<lparr>ss_start = ps_section_start st, ss_end = n, ss_path = ps_path st\<rparr>"
  let ?ss = "if n > ps_section_start st then ps_sections st @ [?new] else ps_sections st"
  from assms(1-3) have inv: "contiguous 0 (ps_sections st) (ps_section_start st)"
    "fenced 0 (ps_fences st) n" "ps_section_start st \<le> n"
    "sections_ok (ps_sections st) (ps_fences st)"
    "\<not> position_inside_fence (ps_section_start st) (ps_fences st)"
    "\<forall>h \<in> set (ps_path st). ustrip h \<noteq> []" "\<forall>h. ps_h2 st = Some h \<longrightarrow> ustrip h \<noteq> []"
    by (auto simp: parse_inv_def)
  have out: "\<not> position_inside_fence n (ps_fences st)"
    using inv(2) by (rule not_inside_after) simp
  have "contiguous 0 ?ss n"
    using inv(1,3) contiguous_append [OF inv(1), of "[?new]" n] by auto
  moreover have "sections_ok ?ss (ps_fences st)"
    using inv(4-6) out by (auto simp: sections_ok_def)
  moreover have "fenced 0 (ps_fences st) (n + d)"
    using inv(2) by (rule fenced_mono) simp
  ultimately show ?thesis
    using inv out assms(2,4)
    by (auto simp: parse_inv_def enter_section_def Let_def split: option.splits)
qed

lemma parse_line_inv:
  assumes "parse_inv st"
  shows "parse_inv (parse_line line st)"
proof (cases "ps_open st")
  case None
  show ?thesis
  proof (cases "fence_open (logical_line line)")
    case open_none: None
    show ?thesis
    proof (cases "heading_match (logical_line line)")
      case no_heading: None
      have "fenced 0 (ps_fences st) (ps_offset st + length line)"
        using assms None fenced_mono [of 0 "ps_fences st" "ps_offset st"] by (simp add: parse_inv_def)
      with assms None open_none no_heading show ?thesis
        by (auto simp: parse_line_def parse_inv_def Let_def)
    next
      case (Some h)
      then obtain marks raw where h: "heading_match (logical_line line) = Some (marks, raw)"
        by (metis surj_pair)
      from enter_section_inv [OF assms None refl title_not_blank [OF h], of "length line"]
      show ?thesis
        using None open_none h by (simp add: parse_line_def Let_def)
    qed
  next
    case (Some p)
    then obtain c n where p: "fence_open (logical_line line) = Some (c, n)" by (metis surj_pair)
    with assms None fence_open_length [OF p] show ?thesis
      by (auto simp: parse_line_def parse_inv_def Let_def)
  qed
next
  case (Some p)
  then obtain c n start where p: "ps_open st = Some (c, n, start)" by (metis prod_cases3)
  let ?f = "\<lparr>fs_start = start, fs_end = ps_offset st + length line\<rparr>"
  from assms p have inv: "fenced 0 (ps_fences st) start" "ps_section_start st \<le> start"
    "start < ps_offset st" "contiguous 0 (ps_sections st) (ps_section_start st)"
    by (auto simp: parse_inv_def)
  have "fenced 0 (ps_fences st @ [?f]) (ps_offset st + length line)"
    using fenced_snoc [of 0 "ps_fences st" ?f] inv by simp
  moreover have "sections_ok (ps_sections st) (ps_fences st @ [?f])"
    using assms inv(2) contiguous_member [OF inv(4)]
    by (fastforce simp: parse_inv_def sections_ok_def inside_snoc)
  ultimately show ?thesis
    using assms p inv by (auto simp: parse_line_def parse_inv_def Let_def inside_snoc)
qed

lemma fold_parse_inv: "parse_inv st \<Longrightarrow> parse_inv (fold parse_line ls st)"
  by (induction ls arbitrary: st) (auto intro: parse_line_inv)

lemma parse_line_offset: "ps_offset (parse_line line st) = ps_offset st + length line"
  by (auto simp: parse_line_def enter_section_def Let_def split: option.splits)

lemma fold_parse_offset:
  "ps_offset (fold parse_line ls st) = ps_offset st + length (concat ls)"
  by (induction ls arbitrary: st) (auto simp: parse_line_offset)

text \<open>The result of the parser.\<close>

lemma parse_semantic_sections_Inr:
  assumes "parse_semantic_sections source = Inr (sections, fences)"
  shows "contiguous 0 sections (length source)" and "sections \<noteq> []"
    and "fenced 0 fences (length source)" and "sections_ok sections fences"
proof -
  let ?st = "fold parse_line (keep_lines source) parse_start"
  let ?last = "\<lparr>ss_start = ps_section_start ?st, ss_end = length source, ss_path = ps_path ?st\<rparr>"
  from assms have ne: "source \<noteq> []" and closed: "ps_open ?st = None" and f: "fences = ps_fences ?st"
    and s: "sections = (if ps_section_start ?st < length source then ps_sections ?st @ [?last]
      else ps_sections ?st)"
    by (simp_all add: parse_semantic_sections_def Let_def del: not_None_eq split: if_splits)
  have off: "ps_offset ?st = length source"
    by (simp add: fold_parse_offset keep_lines_concat) (simp add: parse_start_def)
  have inv: "contiguous 0 (ps_sections ?st) (ps_section_start ?st)"
    "fenced 0 fences (length source)" "ps_section_start ?st \<le> length source"
    "sections_ok (ps_sections ?st) fences"
    "\<not> position_inside_fence (ps_section_start ?st) fences"
    "\<forall>h \<in> set (ps_path ?st). ustrip h \<noteq> []"
    using fold_parse_inv [OF parse_inv_start, of "keep_lines source"] closed off f
    by (auto simp: parse_inv_def)
  show "fenced 0 fences (length source)" by (rule inv)
  then have "\<not> position_inside_fence (length source) fences"
    by (rule not_inside_after) simp
  with inv show "sections_ok sections fences"
    unfolding s by (auto simp: sections_ok_def)
  show "contiguous 0 sections (length source)"
    using inv(1,3) contiguous_append [OF inv(1), of "[?last]" "length source"] unfolding s by auto
  with ne show "sections \<noteq> []" by auto
qed

end
