(* ===== verification/MarkdownCover.thy ===== *)
theory MarkdownCover
  imports MarkdownParse
begin

text \<open>
  The chunks of a section and of the whole source: the cursor loop never fails and its spans
  cover the section, cut no fence and stay within the maximal length, a fence that is longer
  on its own excepted.
\<close>

section \<open>Covering a range\<close>

fun linked :: "nat \<Rightarrow> (nat \<times> nat) list \<Rightarrow> nat \<Rightarrow> bool" where
  "linked a [] b = (a = b)"
| "linked a ((s, e) # ps) b = (s \<le> a \<and> linked (max a e) ps b)"

lemma linked_append: "linked a xs b \<Longrightarrow> linked b ys c \<Longrightarrow> linked a (xs @ ys) c"
  by (induction a xs b rule: linked.induct) auto

lemma linked_le: "linked a ps b \<Longrightarrow> a \<le> b"
  by (induction a ps b rule: linked.induct) auto

lemma linked_point: "linked a ps b \<Longrightarrow> a \<le> p \<Longrightarrow> p < b \<Longrightarrow> \<exists>(s, e) \<in> set ps. s \<le> p \<and> p < e"
proof (induction a ps b rule: linked.induct)
  case (2 a s e ps b)
  then show ?case by (cases "p < e") auto
qed simp

section \<open>One step of the loop\<close>

definition span_range :: "chunk_span \<Rightarrow> nat \<times> nat" where
  "span_range s = (cs_start s, cs_end s)"

definition fitting :: "length_contract \<Rightarrow> fence_span list \<Rightarrow> nat \<Rightarrow> nat \<Rightarrow> bool" where
  "fitting k fences a b \<longleftrightarrow>
     b - a \<le> lc_max k \<or> (\<exists>f \<in> set fences. fs_start f = a \<and> fs_end f = b)"

lemma first_boundary_Some:
  assumes "first_boundary source cursor lower limit fences ms = Some e"
  shows "lower \<le> e \<and> e \<le> limit \<and> \<not> position_inside_fence e fences"
  using assms
proof (induction ms)
  case (Cons m ms)
  show ?case
  proof (cases "boundary_candidates source cursor lower limit fences m = []")
    case False
    with Cons.prems have "e \<in> set (boundary_candidates source cursor lower limit fences m)"
      using Max_in [of "set (boundary_candidates source cursor lower limit fences m)"]
      by (auto simp: Let_def)
    then show ?thesis by (auto simp: boundary_candidates_def)
  qed (use Cons in auto)
qed simp

lemma choose_end_Inr:
  assumes k: "valid_contract k" and fences: "fenced 0 fences n"
    and cursor: "cursor < stop" "lc_max k < stop - cursor" "\<not> position_inside_fence cursor fences"
    and stop: "\<not> position_inside_fence stop fences"
  obtains e suppress where "choose_end k source cursor stop fences = Inr (e, suppress)"
    and "cursor < e" and "e \<le> stop" and "\<not> position_inside_fence e fences"
    and "fitting k fences cursor e"
proof -
  define limit where "limit = min (cursor + lc_max k) stop"
  let ?P = "\<lambda>f. fs_start f < limit \<and> limit < fs_end f \<and> cursor < fs_end f \<and> fs_start f < stop"
  have limit: "cursor < limit" "limit \<le> stop" "limit \<le> cursor + lc_max k"
    using k cursor by (auto simp: limit_def valid_contract_def)
  show thesis
  proof (cases "find ?P fences")
    case (Some f)
    then have f: "f \<in> set fences" "?P f"
      by (auto simp: find_Some_iff)
    note apart = fenced_apart [OF fences f(1)]
    show thesis
    proof (cases "cursor < fs_start f")
      case True
      with Some f limit apart show thesis
        by (intro that [of "fs_start f" True])
          (auto simp: choose_end_def limit_def [symmetric] Let_def fitting_def)
    next
      case False
      with cursor(3) f have start: "fs_start f = cursor"
        by (auto simp: position_inside_fence_def)
      have e: "fs_end f \<le> stop"
        using stop f limit by (auto simp: position_inside_fence_def)
      with Some f start apart show thesis
        by (intro that [of "fs_end f" True])
          (auto simp: choose_end_def limit_def [symmetric] Let_def fitting_def min_absorb1 [OF e])
    qed
  next
    case None
    then have none: "\<not> ?P f" if "f \<in> set fences" for f
      using that by (auto simp: find_None_iff)
    show thesis
    proof (cases "first_boundary source cursor (min (cursor + lc_min k) limit) limit fences
        BOUNDARY_PATTERNS")
      case (Some e)
      note found = first_boundary_Some [OF Some]
      have "cursor < min (cursor + lc_min k) limit"
        using k limit by (auto simp: valid_contract_def)
      with found None Some limit show thesis
        by (intro that [of e "next_oversized_code e k fences"])
          (auto simp: choose_end_def limit_def [symmetric] Let_def fitting_def)
    next
      case no_boundary: None
      have out: "\<not> position_inside_fence limit fences"
        unfolding position_inside_fence_def
      proof
        assume "\<exists>f \<in> set fences. fs_start f < limit \<and> limit < fs_end f"
        then obtain f where "f \<in> set fences" "fs_start f < limit" "limit < fs_end f" by blast
        with none [of f] limit show False by simp
      qed
      with None no_boundary limit show thesis
        by (intro that [of limit False])
          (auto simp: choose_end_def limit_def [symmetric] Let_def fitting_def)
    qed
  qed
qed

section \<open>A section\<close>

text \<open>What every span of a section satisfies.\<close>

definition span_ok :: "length_contract \<Rightarrow> fence_span list \<Rightarrow> semantic_section \<Rightarrow> chunk_span \<Rightarrow> bool"
where
  "span_ok k fences sec s \<longleftrightarrow>
     ss_start sec \<le> cs_start s \<and> cs_start s < cs_end s \<and> cs_end s \<le> ss_end sec
     \<and> \<not> position_inside_fence (cs_start s) fences \<and> \<not> position_inside_fence (cs_end s) fences
     \<and> fitting k fences (cs_start s) (cs_end s) \<and> cs_path s = ss_path sec
     \<and> cs_overlap s \<in> {0, lc_overlap k} \<and> (cs_continuation s = 0 \<longrightarrow> cs_overlap s = 0)"

lemma next_cursor_facts:
  assumes "cursor < e" "\<not> position_inside_fence e fences"
  shows "cursor < next_cursor_of k fences cursor e suppress"
    and "next_cursor_of k fences cursor e suppress \<le> e"
    and "\<not> position_inside_fence (next_cursor_of k fences cursor e suppress) fences"
    and "e - next_cursor_of k fences cursor e suppress \<in> {0, lc_overlap k}"
  using assms by (auto simp: next_cursor_of_def)

lemma chunk_loop_covers:
  assumes k: "valid_contract k" and fences: "fenced 0 fences n"
    and stop: "\<not> position_inside_fence (ss_end sec) fences"
    and "ss_start sec \<le> cursor" "cursor < ss_end sec" "\<not> position_inside_fence cursor fences"
    and "inc \<in> {0, lc_overlap k}" "index = 0 \<longrightarrow> inc = 0"
  shows "\<exists>spans. chunk_loop k source sec fences cursor index inc = Inr spans \<and> spans \<noteq> []
     \<and> (\<forall>s \<in> set spans. span_ok k fences sec s \<and> cursor \<le> cs_start s)
     \<and> sorted_wrt (\<lambda>a b. cs_start a < cs_start b) spans
     \<and> (\<forall>a. cursor \<le> a \<and> a \<le> ss_end sec \<longrightarrow> linked a (map span_range spans) (ss_end sec))"
  using assms(4-)
proof (induction "ss_end sec - cursor" arbitrary: cursor index inc rule: less_induct)
  case less
  obtain e suppress where end_eq: "(if ss_end sec - cursor \<le> lc_max k then Inr (ss_end sec, False)
        else choose_end k source cursor (ss_end sec) fences) = Inr (e, suppress)"
    and e: "cursor < e" "e \<le> ss_end sec" "\<not> position_inside_fence e fences" "fitting k fences cursor e"
  proof (cases "ss_end sec - cursor \<le> lc_max k")
    case True
    with stop less.prems(2) show thesis by (intro that [of "ss_end sec" False]) (auto simp: fitting_def)
  next
    case False
    then have long: "lc_max k < ss_end sec - cursor" by simp
    show thesis
      using choose_end_Inr [OF k fences less.prems(2) long less.prems(3) stop, of source]
      by (metis (no_types) False that)
  qed
  let ?span = "\<lparr>cs_start = cursor, cs_end = e, cs_path = ss_path sec, cs_continuation = index,
    cs_overlap = inc\<rparr>"
  have span: "span_ok k fences sec ?span"
    using e less.prems by (simp add: span_ok_def)
  note unfolded = chunk_loop.simps [of k source sec fences cursor index inc, unfolded end_eq]
  show ?case
  proof (cases "e = ss_end sec")
    case True
    with span e(1) less.prems(2) show ?thesis
      by (intro exI [of _ "[?span]"]) (simp add: unfolded span_range_def max_def)
  next
    case False
    let ?next = "next_cursor_of k fences cursor e suppress"
    note nf = next_cursor_facts [OF e(1,3), of k suppress]
    have less: "?next < ss_end sec" "ss_end sec - ?next < ss_end sec - cursor"
      "ss_start sec \<le> ?next"
      using nf(1,2) e(2) False less.prems(1,2) by simp_all
    have "index + 1 = 0 \<longrightarrow> e - ?next = 0" by simp
    from less.hyps [OF less(2,3,1) nf(3,4) this] obtain spans where rest: "chunk_loop k source sec fences ?next (index + 1) (e - ?next) = Inr spans"
      "spans \<noteq> []" "\<forall>s \<in> set spans. span_ok k fences sec s \<and> ?next \<le> cs_start s"
      "sorted_wrt (\<lambda>a b. cs_start a < cs_start b) spans"
      "\<forall>a. ?next \<le> a \<and> a \<le> ss_end sec \<longrightarrow> linked a (map span_range spans) (ss_end sec)"
      by blast
    have "linked a (map span_range (?span # spans)) (ss_end sec)"
      if "cursor \<le> a" "a \<le> ss_end sec" for a
      using that rest(5) nf(2) e(2) by (simp add: span_range_def)
    then show ?thesis
      using rest span False e(1) less.prems(2) nf(1)
      by (intro exI [of _ "?span # spans"]) (fastforce simp: unfolded Let_def)
  qed
qed

lemma chunk_section_covers:
  assumes "valid_contract k" "fenced 0 fences n" "sections_ok sections fences" "sec \<in> set sections"
    and "ss_start sec < ss_end sec"
  shows "\<exists>spans. chunk_section k source fences sec = Inr spans \<and> spans \<noteq> []
     \<and> (\<forall>s \<in> set spans. span_ok k fences sec s)
     \<and> sorted_wrt (\<lambda>a b. cs_start a < cs_start b) spans
     \<and> linked (ss_start sec) (map span_range spans) (ss_end sec)"
  using chunk_loop_covers [OF assms(1,2), of sec "ss_start sec" 0 0 source] assms(3-5)
  by (fastforce simp: chunk_section_def sections_ok_def)

end
