(* ===== verification/MarkdownSamples.thy ===== *)
theory MarkdownSamples
  imports MarkdownCover
begin

text \<open>
  Two small sources for the witnesses: one with two sections and a fenced block that contains
  something like a heading, and one whose only line has three backticks in its middle.
\<close>

section \<open>Running the parser on a line\<close>

lemma parse_line_text:
  "ps_open st = None \<Longrightarrow> fence_open (logical_line l) = None \<Longrightarrow> heading_match (logical_line l) = None
     \<Longrightarrow> parse_line l st = st\<lparr>ps_offset := ps_offset st + length l\<rparr>"
  by (simp add: parse_line_def)

lemma parse_line_heading:
  "ps_open st = None \<Longrightarrow> fence_open (logical_line l) = None
     \<Longrightarrow> heading_match (logical_line l) = Some (n, t)
     \<Longrightarrow> parse_line l st = enter_section (ps_offset st) n t (st\<lparr>ps_offset := ps_offset st + length l\<rparr>)"
  by (simp add: parse_line_def Let_def)

lemma parse_line_open:
  "ps_open st = None \<Longrightarrow> fence_open (logical_line l) = Some (c, n)
     \<Longrightarrow> parse_line l st = st\<lparr>ps_offset := ps_offset st + length l, ps_open := Some (c, n, ps_offset st)\<rparr>"
  by (simp add: parse_line_def Let_def)

lemma parse_line_inside:
  "ps_open st = Some (c, n, s) \<Longrightarrow> parse_line l st =
     (if is_closing_fence (logical_line l) c n
      then st\<lparr>ps_offset := ps_offset st + length l, ps_open := None,
              ps_fences := ps_fences st @ [\<lparr>fs_start = s, fs_end = ps_offset st + length l\<rparr>]\<rparr>
      else st\<lparr>ps_offset := ps_offset st + length l\<rparr>)"
  by (simp add: parse_line_def Let_def)

lemma keep_lines_single: "\<forall>c \<in> set s. \<not> is_line_end c \<Longrightarrow> cur @ s \<noteq> [] \<Longrightarrow> keep_lines_from cur s = [cur @ s]"
  by (induction s arbitrary: cur) (auto simp: is_line_end_def)

definition fence_mark :: string where "fence_mark = replicate 3 (CHR 0x60)"

definition sample_lines :: "source_text list" where
  "sample_lines = map (\<lambda>l. map cp l @ [LF]) [''## A'', fence_mark, ''## code'', fence_mark, ''## B'', ''text'']"

definition sample_markdown :: source_text where
  "sample_markdown = concat sample_lines"

lemma sample_keep: "keep_lines sample_markdown = sample_lines"
  by (simp add: sample_markdown_def sample_lines_def keep_lines_def is_line_end_def cp_def fence_mark_def numeral_3_eq_3)

lemmas line_simps = fence_open_def [unfolded Let_def] is_closing_fence_def [unfolded Let_def]
   heading_match_def [unfolded Let_def] logical_line_def rstrip_of_def is_blank_def 

lemma sample_titles:
  "normalize_heading_title 2 [65] = [65]" "normalize_heading_title 2 [66] = [66]"
  by (simp_all add: normalize_heading_title_def rstrip_of_def ustrip_def is_uspace_def is_blank_def cp_def)

lemma sample_parsed:
  "parse_semantic_sections sample_markdown =
     Inr ([\<lparr>ss_start = 0, ss_end = 21, ss_path = [[65]]\<rparr>,
           \<lparr>ss_start = 21, ss_end = 31, ss_path = [[66]]\<rparr>],
          [\<lparr>fs_start = 5, fs_end = 21\<rparr>])"
proof -
  have l: "fence_open (logical_line [35, 35, 32, 65, 10]) = None"
     "heading_match (logical_line [35, 35, 32, 65, 10]) = Some (2, [65])"
     "fence_open (logical_line [96, 96, 96, 10]) = Some (96, 3)"
     "is_closing_fence (logical_line [96, 96, 96, 10]) 96 3"
     "\<not> is_closing_fence (logical_line [35,35,32,99,111,100,101,10]) 96 3"
     "fence_open (logical_line [35, 35, 32, 66, 10]) = None"
     "heading_match (logical_line [35, 35, 32, 66, 10]) = Some (2, [66])"
     "fence_open (logical_line [116,101,120,116, 10]) = None"
     "heading_match (logical_line [116,101,120,116, 10]) = None"
    by (simp_all add: line_simps cp_def)
  have ls: "sample_lines = [[35, 35, 32, 65, 10], [96, 96, 96, 10], [35,35,32,99,111,100,101,10], [96, 96, 96, 10], [35, 35, 32, 66, 10], [116,101,120,116, 10]]"
    by (simp add: sample_lines_def fence_mark_def cp_def numeral_3_eq_3)
  have m: "sample_markdown \<noteq> []" "length sample_markdown = 31"
    by (simp_all add: sample_markdown_def ls)
  have "fold parse_line sample_lines parse_start =
    \<lparr>ps_sections = [\<lparr>ss_start = 0, ss_end = 21, ss_path = [[65]]\<rparr>], ps_fences = [\<lparr>fs_start = 5, fs_end = 21\<rparr>], ps_section_start = 21, ps_path = [[66]], ps_h2 = Some [66],
      ps_open = None, ps_offset = 31\<rparr>"
    unfolding ls
    by (simp add: l parse_line_text parse_line_heading parse_line_open parse_line_inside parse_start_def
       enter_section_def [unfolded Let_def] sample_titles)
  then show ?thesis
    by (simp add: parse_semantic_sections_def m sample_keep)
qed

section \<open>A line with backticks inside\<close>

definition inline_source :: source_text where
  "inline_source = cp (CHR ''a'') # map cp fence_mark @ replicate 98 (cp (CHR ''b''))"

definition tight_contract :: length_contract where
  "tight_contract = \<lparr>lc_min = 1, lc_max = 101, lc_overlap = 100\<rparr>"

lemma find_ends_none:
  assumes "\<And>c cs. c \<in> set s \<Longrightarrow> m (c # cs) = None"
  shows "find_ends m pos s = []"
  using assms
proof (induction s arbitrary: pos)
  case (Cons c cs)
  then show ?case by (subst find_ends.simps) simp
qed (simp add: find_ends.simps)

lemma no_boundary:
  assumes "set s \<subseteq> {cp (CHR ''a''), cp (CHR 0x60), cp (CHR ''b'')}" and "m \<in> set BOUNDARY_PATTERNS"
  shows "find_ends m pos s = []"
proof (rule find_ends_none)
  fix c cs assume "c \<in> set s"
  with assms show "m (c # cs) = None"
    by (auto simp: BOUNDARY_PATTERNS_def match_paragraph_def match_newline_def match_sentence_def
        match_spaces_def SENTENCE_ENDS_def is_uspace_def cp_def)
qed

lemma inline_parsed:
  "parse_semantic_sections inline_source = Inr ([\<lparr>ss_start = 0, ss_end = 102, ss_path = []\<rparr>], [])"
proof -
  have "\<forall>c \<in> set inline_source. \<not> is_line_end c"
    by (auto simp: inline_source_def fence_mark_def is_line_end_def cp_def)
  moreover have "inline_source \<noteq> []" "length inline_source = 102"
    by (simp_all add: inline_source_def fence_mark_def)
  moreover have "fence_open (logical_line inline_source) = None"
    "heading_match (logical_line inline_source) = None"
    by (simp_all add: line_simps inline_source_def fence_mark_def cp_def numeral_3_eq_3)
  ultimately show ?thesis
    by (simp add: parse_semantic_sections_def keep_lines_def keep_lines_single parse_line_text
        parse_start_def)
qed

lemma inline_spans:
  "chunk_spans tight_contract inline_source = Inr
     [\<lparr>cs_start = 0, cs_end = 101, cs_path = [], cs_continuation = 0, cs_overlap = 0\<rparr>,
      \<lparr>cs_start = 1, cs_end = 102, cs_path = [], cs_continuation = 1, cs_overlap = 100\<rparr>]"
proof -
  have "find_ends m 0 (segment 0 101 inline_source) = []" if "m \<in> set BOUNDARY_PATTERNS" for m
    using that by (rule no_boundary [rotated])
      (auto simp: inline_source_def fence_mark_def segment_def dest!: in_set_takeD)
  then have "first_boundary inline_source 0 1 101 [] BOUNDARY_PATTERNS = None"
    by (simp add: BOUNDARY_PATTERNS_def boundary_candidates_def)
  then have "choose_end tight_contract inline_source 0 102 [] = Inr (101, False)"
    by (simp add: choose_end_def tight_contract_def position_inside_fence_def)
  then show ?thesis
    by (simp add: chunk_spans_def inline_parsed chunk_section_def chunk_loop.simps tight_contract_def
        next_cursor_of_def position_inside_fence_def)
qed

lemma inline_tail:
  "parse_semantic_sections (segment 1 102 inline_source) = Inl MarkdownChunkingErr"
proof -
  let ?tail = "map cp fence_mark @ replicate 98 (cp (CHR ''b''))"
  have tail: "segment 1 102 inline_source = ?tail"
    by (simp add: segment_def inline_source_def fence_mark_def)
  have "\<forall>c \<in> set ?tail. \<not> is_line_end c"
    by (auto simp: fence_mark_def is_line_end_def cp_def)
  moreover have "?tail \<noteq> []" by (simp add: fence_mark_def)
  moreover have "fence_open (logical_line ?tail) = Some (96, 3)"
    by (simp add: line_simps fence_mark_def cp_def numeral_3_eq_3)
  ultimately show ?thesis
    unfolding tail
    by (simp add: parse_semantic_sections_def keep_lines_def keep_lines_single parse_line_open
        parse_start_def)
qed

end
