(* ===== verification/MarkdownProps.thy ===== *)
theory MarkdownProps
  imports MarkdownSamples
begin

text \<open>
  The properties of the chunk builder: the spans of a source, the identities, and the audit of
  what the builder builds.
\<close>

section \<open>The spans of a source\<close>

lemma sections_chunked:
  assumes "valid_contract k" "fenced 0 fences n" "sections_ok all fences" "set ss \<subseteq> set all"
    and "contiguous a ss b"
  shows "\<exists>spans. traverseE (chunk_section k source fences) ss = Inr spans
     \<and> (ss \<noteq> [] \<longrightarrow> concat spans \<noteq> [])
     \<and> (\<forall>s \<in> set (concat spans). \<exists>sec \<in> set ss. span_ok k fences sec s)
     \<and> sorted_wrt (\<lambda>x y. cs_start x < cs_start y) (concat spans)
     \<and> linked a (map span_range (concat spans)) b"
  using assms(4,5)
proof (induction a ss b rule: contiguous.induct)
  case (2 a s ss b)
  from "2.prems" have s: "s \<in> set all" "ss_start s = a" "ss_start s < ss_end s"
    "contiguous (ss_end s) ss b" by auto
  obtain here where here: "chunk_section k source fences s = Inr here" "here \<noteq> []"
    "\<forall>x \<in> set here. span_ok k fences s x" "sorted_wrt (\<lambda>x y. cs_start x < cs_start y) here"
    "linked a (map span_range here) (ss_end s)"
    using chunk_section_covers [OF assms(1-3) s(1,3), of source] s(2) by blast
  obtain rest where rest: "traverseE (chunk_section k source fences) ss = Inr rest"
    "\<forall>x \<in> set (concat rest). \<exists>sec \<in> set ss. span_ok k fences sec x"
    "sorted_wrt (\<lambda>x y. cs_start x < cs_start y) (concat rest)"
    "linked (ss_end s) (map span_range (concat rest)) b"
    using "2.IH" "2.prems" s(4) by auto
  have later: "ss_end s \<le> cs_start y" if y: "y \<in> set (concat rest)" for y
  proof -
    from rest(2) y obtain sec where sec: "sec \<in> set ss" "span_ok k fences sec y" by blast
    then show ?thesis
      using contiguous_member [OF s(4) sec(1)] by (simp add: span_ok_def)
  qed
  have "cs_start x < cs_start y" if "x \<in> set here" "y \<in> set (concat rest)" for x y
    using here(3) that(1) later [OF that(2)] by (fastforce simp: span_ok_def)
  then have "sorted_wrt (\<lambda>x y. cs_start x < cs_start y) (here @ concat rest)"
    using here(4) rest(3) by (simp only: sorted_wrt_append) blast
  moreover have "linked a (map span_range (here @ concat rest)) b"
    using linked_append [OF here(5) rest(4)] by simp
  ultimately show ?case
    using here rest by (intro exI [of _ "here # rest"]) auto
qed simp

lemma chunk_spans_total:
  assumes "parse_semantic_sections source = Inr (sections, fences)" and "valid_contract k"
  shows "\<exists>spans. chunk_spans k source = Inr spans \<and> spans \<noteq> []
     \<and> linked 0 (map span_range spans) (length source)
     \<and> sorted_wrt (\<lambda>x y. cs_start x < cs_start y) spans
     \<and> (\<forall>s \<in> set spans. \<exists>sec \<in> set sections. span_ok k fences sec s)"
proof -
  note parsed = parse_semantic_sections_Inr [OF assms(1)]
  obtain spans where "traverseE (chunk_section k source fences) sections = Inr spans"
    "concat spans \<noteq> []" "\<forall>s \<in> set (concat spans). \<exists>sec \<in> set sections. span_ok k fences sec s"
    "sorted_wrt (\<lambda>x y. cs_start x < cs_start y) (concat spans)"
    "linked 0 (map span_range (concat spans)) (length source)"
    using sections_chunked [OF assms(2) parsed(3,4) order.refl parsed(1), of source] parsed(2)
    by blast
  then show ?thesis
    unfolding chunk_spans_def assms(1) by (intro exI [of _ "concat spans"]) simp
qed

text \<open>C35: chunking a well-formed source never fails and loses nothing.  If the fences of the
  source are closed and the lengths satisfy the contract, the builder's loops end with a list
  of spans, in strictly increasing order; every character is in a span; no span begins or ends
  inside a fenced block, so every fence is whole in some span; and a span has at most
  \<open>max_chars\<close> characters unless it is exactly one fenced block.\<close>

theorem chunk_spans_exact:
  assumes "parse_semantic_sections source = Inr (sections, fences)" and "valid_contract k"
  shows "\<exists>spans. chunk_spans k source = Inr spans
     \<and> sorted_wrt (\<lambda>x y. cs_start x < cs_start y) spans
     \<and> (\<forall>p < length source. \<exists>s \<in> set spans. cs_start s \<le> p \<and> p < cs_end s)
     \<and> (\<forall>s \<in> set spans. cs_start s < cs_end s \<and> cs_end s \<le> length source
          \<and> \<not> position_inside_fence (cs_start s) fences
          \<and> \<not> position_inside_fence (cs_end s) fences
          \<and> (cs_end s - cs_start s \<le> lc_max k
             \<or> (\<exists>f \<in> set fences. fs_start f = cs_start s \<and> fs_end f = cs_end s)))
     \<and> (\<forall>f \<in> set fences. \<exists>s \<in> set spans. cs_start s \<le> fs_start f \<and> fs_end f \<le> cs_end s)"
proof -
  note parsed = parse_semantic_sections_Inr [OF assms(1)]
  obtain spans where spans: "chunk_spans k source = Inr spans"
    "linked 0 (map span_range spans) (length source)"
    "sorted_wrt (\<lambda>x y. cs_start x < cs_start y) spans"
    "\<forall>s \<in> set spans. \<exists>sec \<in> set sections. span_ok k fences sec s"
    using chunk_spans_total [OF assms] by blast
  have point: "\<exists>s \<in> set spans. cs_start s \<le> p \<and> p < cs_end s" if "p < length source" for p
    using linked_point [OF spans(2) _ that] by (auto simp: span_range_def)
  have each: "cs_start s < cs_end s \<and> cs_end s \<le> length source
      \<and> \<not> position_inside_fence (cs_start s) fences \<and> \<not> position_inside_fence (cs_end s) fences
      \<and> fitting k fences (cs_start s) (cs_end s)" if s: "s \<in> set spans" for s
  proof -
    from spans(4) s obtain sec where sec: "sec \<in> set sections" "span_ok k fences sec s" by blast
    then show ?thesis
      using contiguous_member [OF parsed(1) sec(1)] by (simp add: span_ok_def)
  qed
  have "\<exists>s \<in> set spans. cs_start s \<le> fs_start f \<and> fs_end f \<le> cs_end s" if f: "f \<in> set fences" for f
  proof -
    note member = fenced_member [OF parsed(3) f]
    then obtain s where s: "s \<in> set spans" "cs_start s \<le> fs_start f" "fs_start f < cs_end s"
      using point [of "fs_start f"] by auto
    from each [OF s(1)] f s(3) have "fs_end f \<le> cs_end s"
      by (auto simp: position_inside_fence_def)
    with s show ?thesis by blast
  qed
  with spans(1,3) point each show ?thesis
    unfolding fitting_def by blast
qed


theorem chunk_spans_exact_witness:
  "\<exists>spans. chunk_spans DEFAULT_CONTRACT sample_markdown = Inr spans
     \<and> (\<exists>s \<in> set spans. cs_start s \<le> 5 \<and> 21 \<le> cs_end s)"
  using chunk_spans_exact [OF sample_parsed, of DEFAULT_CONTRACT]
  by (auto simp: valid_contract_def DEFAULT_CONTRACT_def)

section \<open>Identities\<close>

definition identity_input :: "string \<Rightarrow> nat \<Rightarrow> string" where
  "identity_input base n = base @ CHR 0x0A # ''occurrence='' @ show_nat n"

lemma takeWhile_until: "\<forall>c \<in> set xs. P c \<Longrightarrow> \<not> P y \<Longrightarrow> takeWhile P (xs @ y # ys) = xs"
  by (induction xs) auto

lemma identity_input_inject: "identity_input a m = identity_input b n \<longleftrightarrow> a = b \<and> m = n"
proof
  assume eq: "identity_input a m = identity_input b n"
  have last: "takeWhile (\<lambda>c. c \<noteq> CHR 0x0A) (rev (identity_input x i))
      = rev (''occurrence='' @ show_nat i)" for x i
  proof -
    have "\<forall>c \<in> set (show_nat i). c \<noteq> CHR 0x0A"
      using show_nat_digits [of i] by (auto simp: list_all_iff is_digit_def)
    then have "\<forall>c \<in> set (rev (''occurrence='' @ show_nat i)). c \<noteq> CHR 0x0A" by auto
    moreover have "rev (identity_input x i) = rev (''occurrence='' @ show_nat i) @ CHR 0x0A # rev x"
      by (simp add: identity_input_def)
    ultimately show ?thesis
      by (simp only:) (rule takeWhile_until, simp_all)
  qed
  from last [of a m] last [of b n] eq have "show_nat m = show_nat n" by simp
  then have "m = n" by (simp add: show_nat_inject)
  with eq show "a = b \<and> m = n" by (simp add: identity_input_def)
qed simp

definition span_base :: "manifest \<Rightarrow> source_text \<Rightarrow> chunk_span \<Rightarrow> string" where
  "span_base m source s = canonical_chunk_identity (mf_source_id m) (mf_path m) (cs_path s)
     (segment (cs_start s) (cs_end s) source)"

text \<open>What is hashed for the spans, one after another.\<close>

fun identity_inputs :: "manifest \<Rightarrow> source_text \<Rightarrow> string list \<Rightarrow> chunk_span list \<Rightarrow> string list" where
  "identity_inputs m source seen [] = []"
| "identity_inputs m source seen (s # ss) =
     identity_input (span_base m source s)
       (length (filter (\<lambda>b. b = span_base m source s) seen))
     # identity_inputs m source (span_base m source s # seen) ss"

lemma identity_inputs_occurrence:
  "x \<in> set (identity_inputs m source seen ss)
     \<Longrightarrow> \<exists>b n. x = identity_input b n \<and> length (filter (\<lambda>c. c = b) seen) \<le> n"
proof (induction m source seen ss rule: identity_inputs.induct)
  case (2 m source seen s ss)
  show ?case
  proof (cases "x \<in> set (identity_inputs m source (span_base m source s # seen) ss)")
    case True
    from "2.IH" [OF True] obtain b n where "x = identity_input b n"
      "length (filter (\<lambda>c. c = b) (span_base m source s # seen)) \<le> n" by blast
    then show ?thesis by (intro exI [of _ b] exI [of _ n]) (auto split: if_splits)
  next
    case False
    with "2.prems" show ?thesis by auto
  qed
qed simp

lemma identity_inputs_distinct: "distinct (identity_inputs m source seen ss)"
proof (induction m source seen ss rule: identity_inputs.induct)
  case (2 m source seen s ss)
  let ?b = "span_base m source s"
  have "identity_input ?b (length (filter (\<lambda>c. c = ?b) seen))
      \<notin> set (identity_inputs m source (?b # seen) ss)"
  proof
    assume "identity_input ?b (length (filter (\<lambda>c. c = ?b) seen))
      \<in> set (identity_inputs m source (?b # seen) ss)"
    from identity_inputs_occurrence [OF this] show False
      by (auto simp: identity_input_inject)
  qed
  with 2 show ?case by simp
qed simp

section \<open>The artifact\<close>

definition valid_manifest :: "manifest \<Rightarrow> bool" where
  "valid_manifest m \<longleftrightarrow>
     mf_source_id m = SOURCE_ID \<and> mf_source_url m \<noteq> [] \<and> mf_git_ref m \<noteq> []
     \<and> is_hex 40 (mf_commit m) \<and> mf_path m = SOURCE_PATH \<and> is_hex 64 (mf_sha256 m)
     \<and> mf_snapshot_path m = SNAPSHOT_PATH \<and> 0 < mf_byte_length m"

definition chunk_range :: "markdown_chunk \<Rightarrow> nat \<times> nat" where
  "chunk_range c = (mc_start c, mc_end c)"

definition buildable :: "length_contract \<Rightarrow> source_text \<Rightarrow> chunk_span \<Rightarrow> bool" where
  "buildable k source s \<longleftrightarrow>
     cs_start s < cs_end s \<and> cs_end s \<le> length source \<and> (\<forall>h \<in> set (cs_path s). ustrip h \<noteq> [])
     \<and> cs_overlap s \<in> {0, lc_overlap k} \<and> (cs_continuation s = 0 \<longrightarrow> cs_overlap s = 0)"

lemma build_chunks_total:
  assumes "valid_manifest m" "\<forall>x. is_hex 64 (digest x)" "valid_contract k"
    and "\<forall>s \<in> set spans. buildable k source s"
  shows "\<exists>cs. build_chunks digest m source seen spans = Inr cs
     \<and> map chunk_range cs = map span_range spans
     \<and> map mc_chunk_id cs = map (\<lambda>x. ''sha256:'' @ digest x) (identity_inputs m source seen spans)
     \<and> (\<forall>c \<in> set cs. mc_text c = segment (mc_start c) (mc_end c) source
          \<and> mc_char_length c = mc_end c - mc_start c \<and> chunk_of_artifact m k c)"
  using assms(4)
proof (induction spans arbitrary: seen)
  case (Cons s ss)
  let ?txt = "segment (cs_start s) (cs_end s) source"
  let ?n = "length (filter (\<lambda>b. b = span_base m source s) seen)"
  let ?c = "\<lparr>mc_chunk_id = calculate_chunk_id digest (mf_source_id m) (mf_path m) (cs_path s) ?txt ?n,
      mc_text = ?txt, mc_path = cs_path s, mc_content_sha256 = digest (utf8_encode ?txt),
      mc_char_length = length ?txt, mc_source_id = mf_source_id m, mc_source_url = mf_source_url m,
      mc_git_ref = mf_git_ref m, mc_commit = mf_commit m, mc_source_path = mf_path m,
      mc_snapshot_sha256 = mf_sha256 m, mc_start = cs_start s, mc_end = cs_end s,
      mc_continuation = cs_continuation s, mc_overlap = cs_overlap s, mc_occurrence = ?n\<rparr>"
  from Cons.prems have s: "buildable k source s" by simp
  then have len: "length ?txt = cs_end s - cs_start s" "?txt \<noteq> []"
    by (auto simp: buildable_def segment_def)
  have id: "mc_chunk_id ?c = ''sha256:'' @ digest (identity_input (span_base m source s) ?n)"
    by (simp add: calculate_chunk_id_def chunk_id_of_def identity_input_def span_base_def)
  have "make_chunk digest ?c = Inr ?c"
    using assms(1-3) s len id
    by (auto simp: make_chunk_def valid_manifest_def buildable_def valid_contract_def list_all_iff)
  moreover obtain cs where "build_chunks digest m source (span_base m source s # seen) ss = Inr cs"
    and ranges: "map chunk_range cs = map span_range ss"
    and ids: "map mc_chunk_id cs
       = map (\<lambda>x. ''sha256:'' @ digest x) (identity_inputs m source (span_base m source s # seen) ss)"
    and each: "\<forall>c \<in> set cs. mc_text c = segment (mc_start c) (mc_end c) source
       \<and> mc_char_length c = mc_end c - mc_start c \<and> chunk_of_artifact m k c"
    using Cons by (metis list.set_intros(2))
  moreover have here: "chunk_of_artifact m k ?c"
    using s by (simp add: chunk_of_artifact_def buildable_def)
  moreover have "build_chunks digest m source seen (s # ss) = bindE (make_chunk digest ?c) (\<lambda>c.
      bindE (build_chunks digest m source (span_base m source s # seen) ss) (\<lambda>cs. Inr (c # cs)))"
    by (simp add: Let_def span_base_def)
  ultimately have "build_chunks digest m source seen (s # ss) = Inr (?c # cs)"
    by (simp only: bindE.simps)
  moreover have "map mc_chunk_id (?c # cs)
      = map (\<lambda>x. ''sha256:'' @ digest x) (identity_inputs m source seen (s # ss))"
    using id ids by (simp only: list.map identity_inputs.simps)
  moreover have "map chunk_range (?c # cs) = map span_range (s # ss)"
    using ranges by (simp add: chunk_range_def span_range_def)
  ultimately show ?case
    using each here len(1) by (intro exI [of _ "?c # cs"]) simp
qed simp


lemma increasing_starts_sorted:
  assumes "sorted_wrt (\<lambda>x y. mc_start x < mc_start y) cs"
    and "\<forall>c \<in> set cs. case previous of None \<Rightarrow> True | Some p \<Rightarrow> p < mc_start c"
  shows "increasing_starts previous cs"
  using assms by (induction cs arbitrary: previous) auto

lemma build_artifact_total:
  assumes "parse_semantic_sections source = Inr (sections, fences)" "valid_contract k"
    and "valid_manifest m" "\<forall>x. is_hex 64 (digest x)"
    and free: "\<forall>spans. chunk_spans k source = Inr spans
          \<longrightarrow> inj_on digest (set (identity_inputs m source [] spans))"
  obtains a where "build_artifact digest k m source = Inr a" and "ca_contract a = k"
    and "distinct (map mc_chunk_id (ca_chunks a))"
    and "\<forall>spans. chunk_spans k source = Inr spans
           \<longrightarrow> map chunk_range (ca_chunks a) = map span_range spans"
    and "linked 0 (map chunk_range (ca_chunks a)) (length source)"
    and "\<forall>c \<in> set (ca_chunks a). mc_start c < mc_end c
           \<and> mc_text c = segment (mc_start c) (mc_end c) source
           \<and> mc_char_length c = mc_end c - mc_start c
           \<and> \<not> position_inside_fence (mc_start c) fences
           \<and> \<not> position_inside_fence (mc_end c) fences"
proof -
  note parsed = parse_semantic_sections_Inr [OF assms(1)]
  obtain spans where spans: "chunk_spans k source = Inr spans" "spans \<noteq> []"
    "linked 0 (map span_range spans) (length source)"
    "sorted_wrt (\<lambda>x y. cs_start x < cs_start y) spans"
    "\<forall>s \<in> set spans. \<exists>sec \<in> set sections. span_ok k fences sec s"
    using chunk_spans_total [OF assms(1,2)] by blast
  have good: "buildable k source s \<and> \<not> position_inside_fence (cs_start s) fences
      \<and> \<not> position_inside_fence (cs_end s) fences" if s: "s \<in> set spans" for s
  proof -
    from spans(5) s obtain sec where sec: "sec \<in> set sections" "span_ok k fences sec s" by blast
    then show ?thesis
      using contiguous_member [OF parsed(1) sec(1)] parsed(4)
      by (auto simp: span_ok_def buildable_def sections_ok_def)
  qed
  then have "\<forall>s \<in> set spans. buildable k source s" by blast
  from build_chunks_total [OF assms(3,4,2) this, of "[]"] obtain cs where
    cs: "build_chunks digest m source [] spans = Inr cs"
      "map chunk_range cs = map span_range spans"
      "map mc_chunk_id cs = map (\<lambda>x. ''sha256:'' @ digest x) (identity_inputs m source [] spans)"
      "\<forall>c \<in> set cs. mc_text c = segment (mc_start c) (mc_end c) source
         \<and> mc_char_length c = mc_end c - mc_start c \<and> chunk_of_artifact m k c"
    by blast
  have "inj_on (\<lambda>x. ''sha256:'' @ digest x) (set (identity_inputs m source [] spans))"
    using free spans(1) by (auto simp: inj_on_def)
  then have ids: "distinct (map mc_chunk_id cs)"
    unfolding cs(3) by (simp only: distinct_map identity_inputs_distinct simp_thms)
  have "map mc_start cs = map cs_start spans" "map mc_end cs = map cs_end spans"
    using arg_cong [OF cs(2), of "map fst"] arg_cong [OF cs(2), of "map snd"]
    by (simp_all add: chunk_range_def span_range_def comp_def)
  then have "sorted_wrt (<) (map mc_start cs)"
    using spans(4) by (simp add: sorted_wrt_map)
  then have "increasing_starts None cs"
    by (intro increasing_starts_sorted) (simp_all add: sorted_wrt_map)
  moreover have "cs \<noteq> []"
    using cs(2) spans(2) by auto
  ultimately have built: "make_artifact \<lparr>ca_manifest = m, ca_contract = k, ca_chunks = cs\<rparr>
      = Inr \<lparr>ca_manifest = m, ca_contract = k, ca_chunks = cs\<rparr>"
    using assms(2,3) cs(4) ids
    by (simp add: make_artifact_def valid_manifest_def valid_contract_def list_all_iff)
  have each: "mc_start c < mc_end c \<and> mc_text c = segment (mc_start c) (mc_end c) source
           \<and> mc_char_length c = mc_end c - mc_start c
           \<and> \<not> position_inside_fence (mc_start c) fences
           \<and> \<not> position_inside_fence (mc_end c) fences" if c: "c \<in> set cs" for c
  proof -
    from c cs(2) obtain s where "s \<in> set spans" "chunk_range c = span_range s"
      by (metis (no_types, lifting) image_iff image_set)
    with good [of s] cs(4) c show ?thesis
      by (auto simp: chunk_range_def span_range_def buildable_def)
  qed
  show thesis
    using spans(1,3) cs(1,2) built ids each
    by (intro that [of "\<lparr>ca_manifest = m, ca_contract = k, ca_chunks = cs\<rparr>"])
      (simp_all add: build_artifact_def)
qed

section \<open>The audit of what was built\<close>

lemma linked_Cons:
  "linked a (map chunk_range (c # cs)) b
     \<longleftrightarrow> mc_start c \<le> a \<and> linked (max a (mc_end c)) (map chunk_range cs) b"
  by (simp add: chunk_range_def)

lemma fold_cover_step:
  "linked a (map chunk_range cs) b \<Longrightarrow> fold cover_step cs (a, n, 0) = (b, n + (b - a), 0)"
proof (induction cs arbitrary: a n)
  case (Cons c cs)
  then have c: "mc_start c \<le> a" "linked (max a (mc_end c)) (map chunk_range cs) b"
    by (simp_all only: linked_Cons)
  with linked_le [OF c(2)] Cons.IH [OF c(2)] show ?case
    by (auto simp: cover_step_def Let_def max_def)
qed simp

lemma covered_until_linked:
  "linked a (map chunk_range cs) b \<Longrightarrow> a \<le> until \<Longrightarrow> e \<le> b \<Longrightarrow> covered_until e until cs"
proof (induction cs arbitrary: a until)
  case (Cons c cs)
  then have "mc_start c \<le> a" "linked (max a (mc_end c)) (map chunk_range cs) b"
    by (simp_all only: linked_Cons)
  with Cons.prems Cons.IH [of "max a (mc_end c)"] show ?case
    by (auto simp: max_def split: if_splits)
qed simp

lemma match_newline_length: "match_newline s = Some n \<Longrightarrow> n \<le> length s"
  by (auto simp: match_newline_def neq_Nil_conv split: list.splits if_splits)

lemma match_paragraph_length:
  assumes "match_paragraph s = Some n"
  shows "n \<le> length s"
proof -
  from assms obtain k b where "match_newline s = Some k" "b = length (takeWhile is_blank (drop k s))"
    and j: "match_newline (drop (k + b) s) = Some (n - (k + b))" "k + b \<le> n"
    by (auto simp: match_paragraph_def Let_def split: option.splits)
  then have "k \<le> length s" "b \<le> length s - k"
    using match_newline_length length_takeWhile_le [of is_blank "drop k s"] by auto
  with match_newline_length [OF j(1)] j(2) show ?thesis by simp
qed

lemma find_ends_step:
  "s \<noteq> [] \<Longrightarrow> find_ends m pos s =
     (case m s of
        Some n \<Rightarrow> if n = 0 then find_ends m (pos + 1) (tl s)
                  else (pos + n) # find_ends m (pos + n) (drop n s)
      | None \<Rightarrow> find_ends m (pos + 1) (tl s))"
  by (subst find_ends.simps) simp

lemma find_ends_bound:
  assumes "\<And>s n. m s = Some n \<Longrightarrow> n \<le> length s"
  shows "e \<in> set (find_ends m pos s) \<Longrightarrow> e \<le> pos + length s"
proof (induction "length s" arbitrary: pos s rule: less_induct)
  case less
  have ne: "s \<noteq> []" using less.prems by (auto simp: find_ends.simps)
  consider (skip) "e \<in> set (find_ends m (pos + 1) (tl s))"
    | (here) n where "m s = Some n" "e = pos + n"
    | (later) n where "m s = Some n" "0 < n" "e \<in> set (find_ends m (pos + n) (drop n s))"
    using less.prems unfolding find_ends_step [OF ne] by (auto split: option.splits if_splits)
  then show ?case
  proof cases
    case skip
    then show ?thesis
      using less.hyps [OF _ skip] ne by (cases s) auto
  next
    case here
    then show ?thesis using assms by simp
  next
    case later
    then show ?thesis
      using less.hyps [OF _ later(3)] ne assms [OF later(1)] by simp
  qed
qed


lemma prose_cuts_bound:
  "p \<in> set (prose_cuts start cursor e bs) \<Longrightarrow> \<forall>b \<in> set bs. start + b \<le> e \<Longrightarrow> snd p \<le> e"
  by (induction start cursor e bs rule: prose_cuts.induct) (auto split: if_splits)

lemma prose_blocks_bound:
  assumes "p \<in> set (prose_blocks source start e)" "start \<le> e"
  shows "snd p \<le> e"
proof -
  have "start + b \<le> e" if "b \<in> set (find_ends match_paragraph 0 (segment start e source))" for b
  proof -
    have "b \<le> e - start"
      using find_ends_bound [OF match_paragraph_length that] by (simp add: segment_def)
    with assms(2) show ?thesis by linarith
  qed
  with assms(1) show ?thesis
    unfolding prose_blocks_def by (intro prose_cuts_bound) auto
qed

lemma source_blocks_bound:
  "p \<in> set (source_blocks_from source cursor fences) \<Longrightarrow> fenced cursor fences (length source)
     \<Longrightarrow> snd p \<le> length source"
proof (induction source cursor fences rule: source_blocks_from.induct)
  case (1 source cursor)
  then show ?case
    using prose_blocks_bound [of p source cursor "length source"] by (auto split: if_splits)
next
  case (2 source cursor f fs)
  have "fs_end f \<le> length source"
    using fenced_member [OF "2.prems"(2), of f] by simp
  moreover have "fs_start f < fs_end f" using "2.prems"(2) by simp
  moreover have "snd p \<le> fs_start f" if "p \<in> set (prose_blocks source cursor (fs_start f))"
    using prose_blocks_bound [OF that] "2.prems"(2) by simp
  moreover have "snd p \<le> length source"
    if "p \<in> set (source_blocks_from source (fs_end f) fs)"
    using "2.IH" [OF that] "2.prems"(2) by simp
  moreover have "p \<in> set (prose_blocks source cursor (fs_start f)) \<or> p = (fs_start f, fs_end f)
      \<or> p \<in> set (source_blocks_from source (fs_end f) fs)"
    using "2.prems"(1) by (cases "cursor < fs_start f") auto
  ultimately show ?case by (elim disjE) auto
qed

lemma count_of_all: "(\<And>x. x \<in> set xs \<Longrightarrow> P x) \<Longrightarrow> count_of P xs = length xs"
  by (simp add: count_of_def filter_id_conv)

lemma traverseE_Inr_iff: "(\<exists>ys. traverseE f xs = Inr ys) \<longleftrightarrow> (\<forall>x \<in> set xs. \<exists>y. f x = Inr y)"
  by (induction xs) auto

lemma audit_of_built:
  assumes parsed: "parse_semantic_sections source = Inr (sections, fences)"
    and k: "valid_contract k" and m: "valid_manifest m" and digest: "\<forall>x. is_hex 64 (digest x)"
    and free: "\<forall>spans. chunk_spans k source = Inr spans
          \<longrightarrow> inj_on digest (set (identity_inputs m source [] spans))"
  shows "\<exists>a. build_artifact digest k m source = Inr a
     \<and> distinct (map mc_chunk_id (ca_chunks a))
     \<and> (\<forall>c \<in> set (ca_chunks a). mc_text c = segment (mc_start c) (mc_end c) source)
     \<and> (\<forall>spans. chunk_spans k source = Inr spans
          \<longrightarrow> map chunk_range (ca_chunks a) = map span_range spans)
     \<and> (if list_all (\<lambda>c. \<exists>r. parse_semantic_sections (mc_text c) = Inr r) (ca_chunks a)
        then \<exists>u. audit_chunk_artifact source a = Inr u
               \<and> cu_covered_character_count u = length source \<and> cu_gap_count u = 0
               \<and> cu_id_collision_count u = 0 \<and> cu_preserved_fence_count u = length fences
        else audit_chunk_artifact source a = Inl MarkdownChunkingErr)"
proof -
  note facts = parse_semantic_sections_Inr [OF parsed]
  obtain a where a: "build_artifact digest k m source = Inr a" "ca_contract a = k"
    "distinct (map mc_chunk_id (ca_chunks a))"
    "\<forall>spans. chunk_spans k source = Inr spans
       \<longrightarrow> map chunk_range (ca_chunks a) = map span_range spans"
    "linked 0 (map chunk_range (ca_chunks a)) (length source)"
    "\<forall>c \<in> set (ca_chunks a). mc_start c < mc_end c
       \<and> mc_text c = segment (mc_start c) (mc_end c) source
       \<and> mc_char_length c = mc_end c - mc_start c
       \<and> \<not> position_inside_fence (mc_start c) fences \<and> \<not> position_inside_fence (mc_end c) fences"
    using build_artifact_total [OF parsed k m digest free] .
  let ?cs = "ca_chunks a"
  have texts: "list_all (\<lambda>c. segment (mc_start c) (mc_end c) source = mc_text c) ?cs"
    using a(6) by (simp add: list_all_iff)
  have cover: "fold cover_step ?cs (0, 0, 0) = (length source, length source, 0)"
    using fold_cover_step [OF a(5), of 0] by simp
  have kept: "preserved ?cs f" if f: "f \<in> set fences" for f
  proof -
    note member = fenced_member [OF facts(3) f]
    then obtain c where c: "c \<in> set ?cs" "mc_start c \<le> fs_start f" "fs_start f < mc_end c"
      using linked_point [OF a(5), of "fs_start f"] by (auto simp: chunk_range_def)
    have "\<not> (fs_start f < mc_end c \<and> mc_end c < fs_end f)"
      using a(6) c(1) f unfolding position_inside_fence_def by blast
    with c(3) have "fs_end f \<le> mc_end c" by simp
    with c show ?thesis by (auto simp: preserved_def list_ex_iff)
  qed
  have blocks: "interval_is_covered s e ?cs" if "(s, e) \<in> set (source_blocks source fences)" for s e
  proof -
    from that have "e \<le> length source"
      using source_blocks_bound [of "(s, e)" source 0 fences] facts(3) by (auto simp: source_blocks_def)
    then show ?thesis
      using covered_until_linked [OF a(5)] by (simp add: interval_is_covered_def)
  qed
  have count: "count_of (preserved ?cs) fences = length fences"
    "count_of (\<lambda>(s, e). interval_is_covered s e ?cs) (source_blocks source fences)
       = length (source_blocks source fences)"
    using kept blocks by (auto intro!: count_of_all)
  have ids: "length ?cs - card (set (map mc_chunk_id ?cs)) = 0"
    using distinct_card [OF a(3)] by simp
  note audit = audit_chunk_artifact_def [of source a, unfolded Let_def cover parsed bindE.simps
      prod.case count]
  show ?thesis
  proof (cases "list_all (\<lambda>c. \<exists>r. parse_semantic_sections (mc_text c) = Inr r) ?cs")
    case True
    then obtain ys where "traverseE (\<lambda>c. parse_semantic_sections (mc_text c)) ?cs = Inr ys"
      using traverseE_Inr_iff [of "\<lambda>c. parse_semantic_sections (mc_text c)" ?cs]
      by (auto simp: list_all_iff)
    with True a(1,3,4,6) texts ids show ?thesis
      by (intro exI [of _ a]) (simp add: audit raise_if_def count)
  next
    case False
    then obtain c e where c: "traverseE (\<lambda>c. parse_semantic_sections (mc_text c)) ?cs = Inl e"
      using traverseE_Inr_iff [of "\<lambda>c. parse_semantic_sections (mc_text c)" ?cs]
      by (cases "traverseE (\<lambda>c. parse_semantic_sections (mc_text c)) ?cs") (auto simp: list_all_iff)
    have "parse_semantic_sections t = Inl e' \<Longrightarrow> e' = MarkdownChunkingErr" for t e'
      by (auto simp: parse_semantic_sections_def Let_def split: if_splits)
    then have "e = MarkdownChunkingErr"
      using traverseE_Inl [OF c] by blast
    with False c a(1,3,4,6) texts show ?thesis
      by (intro exI [of _ a]) (simp add: audit raise_if_def)
  qed
qed

text \<open>C36: what the builder builds passes its own audit, up to one check.  For a well-formed
  source and a hash without collisions on the identities that occur, the artifact is built:
  its chunk ids are unique and its texts are slices of the source.  The audit of this artifact
  can only fail because the text of some chunk, read on its own, has a fence that is not
  closed; otherwise it reports full coverage, no gap and no identity collision.\<close>

theorem built_artifact_audit:
  assumes parsed: "parse_semantic_sections source = Inr (sections, fences)"
    and k: "valid_contract k" and m: "valid_manifest m" and digest: "\<forall>x. is_hex 64 (digest x)"
    and free: "\<forall>spans. chunk_spans k source = Inr spans
          \<longrightarrow> inj_on digest (set (identity_inputs m source [] spans))"
  shows "\<exists>a. build_artifact digest k m source = Inr a
     \<and> distinct (map mc_chunk_id (ca_chunks a))
     \<and> (\<forall>c \<in> set (ca_chunks a). mc_text c = segment (mc_start c) (mc_end c) source)
     \<and> (\<forall>spans. chunk_spans k source = Inr spans
          \<longrightarrow> map chunk_range (ca_chunks a) = map span_range spans)
     \<and> (if list_all (\<lambda>c. \<exists>r. parse_semantic_sections (mc_text c) = Inr r) (ca_chunks a)
        then \<exists>u. audit_chunk_artifact source a = Inr u
               \<and> cu_covered_character_count u = length source \<and> cu_gap_count u = 0
               \<and> cu_id_collision_count u = 0 \<and> cu_preserved_fence_count u = length fences
        else audit_chunk_artifact source a = Inl MarkdownChunkingErr)"
  using assms by (rule audit_of_built)

definition sample_manifest :: manifest where
  "sample_manifest = \<lparr>mf_source_id = SOURCE_ID, mf_source_url = ''u'', mf_git_ref = ''r'',
     mf_commit = replicate 40 (CHR ''0''), mf_path = SOURCE_PATH,
     mf_sha256 = replicate 64 (CHR ''0''), mf_snapshot_path = SNAPSHOT_PATH,
     mf_byte_length = 31\<rparr>"

text \<open>A digest that shows the length of the text and how often it has the letter b.\<close>

definition count_b :: "string \<Rightarrow> nat" where
  "count_b s = length (filter (\<lambda>c. c = CHR ''b'') s)"

definition letter_hash :: "string \<Rightarrow> string" where
  "letter_hash s =
     replicate 62 (CHR ''0'') @ [digit_char (length s mod 16), digit_char (count_b s mod 16)]"

lemma letter_hash_hex: "is_hex 64 (letter_hash s)"
  using hex_digit [of "length s"] hex_digit [of "count_b s"]
  by (auto simp: is_hex_def letter_hash_def)

lemma letter_hash_length:
  "letter_hash x = letter_hash y \<Longrightarrow> length x mod 16 = length y mod 16"
  by (simp add: letter_hash_def digit_char_inject)

lemma sample_manifest_valid: "valid_manifest sample_manifest"
  by (auto simp: valid_manifest_def sample_manifest_def is_hex_def SOURCE_ID_def SOURCE_PATH_def)

lemma sample_spans:
  "chunk_spans DEFAULT_CONTRACT sample_markdown = Inr
     [\<lparr>cs_start = 0, cs_end = 21, cs_path = [[65]], cs_continuation = 0, cs_overlap = 0\<rparr>,
      \<lparr>cs_start = 21, cs_end = 31, cs_path = [[66]], cs_continuation = 0, cs_overlap = 0\<rparr>]"
  by (simp add: chunk_spans_def sample_parsed chunk_section_def chunk_loop.simps DEFAULT_CONTRACT_def)

text \<open>The text is the last entry of the canonical JSON.\<close>

definition identity_head :: "string \<Rightarrow> string \<Rightarrow> source_text list \<Rightarrow> string" where
  "identity_head i p path =
     ''{'' @ json_string ''heading_path'' @ '':'' @ dumps (JArr (map (JStr \<circ> utf8_encode) path)) @ '',''
     @ json_string ''identity_schema'' @ '':'' @ dumps (JStr ''migrationlens-chunk-id-v1'') @ '',''
     @ json_string ''source_id'' @ '':'' @ dumps (JStr i) @ '',''
     @ json_string ''source_path'' @ '':'' @ dumps (JStr p) @ '','' @ json_string ''text'' @ '':''"

lemma canonical_identity_split:
  "canonical_chunk_identity i p path txt
     = identity_head i p path @ json_string (utf8_encode txt) @ ''}''"
proof -
  have "sort_key fst [(''heading_path'', a), (''identity_schema'', b), (''source_id'', c),
      (''source_path'', d), (''text'', e)] = [(''heading_path'', a), (''identity_schema'', b),
      (''source_id'', c), (''source_path'', d), (''text'', e)]" for a b c d e :: json
  proof (rule sort_key_id)
    have "sorted [''heading_path'', ''identity_schema'', ''source_id'', ''source_path'', ''text'']"
      by code_simp
    then show "sorted (map fst [(''heading_path'', a), (''identity_schema'', b),
      (''source_id'', c), (''source_path'', d), (''text'', e)])" by (simp only: list.map fst_conv)
  qed
  then show ?thesis
    by (simp add: canonical_chunk_identity_def identity_head_def json_dict_def)
qed

theorem built_artifact_audit_witness:
  "\<exists>a. build_artifact letter_hash DEFAULT_CONTRACT sample_manifest sample_markdown = Inr a
     \<and> distinct (map mc_chunk_id (ca_chunks a))"
proof -
  have "valid_contract DEFAULT_CONTRACT"
    by (simp add: valid_contract_def DEFAULT_CONTRACT_def)
  moreover have "inj_on letter_hash (set (identity_inputs sample_manifest sample_markdown []
      [\<lparr>cs_start = 0, cs_end = 21, cs_path = [[65]], cs_continuation = 0, cs_overlap = 0\<rparr>,
       \<lparr>cs_start = 21, cs_end = 31, cs_path = [[66]], cs_continuation = 0, cs_overlap = 0\<rparr>]))"
  proof -
    have "json_string (utf8_encode [65]) = [CHR 0x22, CHR ''A'', CHR 0x22]"
      "json_string (utf8_encode [66]) = [CHR 0x22, CHR ''B'', CHR 0x22]"
      by code_simp+
    then have heads: "length (identity_head i p [[65]]) = length (identity_head i p [[66]])" for i p
      by (simp add: identity_head_def)
    have texts: "length (json_string (utf8_encode (segment 0 21 sample_markdown))) = 27"
      "length (json_string (utf8_encode (segment 21 31 sample_markdown))) = 14"
      by code_simp+
    have ne: "(a + (40 + b)) mod 16 \<noteq> (a + (27 + b)) mod 16" for a b :: nat
    proof
      assume "(a + (40 + b)) mod 16 = (a + (27 + b)) mod 16"
      then have "16 dvd (a + (40 + b)) - (a + (27 + b))"
        by (subst (asm) mod_eq_dvd_iff_nat) simp_all
      then show False by simp
    qed
    let ?n = "length (identity_head (mf_source_id sample_manifest) (mf_path sample_manifest) [[66]])"
      and ?k = "length (show_nat 0)"
    have "length (identity_input (span_base sample_manifest sample_markdown
          \<lparr>cs_start = 0, cs_end = 21, cs_path = [[65]], cs_continuation = 0, cs_overlap = 0\<rparr>) 0)
        = ?n + (40 + ?k)"
      "length (identity_input (span_base sample_manifest sample_markdown
          \<lparr>cs_start = 21, cs_end = 31, cs_path = [[66]], cs_continuation = 0, cs_overlap = 0\<rparr>) 0)
        = ?n + (27 + ?k)"
      by (simp_all add: span_base_def identity_input_def canonical_identity_split heads texts)
    then have "letter_hash (identity_input (span_base sample_manifest sample_markdown
          \<lparr>cs_start = 0, cs_end = 21, cs_path = [[65]], cs_continuation = 0, cs_overlap = 0\<rparr>) 0)
        \<noteq> letter_hash (identity_input (span_base sample_manifest sample_markdown
          \<lparr>cs_start = 21, cs_end = 31, cs_path = [[66]], cs_continuation = 0, cs_overlap = 0\<rparr>) 0)"
      using ne letter_hash_length by metis
    then show ?thesis
      by (auto simp: inj_on_def)
  qed
  ultimately show ?thesis
    using built_artifact_audit [OF sample_parsed _ sample_manifest_valid, of DEFAULT_CONTRACT letter_hash]
      letter_hash_hex sample_spans by fastforce
qed


definition plain_char :: "char \<Rightarrow> bool" where
  "plain_char c \<longleftrightarrow> json_char c = [c] \<and> of_char c < (128 :: nat)"

lemma identity_count:
  assumes "list_all plain_char s"
  shows "count_b (canonical_chunk_identity i p [] (map cp s))
     = count_b (canonical_chunk_identity i p [] []) + count_b s"
proof -
  have "utf8_encode (map cp s) = s"
    using assms
    by (induction s) (auto simp: utf8_encode_def utf8_bytes_def cp_def plain_char_def)
  moreover have "concat (map json_char s) = s"
    using assms by (induction s) (auto simp: plain_char_def)
  ultimately show ?thesis
    by (simp add: canonical_identity_split json_string_def utf8_encode_def count_b_def)
qed

lemma inline_bases:
  "letter_hash (identity_input (canonical_chunk_identity i p [] (segment 0 101 inline_source)) 0)
     \<noteq> letter_hash (identity_input (canonical_chunk_identity i p [] (segment 1 102 inline_source)) 0)"
proof -
  have plain: "list_all plain_char (CHR ''a'' # fence_mark @ replicate 97 (CHR ''b''))"
    "list_all plain_char (fence_mark @ replicate 98 (CHR ''b''))"
    by (simp_all add: list_all_iff fence_mark_def plain_char_def json_char_def)
  have "segment 0 101 inline_source = map cp (CHR ''a'' # fence_mark @ replicate 97 (CHR ''b''))"
    "segment 1 102 inline_source = map cp (fence_mark @ replicate 98 (CHR ''b''))"
    by (simp_all add: segment_def inline_source_def fence_mark_def numeral_3_eq_3)
  moreover have "count_b (CHR ''a'' # fence_mark @ replicate 97 (CHR ''b'')) = 97"
    "count_b (fence_mark @ replicate 98 (CHR ''b'')) = 98"
    by (simp_all add: count_b_def fence_mark_def)
  ultimately have "count_b (canonical_chunk_identity i p [] (segment 1 102 inline_source))
      = count_b (canonical_chunk_identity i p [] (segment 0 101 inline_source)) + 1"
    using identity_count [OF plain(1), of i p] identity_count [OF plain(2), of i p] by simp
  moreover have "digit_char ((n + k) mod 16) \<noteq> digit_char ((Suc n + k) mod 16)" for n k
    by (simp add: digit_char_inject mod_Suc)
  ultimately show ?thesis
    by (simp add: letter_hash_def identity_input_def count_b_def)
qed

text \<open>C37: a line with three backticks in its middle makes the build fail.  The source is one line
  without a fence, and the builder cuts it into two overlapping chunks; the second one begins
  with the backticks, which the audit reads as a fence that is never closed, so \<open>build\<close> raises
  \<open>MarkdownChunkingError\<close> for a well-formed source.\<close>

theorem inline_backticks_rejected:
  "\<exists>a. parse_semantic_sections inline_source = Inr ([\<lparr>ss_start = 0, ss_end = 102, ss_path = []\<rparr>], [])
     \<and> build_artifact letter_hash tight_contract sample_manifest inline_source = Inr a
     \<and> audit_chunk_artifact inline_source a = Inl MarkdownChunkingErr"
proof -
  have contract: "valid_contract tight_contract"
    by (simp add: valid_contract_def tight_contract_def)
  have "inj_on letter_hash (set (identity_inputs sample_manifest inline_source []
      [\<lparr>cs_start = 0, cs_end = 101, cs_path = [], cs_continuation = 0, cs_overlap = 0\<rparr>,
       \<lparr>cs_start = 1, cs_end = 102, cs_path = [], cs_continuation = 1, cs_overlap = 100\<rparr>]))"
    using inline_bases [of "mf_source_id sample_manifest" "mf_path sample_manifest"]
    by (auto simp: span_base_def inj_on_def)
  then have "\<forall>spans. chunk_spans tight_contract inline_source = Inr spans
      \<longrightarrow> inj_on letter_hash (set (identity_inputs sample_manifest inline_source [] spans))"
    by (simp add: inline_spans)
  from audit_of_built [OF inline_parsed contract sample_manifest_valid _ this] letter_hash_hex
  obtain a where a: "build_artifact letter_hash tight_contract sample_manifest inline_source = Inr a"
    "\<forall>c \<in> set (ca_chunks a). mc_text c = segment (mc_start c) (mc_end c) inline_source"
    "map chunk_range (ca_chunks a) = [(0, 101), (1, 102)]"
    and audit: "if list_all (\<lambda>c. \<exists>r. parse_semantic_sections (mc_text c) = Inr r) (ca_chunks a)
        then \<exists>u. audit_chunk_artifact inline_source a = Inr u
               \<and> cu_covered_character_count u = length inline_source \<and> cu_gap_count u = 0
               \<and> cu_id_collision_count u = 0 \<and> cu_preserved_fence_count u = length ([] :: fence_span list)
        else audit_chunk_artifact inline_source a = Inl MarkdownChunkingErr"
    by (auto simp: inline_spans span_range_def)
  from a(3) obtain c where c: "c \<in> set (ca_chunks a)" "chunk_range c = (1, 102)"
    by (metis (no_types, lifting) image_iff image_set list.set_intros(1,2))
  with a(2) have "parse_semantic_sections (mc_text c) = Inl MarkdownChunkingErr"
    using inline_tail by (auto simp: chunk_range_def)
  with c(1) audit have "audit_chunk_artifact inline_source a = Inl MarkdownChunkingErr"
    by (auto simp: list_all_iff split: if_splits)
  with a(1) inline_parsed show ?thesis by blast
qed

end
