(* ===== verification/ReportTexts.thy ===== *)
theory ReportTexts
  imports RuleModels
begin

text \<open>
  The Chinese texts that reach a report, as lists of code points: \<open>summary\<close> and \<open>scope\<close> of the
  production rules (\<open>app/scanner/rule_models.py\<close>) and the frame of the template explanation
  (\<open>_template_explanation\<close> of \<open>app/reporting/builder.py\<close>).
\<close>

fun rule_summary :: "rule_id \<Rightarrow> source_text" where
  "rule_summary PYDANTIC_V1_CONFIG =
     [26816, 27979, 32, 66, 97, 115, 101, 77, 111, 100, 101, 108, 32, 31867, 20013, 30340, 32, 80,
      121, 100, 97, 110, 116, 105, 99, 32, 118, 49, 32, 37197, 32622, 31867, 21644, 26087, 37197,
      32622, 38190, 12290]"
| "rule_summary PYDANTIC_V1_VALIDATOR =
     [26816, 27979, 20855, 26377, 32, 80, 121, 100, 97, 110, 116, 105, 99, 32, 105, 109, 112, 111,
      114, 116, 32, 112, 114, 111, 118, 101, 110, 97, 110, 99, 101, 32, 30340, 32, 118, 49, 32,
      39564, 35777, 22120, 35013, 39280, 22120, 12290]"
| "rule_summary PYDANTIC_V1_SETTINGS =
     [26816, 27979, 20173, 20174, 32, 112, 121, 100, 97, 110, 116, 105, 99, 32, 20351, 29992, 32,
      66, 97, 115, 101, 83, 101, 116, 116, 105, 110, 103, 115, 32, 30340, 32, 118, 49, 32, 36335,
      24452, 12290]"
| "rule_summary PYDANTIC_V1_ROOT_MODEL =
     [26816, 27979, 32, 66, 97, 115, 101, 77, 111, 100, 101, 108, 32, 31867, 30452, 25509, 31867,
      20307, 20013, 30340, 32, 118, 49, 32, 95, 95, 114, 111, 111, 116, 95, 95, 32, 23383, 27573,
      12290]"
| "rule_summary PYDANTIC_V1_BASE_MODEL_METHOD =
     [26816, 27979, 25509, 25910, 32773, 21487, 38745, 24577, 35777, 26126, 20026, 32, 66, 97,
      115, 101, 77, 111, 100, 101, 108, 32, 30340, 32, 118, 49, 32, 26041, 27861, 35843, 29992,
      12290]"
| "rule_summary PYDANTIC_V1_DATA_LOADING =
     [26816, 27979, 25509, 25910, 32773, 21487, 35777, 26126, 20026, 32, 66, 97, 115, 101, 77,
      111, 100, 101, 108, 32, 30340, 32, 118, 49, 32, 25968, 25454, 21152, 36733, 35843, 29992,
      12290]"
| "rule_summary PYDANTIC_V1_FIELD =
     [26816, 27979, 20855, 26377, 32, 80, 121, 100, 97, 110, 116, 105, 99, 32, 112, 114, 111, 118,
      101, 110, 97, 110, 99, 101, 32, 30340, 26087, 32, 70, 105, 101, 108, 100, 32, 20851, 38190,
      23383, 21442, 25968, 12290]"
| "rule_summary PYDANTIC_V1_GENERIC_MODEL =
     [26816, 27979, 32, 99, 97, 110, 111, 110, 105, 99, 97, 108, 32, 112, 121, 100, 97, 110, 116,
      105, 99, 46, 103, 101, 110, 101, 114, 105, 99, 115, 46, 71, 101, 110, 101, 114, 105, 99, 77,
      111, 100, 101, 108, 32, 20351, 29992, 12290]"

fun rule_scope :: "rule_id \<Rightarrow> source_text" where
  "rule_scope PYDANTIC_V1_CONFIG =
     [20165, 22788, 29702, 24403, 21069, 25991, 20214, 20869, 24050, 35777, 26126, 30340, 32, 66,
      97, 115, 101, 77, 111, 100, 101, 108, 32, 31867, 30452, 25509, 32, 67, 111, 110, 102, 105,
      103, 32, 20307, 21450, 20923, 32467, 26087, 38190, 12290]"
| "rule_scope PYDANTIC_V1_VALIDATOR =
     [20165, 22788, 29702, 24403, 21069, 25991, 20214, 20869, 26410, 34987, 36974, 34109, 25110,
      37325, 32465, 23450, 30340, 32, 100, 101, 99, 111, 114, 97, 116, 111, 114, 32, 114, 101,
      102, 101, 114, 101, 110, 99, 101, 12290]"
| "rule_scope PYDANTIC_V1_SETTINGS =
     [20165, 22788, 29702, 21487, 35777, 26126, 30340, 32, 100, 105, 114, 101, 99, 116, 32, 105,
      109, 112, 111, 114, 116, 32, 25110, 26410, 36974, 34109, 32, 109, 111, 100, 117, 108, 101,
      32, 114, 101, 102, 101, 114, 101, 110, 99, 101, 12290]"
| "rule_scope PYDANTIC_V1_ROOT_MODEL =
     [20165, 22788, 29702, 24403, 21069, 25991, 20214, 20869, 24050, 35777, 26126, 32, 66, 97,
      115, 101, 77, 111, 100, 101, 108, 32, 31867, 30340, 30452, 25509, 32, 78, 97, 109, 101, 32,
      116, 97, 114, 103, 101, 116, 12290]"
| "rule_scope PYDANTIC_V1_BASE_MODEL_METHOD =
     [21482, 20351, 29992, 24403, 21069, 25991, 20214, 27973, 23618, 32, 114, 101, 99, 101, 105,
      118, 101, 114, 32, 112, 114, 111, 111, 102, 65307, 19981, 29468, 27979, 26410, 30693, 32,
      102, 97, 99, 116, 111, 114, 121, 32, 25110, 36328, 25991, 20214, 31867, 22411, 12290]"
| "rule_scope PYDANTIC_V1_DATA_LOADING =
     [21482, 22788, 29702, 32, 112, 97, 114, 115, 101, 95, 114, 97, 119, 12289, 112, 97, 114, 115,
      101, 95, 102, 105, 108, 101, 12289, 102, 114, 111, 109, 95, 111, 114, 109, 32, 30340, 24403,
      21069, 25991, 20214, 27973, 23618, 32, 114, 101, 99, 101, 105, 118, 101, 114, 32, 112, 114,
      111, 111, 102, 12290]"
| "rule_scope PYDANTIC_V1_FIELD =
     [36880, 20010, 22788, 29702, 20923, 32467, 26087, 20851, 38190, 23383, 21644, 26174, 24335,
      32, 115, 99, 104, 101, 109, 97, 45, 101, 120, 116, 114, 97, 65307, 19981, 23637, 24320,
      21160, 24577, 32, 42, 42, 107, 119, 97, 114, 103, 115, 12290]"
| "rule_scope PYDANTIC_V1_GENERIC_MODEL =
     [20165, 22788, 29702, 21487, 35777, 26126, 30340, 32, 100, 105, 114, 101, 99, 116, 32, 105,
      109, 112, 111, 114, 116, 32, 25110, 32, 99, 108, 97, 115, 115, 32, 98, 97, 115, 101, 65292,
      19981, 24314, 31435, 23436, 25972, 27867, 22411, 31867, 22411, 31995, 32479, 12290]"

definition detected_text :: source_text where
  "detected_text =
     [26816, 27979, 21040, 26087, 32, 65, 80, 73, 32, 96]"

definition fallback_text :: source_text where
  "fallback_text =
     [96, 12290, 24403, 21069, 26410, 25552, 20379, 26410, 32463, 39564, 35777, 30340, 27169,
      22411, 36801, 31227, 35828, 26126, 65292, 35831, 32467, 21512, 24050, 22266, 23450, 30340,
      23448, 26041, 25991, 26723, 20154, 24037, 30830, 35748, 12290]"

text \<open>The code points of a string of the model.\<close>

definition code_points :: "string \<Rightarrow> source_text" where
  "code_points s = map of_char s"

lemma rule_texts_short: "length (rule_summary r) \<le> 64" "length (rule_scope r) \<le> 64"
  by (cases r; simp)+

end
