(* ===== verification/ReportModels.thy ===== *)
theory ReportModels
  imports AgentGroups
begin

text \<open>
  \<open>app/reporting/models.py\<close>: the records of the citation guard and of the final report, each
  with the checks of its constructor.

  \<open>ReportValidationErr\<close> is pydantic's \<open>ValidationError\<close>, \<open>ReportLookupErr\<close> a failed
  lookup (\<open>KeyError\<close>, \<open>StopIteration\<close>, a \<open>zip\<close> of unequal lengths or an unknown rule),
  \<open>ReportClientErr\<close> an exception of the model client that the builder does not catch.
\<close>

datatype report_exn = ReportValidationErr | ReportLookupErr | ReportClientErr

definition MAX_REPORT_CITATIONS :: nat where "MAX_REPORT_CITATIONS = 40"
definition MAX_CITATION_VALIDATION_ITEMS :: nat where "MAX_CITATION_VALIDATION_ITEMS = 80"
definition MAX_REPORT_HUMAN_REVIEW_ITEMS :: nat where "MAX_REPORT_HUMAN_REVIEW_ITEMS = 700"

lemmas report_limits = MAX_REPORT_CITATIONS_def MAX_CITATION_VALIDATION_ITEMS_def
  MAX_REPORT_HUMAN_REVIEW_ITEMS_def

datatype citation_error_type =
    TRUSTED_SOURCE_INVALID | NO_CANDIDATE | FORGED_CHUNK_ID | CROSS_ANALYSIS_CHUNK
  | UNKNOWN_GROUP | UNKNOWN_FINDING | FINDING_GROUP_MISMATCH | DUPLICATE_CITATION
  | URL_MISMATCH | REF_MISMATCH | COMMIT_MISMATCH | HEADING_MISMATCH | CONTENT_HASH_MISMATCH
  | SOURCE_HASH_MISMATCH | SOURCE_IDENTITY_MISMATCH | TEXT_MISMATCH | RULE_MISMATCH
  | QUERY_BINDING_MISSING | QUERY_BINDING_MISMATCH | KEYWORD_MISMATCH

fun citation_error_value :: "citation_error_type \<Rightarrow> string" where
  "citation_error_value TRUSTED_SOURCE_INVALID = ''trusted_source_invalid''"
| "citation_error_value NO_CANDIDATE = ''no_candidate''"
| "citation_error_value FORGED_CHUNK_ID = ''forged_chunk_id''"
| "citation_error_value CROSS_ANALYSIS_CHUNK = ''cross_analysis_chunk''"
| "citation_error_value UNKNOWN_GROUP = ''unknown_group''"
| "citation_error_value UNKNOWN_FINDING = ''unknown_finding''"
| "citation_error_value FINDING_GROUP_MISMATCH = ''finding_group_mismatch''"
| "citation_error_value DUPLICATE_CITATION = ''duplicate_citation''"
| "citation_error_value URL_MISMATCH = ''url_mismatch''"
| "citation_error_value REF_MISMATCH = ''ref_mismatch''"
| "citation_error_value COMMIT_MISMATCH = ''commit_mismatch''"
| "citation_error_value HEADING_MISMATCH = ''heading_mismatch''"
| "citation_error_value CONTENT_HASH_MISMATCH = ''content_hash_mismatch''"
| "citation_error_value SOURCE_HASH_MISMATCH = ''source_hash_mismatch''"
| "citation_error_value SOURCE_IDENTITY_MISMATCH = ''source_identity_mismatch''"
| "citation_error_value TEXT_MISMATCH = ''text_mismatch''"
| "citation_error_value RULE_MISMATCH = ''rule_mismatch''"
| "citation_error_value QUERY_BINDING_MISSING = ''query_binding_missing''"
| "citation_error_value QUERY_BINDING_MISMATCH = ''query_binding_mismatch''"
| "citation_error_value KEYWORD_MISMATCH = ''keyword_mismatch''"

section \<open>The citation guard\<close>

text \<open>\<open>ValidatedCitation\<close>; its validity and support status are constants.\<close>

record citation =
  ci_analysis_id :: string
  ci_group_id :: string
  ci_finding_ids :: "string list"
  ci_rule_id :: rule_id
  ci_chunk :: provenance

definition ci_chunk_id :: "citation \<Rightarrow> string" where
  "ci_chunk_id c = pv_chunk_id (ci_chunk c)"

definition make_citation :: "citation \<Rightarrow> report_exn + citation" where
  "make_citation c =
     (let p = ci_chunk c
      in if 1 \<le> length (ci_analysis_id c) \<and> length (ci_analysis_id c) \<le> 128
            \<and> is_sha256_id (ci_group_id c) \<and> ci_finding_ids c \<noteq> []
            \<and> is_sha256_id (pv_chunk_id p) \<and> pv_source_id p \<noteq> [] \<and> pv_source_url p \<noteq> []
            \<and> pv_git_ref p \<noteq> [] \<and> is_commit (pv_commit_sha p) \<and> pv_source_path p \<noteq> []
            \<and> is_digest (pv_content_sha256 p) \<and> is_digest (pv_snapshot_sha256 p)
            \<and> sort (ci_finding_ids c) = ci_finding_ids c \<and> distinct (ci_finding_ids c)
         then Inr c else Inl ReportValidationErr)"

record validation_item =
  vi_analysis_id :: string
  vi_group_id :: "string option"
  vi_finding_ids :: "string list"
  vi_chunk_id :: "string option"
  vi_valid :: bool
  vi_error :: "citation_error_type option"
  vi_retry :: bool

definition make_item :: "validation_item \<Rightarrow> report_exn + validation_item" where
  "make_item i =
     (if 1 \<le> length (vi_analysis_id i) \<and> length (vi_analysis_id i) \<le> 128
         \<and> optional_id (vi_group_id i) \<and> optional_id (vi_chunk_id i)
         \<and> distinct (vi_finding_ids i)
         \<and> (if vi_valid i then vi_error i = None \<and> \<not> vi_retry i else vi_error i \<noteq> None)
      then Inr i else Inl ReportValidationErr)"

record guard_result =
  gd_analysis_id :: string
  gd_trust :: bool
  gd_allowlist :: "string list"
  gd_citations :: "citation list"
  gd_items :: "validation_item list"

definition citation_key :: "citation \<Rightarrow> string \<times> string \<times> string list" where
  "citation_key c = (ci_group_id c, ci_chunk_id c, ci_finding_ids c)"

definition make_guard_result :: "guard_result \<Rightarrow> report_exn + guard_result" where
  "make_guard_result r =
     (let keys = map citation_key (gd_citations r)
      in if 1 \<le> length (gd_analysis_id r) \<and> length (gd_analysis_id r) \<le> 128
            \<and> length (gd_citations r) \<le> MAX_REPORT_CITATIONS
            \<and> length (gd_items r) \<le> MAX_CITATION_VALIDATION_ITEMS
            \<and> sort (gd_allowlist r) = gd_allowlist r \<and> distinct (gd_allowlist r)
            \<and> list_all (\<lambda>c. ci_chunk_id c \<in> set (gd_allowlist r)) (gd_citations r)
            \<and> sort keys = keys \<and> distinct keys
            \<and> list_all (\<lambda>c. ci_analysis_id c = gd_analysis_id r) (gd_citations r)
            \<and> list_all (\<lambda>i. vi_analysis_id i = gd_analysis_id r) (gd_items r)
            \<and> \<not> (\<not> gd_trust r \<and> gd_citations r \<noteq> [])
         then Inr r else Inl ReportValidationErr)"

section \<open>The report\<close>

datatype explanation_source = AGENT_CANDIDATE | TEMPLATE_FALLBACK

datatype citation_status = CITATION_VALID | CITATION_UNAVAILABLE

text \<open>The text of an explanation is a list of code points: the templates are Chinese.\<close>

record report_explanation =
  re_source :: explanation_source
  re_text :: source_text
  re_model :: "string option"

definition make_report_explanation :: "report_explanation \<Rightarrow> report_exn + report_explanation" where
  "make_report_explanation e =
     (if 1 \<le> length (re_text e) \<and> length (re_text e) \<le> 1200
         \<and> (case re_model e of None \<Rightarrow> True | Some m \<Rightarrow> 1 \<le> length m \<and> length m \<le> 128)
         \<and> (re_source e = AGENT_CANDIDATE) = (re_model e \<noteq> None)
      then Inr e else Inl ReportValidationErr)"

record report_finding =
  rf_finding_id :: string
  rf_finding :: finding
  rf_explanation :: report_explanation
  rf_citations :: "citation list"
  rf_status :: citation_status

definition make_report_finding ::
  "(string \<Rightarrow> string) \<Rightarrow> report_finding \<Rightarrow> report_exn + report_finding" where
  "make_report_finding digest f =
     (let ids = map ci_chunk_id (rf_citations f)
      in if is_sha256_id (rf_finding_id f) \<and> length (rf_citations f) \<le> 5
            \<and> rf_finding_id f = finding_identity digest (rf_finding f)
            \<and> list_all (\<lambda>c. rf_finding_id f \<in> set (ci_finding_ids c)) (rf_citations f)
            \<and> list_all (\<lambda>c. ci_rule_id c = fd_rule_id (rf_finding f)) (rf_citations f)
            \<and> sort ids = ids \<and> distinct ids
            \<and> rf_status f = (if rf_citations f = [] then CITATION_UNAVAILABLE else CITATION_VALID)
         then Inr f else Inl ReportValidationErr)"

text \<open>The language of a report is a constant, and its limitations are three distinct texts.\<close>

record final_report =
  fr_analysis_id :: string
  fr_status :: terminal_status
  fr_degraded :: "degraded_reason option"
  fr_summary :: repository_summary
  fr_findings :: "report_finding list"
  fr_importers :: "one_hop_importer list"
  fr_retry_count :: nat
  fr_validation :: "validation_item list"
  fr_human :: "human_item list"

definition make_final_report :: "final_report \<Rightarrow> report_exn + final_report" where
  "make_final_report r =
     (let ids = map rf_finding_id (fr_findings r); findings = map rf_finding (fr_findings r)
      in if 1 \<le> length (fr_analysis_id r) \<and> length (fr_analysis_id r) \<le> 128
            \<and> fr_retry_count r \<le> 1
            \<and> length (fr_validation r) \<le> MAX_CITATION_VALIDATION_ITEMS
            \<and> length (fr_human r) \<le> MAX_REPORT_HUMAN_REVIEW_ITEMS
            \<and> sort_key finding_sort_key findings = findings \<and> distinct ids
            \<and> su_direct_finding_count (fr_summary r) = length (fr_findings r)
            \<and> su_directly_affected_files (fr_summary r) = card (set (map fd_path findings))
            \<and> sort_key importer_key (fr_importers r) = fr_importers r \<and> distinct (fr_importers r)
            \<and> su_one_hop_dependent_files (fr_summary r)
                = card (set (map oh_importer_path (fr_importers r)))
            \<and> list_all (\<lambda>f. list_all (\<lambda>c. ci_analysis_id c = fr_analysis_id r) (rf_citations f))
                (fr_findings r)
            \<and> (fr_status r = RUN_COMPLETED) = (fr_degraded r = None)
            \<and> list_all (\<lambda>h. set (hi_finding_ids h) \<subseteq> set ids) (fr_human r)
         then Inr r else Inl ReportValidationErr)"

end
