(* ===== verification/CitationGuard.thy ===== *)
theory CitationGuard
  imports ReportModels AgentGraph MarkdownChunks
begin

text \<open>
  \<open>app/reporting/citation.py\<close>: the citation guard.  A trusted chunk is its provenance with the
  whole text, as in the retrieval theories; the guard keeps them by id (the last one wins).
\<close>

section \<open>The trusted bundle\<close>

text \<open>\<open>_validate_trusted_bundle\<close> and \<open>from_repository\<close>: the source is read by \<open>read_file\<close>,
  the manifest and the artifact are what their readers return.\<close>

definition validate_trusted_bundle ::
  "(string \<Rightarrow> string) \<Rightarrow> (byte list \<Rightarrow> string) \<Rightarrow> manifest \<Rightarrow> chunk_artifact \<Rightarrow> byte list
     \<Rightarrow> source_text \<Rightarrow> chunk_exn + unit" where
  "validate_trusted_bundle digest sha m a bytes source =
     (let am = ca_manifest a
      in bindE (raise_if (mf_source_url m \<noteq> expected_source_url m
                  \<or> mf_source_id am \<noteq> mf_source_id m \<or> mf_source_url am \<noteq> mf_source_url m
                  \<or> mf_git_ref am \<noteq> mf_git_ref m \<or> mf_commit am \<noteq> mf_commit m
                  \<or> mf_path am \<noteq> mf_path m
                  \<or> mf_snapshot_path am \<noteq> mf_snapshot_path m
                  \<or> mf_sha256 am \<noteq> mf_sha256 m \<or> mf_byte_length am \<noteq> mf_byte_length m
                  \<or> sha bytes \<noteq> mf_sha256 m \<or> length bytes \<noteq> mf_byte_length m) ChunkSourceErr) (\<lambda>_.
         bindE (audit_chunk_artifact source a) (\<lambda>_.
           raise_if (\<not> list_all (\<lambda>c. mc_chunk_id c = calculate_chunk_id digest (mc_source_id c)
                        (mc_source_path c) (mc_path c) (mc_text c) (mc_occurrence c)) (ca_chunks a))
             ChunkSourceErr)))"

record citation_guard =
  cg_trusted :: "provenance list"
  cg_available :: bool

text \<open>
  The chunk of an artifact as a trusted chunk.  The chunker works on all code points, the guard
  on the strings of \<open>PyText\<close>; a chunk with a character beyond U+00FF has no such string, so
  the conversion is partial and \<^const>\<open>None\<close> marks an artifact outside the model (not an outcome
  of the code).
\<close>

definition as_text :: "source_text \<Rightarrow> string option" where
  "as_text s = (if \<forall>c \<in> set s. c < 256 then Some (map char_of s) else None)"

definition trusted_of :: "markdown_chunk \<Rightarrow> provenance option" where
  "trusted_of c =
     (case (those (map as_text (mc_path c)), as_text (mc_text c)) of
        (Some path, Some txt) \<Rightarrow>
          Some \<lparr>pv_chunk_id = mc_chunk_id c, pv_heading_path = path, pv_text = txt,
            pv_content_sha256 = mc_content_sha256 c, pv_source_id = mc_source_id c,
            pv_source_url = mc_source_url c, pv_git_ref = mc_git_ref c,
            pv_commit_sha = mc_commit c, pv_source_path = mc_source_path c,
            pv_snapshot_sha256 = mc_snapshot_sha256 c\<rparr>
      | _ \<Rightarrow> None)"

definition from_repository ::
  "(string \<Rightarrow> string) \<Rightarrow> (byte list \<Rightarrow> string) \<Rightarrow> manifest option \<Rightarrow> chunk_artifact option
     \<Rightarrow> (string \<Rightarrow> byte list option) \<Rightarrow> citation_guard option" where
  "from_repository digest sha stored artifact read_file =
     (let unavailable = Some \<lparr>cg_trusted = [], cg_available = False\<rparr>
      in case (stored, artifact) of
           (Some m, Some a) \<Rightarrow>
             (case read_file (mf_snapshot_path m) of
                None \<Rightarrow> unavailable
              | Some bytes \<Rightarrow>
                  (case utf8_decode bytes of
                     None \<Rightarrow> unavailable
                   | Some source \<Rightarrow>
                       (case validate_trusted_bundle digest sha m a bytes source of
                          Inl _ \<Rightarrow> unavailable
                        | Inr _ \<Rightarrow>
                            map_option (\<lambda>ts. \<lparr>cg_trusted = ts, cg_available = True\<rparr>)
                              (those (map trusted_of (ca_chunks a))))))
         | _ \<Rightarrow> unavailable)"

definition trusted_chunk :: "citation_guard \<Rightarrow> string \<Rightarrow> provenance option" where
  "trusted_chunk g i = map_of (rev (map (\<lambda>p. (pv_chunk_id p, p)) (cg_trusted g))) i"

section \<open>Parts of the validation\<close>

definition retrieved_provenance_error :: "doc_chunk \<Rightarrow> provenance \<Rightarrow> citation_error_type option" where
  "retrieved_provenance_error c t =
     (let r = hs_provenance (oc_result c)
      in if pv_source_id r \<noteq> pv_source_id t \<or> pv_source_path r \<noteq> pv_source_path t
         then Some SOURCE_IDENTITY_MISMATCH
         else if pv_source_url r \<noteq> pv_source_url t then Some URL_MISMATCH
         else if pv_git_ref r \<noteq> pv_git_ref t then Some REF_MISMATCH
         else if pv_commit_sha r \<noteq> pv_commit_sha t then Some COMMIT_MISMATCH
         else if pv_heading_path r \<noteq> pv_heading_path t then Some HEADING_MISMATCH
         else if pv_content_sha256 r \<noteq> pv_content_sha256 t then Some CONTENT_HASH_MISMATCH
         else if pv_snapshot_sha256 r \<noteq> pv_snapshot_sha256 t then Some SOURCE_HASH_MISMATCH
         else if oc_full_text_characters c \<noteq> length (pv_text t)
                 \<or> oc_text c \<noteq> take (length (oc_text c)) (pv_text t)
                 \<or> oc_text_truncated c \<noteq> (length (oc_text c) < length (pv_text t))
         then Some TEXT_MISMATCH
         else None)"

definition expected_rule_terms :: "finding list \<Rightarrow> report_exn + string list" where
  "expected_rule_terms fs =
     (case fs of
        [] \<Rightarrow> Inl ReportLookupErr
      | f # _ \<Rightarrow>
          (case get_rule_spec (fd_rule_id f) of
             Inl _ \<Rightarrow> Inl ReportLookupErr
           | Inr spec \<Rightarrow>
               (let rv = rule_id_value (fd_rule_id f); cv = category_value (spec_category spec)
                in Inr (map casefold (filter (\<lambda>t. t \<noteq> [])
                     ([rv, remove_prefix ''pydantic_v1_'' rv, cv,
                       replace_char (CHR ''_'') (CHR '' '') cv]
                      @ spec_old_apis spec @ map fd_old_api fs))))))"

definition invalid_item ::
  "string \<Rightarrow> citation_error_type \<Rightarrow> string option \<Rightarrow> string list \<Rightarrow> string option \<Rightarrow> bool
     \<Rightarrow> report_exn + validation_item" where
  "invalid_item analysis_id err gid ids chunk retry =
     make_item \<lparr>vi_analysis_id = analysis_id, vi_group_id = gid, vi_finding_ids = ids,
       vi_chunk_id = chunk, vi_valid = False, vi_error = Some err, vi_retry = retry\<rparr>"

definition candidate_error ::
  "run_result \<Rightarrow> doc_candidate \<Rightarrow> citation_error_type \<Rightarrow> bool
     \<Rightarrow> report_exn + validation_item \<times> citation option" where
  "candidate_error r c err retry =
     bindE (invalid_item (rr_analysis_id r) err (Some (dc_group_id c))
              (sort (remdups (dc_finding_ids c))) (Some (dc_chunk_id c)) retry) (\<lambda>i.
       Inr (i, None))"

definition item_sort_key :: "validation_item \<Rightarrow> string \<times> string \<times> string \<times> string" where
  "item_sort_key i =
     (case vi_group_id i of None \<Rightarrow> [] | Some g \<Rightarrow> g,
      case vi_chunk_id i of None \<Rightarrow> [] | Some c \<Rightarrow> c,
      case vi_error i of None \<Rightarrow> [] | Some e \<Rightarrow> citation_error_value e,
      join '','' (vi_finding_ids i))"

definition trusted_source_failure_items :: "run_result \<Rightarrow> report_exn + validation_item list" where
  "trusted_source_failure_items r =
     traverseE (\<lambda>g. invalid_item (rr_analysis_id r) TRUSTED_SOURCE_INVALID (Some (ag_group_id g))
                      (ag_finding_ids g) None False) (rr_groups r)"

text \<open>The first loop of \<open>validate\<close>: the two dicts after one retrieved chunk.\<close>

definition classify_retrieved ::
  "citation_guard \<Rightarrow> doc_chunk
     \<Rightarrow> (string \<times> doc_chunk) list \<times> (string \<times> citation_error_type) list
     \<Rightarrow> (string \<times> doc_chunk) list \<times> (string \<times> citation_error_type) list" where
  "classify_retrieved g c = (\<lambda>(current, errors).
     case trusted_chunk g (oc_chunk_id c) of
       None \<Rightarrow> (current, dict_store (oc_chunk_id c) SOURCE_IDENTITY_MISMATCH errors)
     | Some t \<Rightarrow>
         (case retrieved_provenance_error c t of
            None \<Rightarrow> (dict_store (oc_chunk_id c) c current, errors)
          | Some e \<Rightarrow> (current, dict_store (oc_chunk_id c) e errors)))"

section \<open>One candidate\<close>

definition sole_binding ::
  "run_result \<Rightarrow> ambiguous_group \<Rightarrow> string \<Rightarrow> retrieval_binding list" where
  "sole_binding r g chunk_id =
     filter (\<lambda>b. rb_group_id b = ag_group_id g \<and> chunk_id \<in> set (rb_chunk_ids b)) (rr_bindings r)"

text \<open>The checks after the chunk is known to be current, for the findings of the group.\<close>

definition bound_citation ::
  "citation_guard \<Rightarrow> run_result \<Rightarrow> doc_candidate \<Rightarrow> ambiguous_group \<Rightarrow> finding list
     \<Rightarrow> report_exn + validation_item \<times> citation option" where
  "bound_citation g r c grp findings =
     (case sole_binding r grp (dc_chunk_id c) of
        [] \<Rightarrow> candidate_error r c QUERY_BINDING_MISSING False
      | b # bs \<Rightarrow>
          if bs \<noteq> [] \<or> rb_rule_id b \<noteq> ag_rule_id grp \<or> rb_finding_ids b \<noteq> ag_finding_ids grp
          then candidate_error r c QUERY_BINDING_MISMATCH False
          else bindE (expected_rule_terms findings) (\<lambda>terms.
            if rb_matched_terms b = []
               \<or> \<not> list_all (\<lambda>t. casefold t \<in> set terms) (rb_matched_terms b)
            then candidate_error r c QUERY_BINDING_MISMATCH False
            else (case trusted_chunk g (dc_chunk_id c) of
                    None \<Rightarrow> Inl ReportLookupErr
                  | Some t \<Rightarrow>
                      if \<not> list_ex (\<lambda>w. sublist w (casefold (pv_text t))) terms
                      then candidate_error r c KEYWORD_MISMATCH True
                      else bindE (make_citation
                             \<lparr>ci_analysis_id = rr_analysis_id r, ci_group_id = ag_group_id grp,
                              ci_finding_ids = ag_finding_ids grp, ci_rule_id = ag_rule_id grp,
                              ci_chunk = t\<rparr>) (\<lambda>citation.
                           bindE (make_item
                             \<lparr>vi_analysis_id = rr_analysis_id r, vi_group_id = Some (ag_group_id grp),
                              vi_finding_ids = ag_finding_ids grp, vi_chunk_id = Some (pv_chunk_id t),
                              vi_valid = True, vi_error = None, vi_retry = False\<rparr>) (\<lambda>i.
                             Inr (i, Some citation))))))"

definition group_with_id :: "run_result \<Rightarrow> string \<Rightarrow> ambiguous_group option" where
  "group_with_id r i = map_of (rev (map (\<lambda>g. (ag_group_id g, g)) (rr_groups r))) i"

definition finding_with_id :: "run_result \<Rightarrow> string \<Rightarrow> finding option" where
  "finding_with_id r i = map_of (rev (zip (rr_finding_ids r) (rr_findings r))) i"

definition group_findings :: "run_result \<Rightarrow> ambiguous_group \<Rightarrow> report_exn + finding list" where
  "group_findings r g =
     (if length (rr_finding_ids r) \<noteq> length (rr_findings r) then Inl ReportLookupErr
      else traverseE (\<lambda>i. case finding_with_id r i of
                            None \<Rightarrow> Inl ReportLookupErr | Some f \<Rightarrow> Inr f) (ag_finding_ids g))"

definition validate_candidate ::
  "citation_guard \<Rightarrow> run_result \<Rightarrow> (string \<times> doc_chunk) list \<Rightarrow> (string \<times> citation_error_type) list
     \<Rightarrow> bool \<Rightarrow> doc_candidate \<Rightarrow> report_exn + validation_item \<times> citation option" where
  "validate_candidate g r current errors duplicate c =
     (if dc_analysis_id c \<noteq> rr_analysis_id r then candidate_error r c CROSS_ANALYSIS_CHUNK False
      else case group_with_id r (dc_group_id c) of
          None \<Rightarrow> candidate_error r c UNKNOWN_GROUP False
        | Some grp \<Rightarrow>
            if \<not> set (dc_finding_ids c) \<subseteq> set (rr_finding_ids r)
            then candidate_error r c UNKNOWN_FINDING False
            else if dc_finding_ids c \<noteq> ag_finding_ids grp
            then candidate_error r c FINDING_GROUP_MISMATCH False
            else bindE (group_findings r grp) (\<lambda>findings.
              if \<not> list_all (\<lambda>f. fd_rule_id f = ag_rule_id grp) findings
              then candidate_error r c RULE_MISMATCH False
              else if duplicate then candidate_error r c DUPLICATE_CITATION False
              else if dc_chunk_id c \<notin> set (map fst current)
              then (case map_of errors (dc_chunk_id c) of
                      Some e \<Rightarrow> candidate_error r c e False
                    | None \<Rightarrow>
                        if trusted_chunk g (dc_chunk_id c) \<noteq> None
                        then candidate_error r c CROSS_ANALYSIS_CHUNK False
                        else candidate_error r c FORGED_CHUNK_ID True)
              else bound_citation g r c grp findings))"

section \<open>The guard\<close>

definition candidate_key :: "doc_candidate \<Rightarrow> string \<times> string \<times> string" where
  "candidate_key c = (dc_analysis_id c, dc_group_id c, dc_chunk_id c)"

definition duplicate_in :: "doc_candidate list \<Rightarrow> doc_candidate \<Rightarrow> bool" where
  "duplicate_in cs c \<longleftrightarrow> 1 < count_list (map candidate_key cs) (candidate_key c)"

definition guard_validate :: "citation_guard \<Rightarrow> run_result \<Rightarrow> report_exn + guard_result" where
  "guard_validate g r =
     (if \<not> cg_available g
      then bindE (trusted_source_failure_items r) (\<lambda>items.
        make_guard_result \<lparr>gd_analysis_id = rr_analysis_id r, gd_trust = False, gd_allowlist = [],
          gd_citations = [], gd_items = items\<rparr>)
      else
        (case fold (classify_retrieved g) (rr_chunks r) ([], []) of (current, errors) \<Rightarrow>
           (let candidates = df_doc_candidates (rr_draft r)
            in bindE (traverseE (\<lambda>c. validate_candidate g r current errors
                                       (duplicate_in candidates c) c) candidates) (\<lambda>checked.
               bindE (traverseE (\<lambda>grp. invalid_item (rr_analysis_id r) NO_CANDIDATE
                                   (Some (ag_group_id grp)) (ag_finding_ids grp) None True)
                        (filter (\<lambda>grp. ag_group_id grp \<notin> set (map dc_group_id candidates))
                          (rr_groups r))) (\<lambda>missing.
               bindE (traverseE (\<lambda>(i, e). invalid_item (rr_analysis_id r) e None [] (Some i) False)
                        (filter (\<lambda>(i, e). i \<notin> set (map dc_chunk_id candidates)) errors)) (\<lambda>unused.
                 make_guard_result
                   \<lparr>gd_analysis_id = rr_analysis_id r, gd_trust = True,
                    gd_allowlist = sort (map fst current),
                    gd_citations = sort_key citation_key (List.map_filter snd checked),
                    gd_items = sort_key item_sort_key (map fst checked @ missing @ unused)\<rparr>))))))"

end
