(* ===== verification/ReportBuilder.thy ===== *)
theory ReportBuilder
  imports ReportTexts CitationGuard
begin

text \<open>
  \<open>app/reporting/builder.py\<close>: the final report.  The model client and the JSON reader are the
  function \<open>bc_complete\<close>, from the request to what came of it: a failure that \<open>_retry_once\<close>
  catches, an exception it does not, or the selection in the answer; \<^const>\<open>None\<close> instead of a
  function is a builder without a client.
\<close>

section \<open>Explanations\<close>

text \<open>\<open>pattern.search\<close>: \<open>matches\<close> holds of some suffix of the text.\<close>

definition found_in :: "(string \<Rightarrow> bool) \<Rightarrow> string \<Rightarrow> bool" where
  "found_in matches s \<longleftrightarrow> list_ex (\<lambda>k. matches (drop k s)) [0..<Suc (length s)]"

definition match_traceback :: "string \<Rightarrow> bool" where
  "match_traceback s \<longleftrightarrow> prefix ''Traceback (most recent call last)'' s"

definition match_secret :: "string \<Rightarrow> bool" where
  "match_secret s \<longleftrightarrow>
     (let l = map lower_char s
      in list_ex (\<lambda>w. prefix w l
             \<and> (case dropWhile is_space (drop (length w) l) of
                  [] \<Rightarrow> False | c # _ \<Rightarrow> c = CHR '':'' \<or> c = CHR ''=''))
           [''api_key'', ''api-key'', ''apikey'', ''token'', ''secret''])"

definition is_key_char :: "char \<Rightarrow> bool" where
  "is_key_char c \<longleftrightarrow> c \<in> set ''abcdefghijklmnopqrstuvwxyz0123456789_-''"

definition match_api_key :: "string \<Rightarrow> bool" where
  "match_api_key s \<longleftrightarrow>
     (let l = map lower_char s
      in prefix ''sk-'' l \<and> 8 \<le> length (takeWhile is_key_char (drop 3 l)))"

definition match_local_path :: "string \<Rightarrow> bool" where
  "match_local_path s \<longleftrightarrow>
     (let l = map lower_char s
      in (case l of
            a # b # c # _ \<Rightarrow> a \<in> set ''abcdefghijklmnopqrstuvwxyz'' \<and> b = CHR '':'' \<and> c = CHR 0x5C
          | _ \<Rightarrow> False)
         \<or> prefix ''/home/'' l \<or> prefix ''/users/'' l \<or> prefix ''/tmp/'' l)"

definition UNSAFE_EXPLANATION_PATTERNS :: "(string \<Rightarrow> bool) list" where
  "UNSAFE_EXPLANATION_PATTERNS = [match_traceback, match_secret, match_api_key, match_local_path]"

definition safe_explanation :: "string \<Rightarrow> bool" where
  "safe_explanation s \<longleftrightarrow> list_all (\<lambda>p. \<not> found_in p s) UNSAFE_EXPLANATION_PATTERNS"

definition dict_default :: "'k \<Rightarrow> 'v \<Rightarrow> ('k \<times> 'v) list \<Rightarrow> ('k \<times> 'v) list" where
  "dict_default k v d = (if k \<in> set (map fst d) then d else d @ [(k, v)])"

text \<open>\<open>_validated_explanations\<close>; the constructor of the explanation raises.\<close>

fun validated_explanations ::
  "run_result \<Rightarrow> explanation list \<Rightarrow> (string \<times> report_explanation) list
     \<Rightarrow> report_exn + (string \<times> report_explanation) list" where
  "validated_explanations r [] d = Inr d"
| "validated_explanations r (e # es) d =
     (case group_with_id r (ex_group_id e) of
        None \<Rightarrow> validated_explanations r es d
      | Some g \<Rightarrow>
          if ex_finding_ids e \<noteq> ag_finding_ids g \<or> \<not> safe_explanation (ex_text e)
          then validated_explanations r es d
          else bindE (make_report_explanation \<lparr>re_source = AGENT_CANDIDATE,
                        re_text = code_points (ex_text e), re_model = Some (ex_model e)\<rparr>) (\<lambda>x.
                 validated_explanations r es
                   (fold (\<lambda>i d. dict_default i x d) (ag_finding_ids g) d)))"

definition template_explanation :: "rule_id \<Rightarrow> string \<Rightarrow> report_exn + report_explanation" where
  "template_explanation rid old_api =
     (case get_rule_spec rid of
        Inl _ \<Rightarrow> Inl ReportLookupErr
      | Inr spec \<Rightarrow>
          make_report_explanation
            \<lparr>re_source = TEMPLATE_FALLBACK,
             re_text = rule_summary (spec_rule_id spec) @ rule_scope (spec_rule_id spec)
               @ detected_text @ code_points old_api @ fallback_text,
             re_model = None\<rparr>)"

section \<open>Human review\<close>

definition make_report_human :: "human_item \<Rightarrow> report_exn + human_item" where
  "make_report_human h =
     (case make_human_item h of Inl _ \<Rightarrow> Inl ReportValidationErr | Inr h' \<Rightarrow> Inr h')"

text \<open>The last group that lists a finding.\<close>

definition group_by_finding :: "run_result \<Rightarrow> string \<Rightarrow> string option" where
  "group_by_finding r i =
     map_of (rev (concat (map (\<lambda>g. map (\<lambda>j. (j, ag_group_id g)) (ag_finding_ids g)) (rr_groups r)))) i"

definition finding_item :: "run_result \<Rightarrow> report_finding \<Rightarrow> string \<Rightarrow> report_exn + human_item" where
  "finding_item r f reason =
     make_report_human
       \<lparr>hi_group_id = group_by_finding r (rf_finding_id f), hi_finding_ids = [rf_finding_id f],
        hi_reason = reason, hi_detail = None\<rparr>"

definition review_items :: "run_result \<Rightarrow> report_finding \<Rightarrow> report_exn + human_item list" where
  "review_items r f =
     bindE (if re_source (rf_explanation f) = TEMPLATE_FALLBACK
            then bindE (finding_item r f ''explanation_template_fallback'') (\<lambda>h. Inr [h])
            else Inr []) (\<lambda>hs.
     bindE (finding_item r f
              (if rf_status f = CITATION_UNAVAILABLE then ''citation_unavailable''
               else ''citation_support_not_evaluated'')) (\<lambda>h.
       Inr (hs @ [h])))"

definition human_sort_key ::
  "string option \<times> string list \<times> string \<Rightarrow> string \<times> string list \<times> string" where
  "human_sort_key = (\<lambda>(g, ids, reason). (case g of None \<Rightarrow> [] | Some i \<Rightarrow> i, ids, reason))"

definition merge_items :: "human_item list \<Rightarrow> human_item list" where
  "merge_items items =
     (let unique = fold (\<lambda>h d. dict_default (human_key h) h d) items []
      in map snd (sort_key (\<lambda>e. human_sort_key (fst e)) unique))"

definition merged_human_review ::
  "run_result \<Rightarrow> report_finding list \<Rightarrow> report_exn + human_item list" where
  "merged_human_review r fs =
     bindE (traverseE (review_items r) fs) (\<lambda>hs.
       Inr (merge_items (df_human_items (rr_draft r) @ concat hs)))"

section \<open>The citation retry\<close>

record selection =
  se_group_id :: string
  se_finding_ids :: "string list"
  se_chunk_id :: string

definition make_selection :: "selection \<Rightarrow> selection option" where
  "make_selection s =
     (if is_sha256_id (se_group_id s) \<and> se_finding_ids s \<noteq> [] \<and> is_sha256_id (se_chunk_id s)
      then Some s else None)"

datatype client_outcome = ClientFailed | ClientRaised | ClientSelected selection

record builder_config =
  bc_digest :: "string \<Rightarrow> string"
  bc_guard :: citation_guard
  bc_complete :: "(string \<Rightarrow> client_outcome) option"
  bc_review :: bool

definition should_retry :: "builder_config \<Rightarrow> guard_result \<Rightarrow> bool" where
  "should_retry cfg checked \<longleftrightarrow>
     (let invalid = filter (\<lambda>i. \<not> vi_valid i) (gd_items checked)
      in gd_trust checked \<and> gd_allowlist checked \<noteq> [] \<and> bc_review cfg \<and> bc_complete cfg \<noteq> None
         \<and> invalid \<noteq> [] \<and> list_all vi_retry invalid)"

definition retry_request ::
  "run_result \<Rightarrow> ambiguous_group \<Rightarrow> string list \<Rightarrow> report_exn + string" where
  "retry_request r g allowed =
     (if length (rr_finding_ids r) \<noteq> length (rr_findings r) then Inl ReportLookupErr
      else
      bindE (traverseE (\<lambda>i. case finding_with_id r i of
                None \<Rightarrow> Inl ReportLookupErr | Some f \<Rightarrow> Inr (JStr (fd_old_api f)))
               (ag_finding_ids g)) (\<lambda>apis.
      bindE (traverseE (\<lambda>i. case map_of (rev (map (\<lambda>c. (oc_chunk_id c, c)) (rr_chunks r))) i of
                None \<Rightarrow> Inl ReportLookupErr
              | Some c \<Rightarrow> Inr (json_dict [(''chunk_id'', JStr i),
                  (''heading_path'', JArr (map JStr (pv_heading_path (hs_provenance (oc_result c)))))]))
               allowed) (\<lambda>chunks.
        let content = dumps (json_dict
              [(''action_required'', JStr ''select one citation from current_analysis_allowlist''),
               (''analysis_id'', JStr (rr_analysis_id r)),
               (''group'', json_dict
                  [(''group_id'', JStr (ag_group_id g)),
                   (''rule_id'', JStr (rule_id_value (ag_rule_id g))),
                   (''finding_ids'', JArr (map JStr (ag_finding_ids g))),
                   (''old_apis'', JArr apis)]),
               (''allowed_chunks'', JArr chunks)])
        in if valid_message content then Inr content else Inl ReportValidationErr)))"

definition retry_once ::
  "(string \<Rightarrow> client_outcome) \<Rightarrow> run_result \<Rightarrow> guard_result \<Rightarrow> report_exn + run_result option" where
  "retry_once client r checked =
     (case List.find (\<lambda>i. vi_retry i \<and> vi_group_id i \<noteq> None) (gd_items checked) of
        None \<Rightarrow> Inl ReportLookupErr
      | Some i \<Rightarrow>
          (case List.find (\<lambda>g. Some (ag_group_id g) = vi_group_id i) (rr_groups r) of
             None \<Rightarrow> Inl ReportLookupErr
           | Some g \<Rightarrow>
               bindE (retry_request r g (gd_allowlist checked)) (\<lambda>request.
                 case client request of
                   ClientFailed \<Rightarrow> Inr None
                 | ClientRaised \<Rightarrow> Inl ReportClientErr
                 | ClientSelected answer \<Rightarrow>
                     (case make_selection answer of
                        None \<Rightarrow> Inr None
                      | Some s \<Rightarrow>
                          if se_group_id s \<noteq> ag_group_id g \<or> se_finding_ids s \<noteq> ag_finding_ids g
                          then Inr None
                          else (case make_doc_candidate
                                   \<lparr>dc_analysis_id = rr_analysis_id r, dc_group_id = se_group_id s,
                                    dc_finding_ids = se_finding_ids s,
                                    dc_chunk_id = se_chunk_id s\<rparr> of
                                  Inl _ \<Rightarrow> Inl ReportValidationErr
                                | Inr c \<Rightarrow>
                                    Inr (Some (r\<lparr>rr_draft := (rr_draft r)\<lparr>df_doc_candidates :=
                                      filter (\<lambda>x. dc_group_id x \<noteq> ag_group_id g)
                                        (df_doc_candidates (rr_draft r)) @ [c]\<rparr>\<rparr>)))))))"

text \<open>The guard, and at most one retry: the result to report on, its check and the number of
  retries.\<close>

definition checked_source ::
  "builder_config \<Rightarrow> run_result \<Rightarrow> report_exn + run_result \<times> guard_result \<times> nat" where
  "checked_source cfg r =
     bindE (guard_validate (bc_guard cfg) r) (\<lambda>checked.
       if should_retry cfg checked
       then bindE (retry_once (the (bc_complete cfg)) r checked) (\<lambda>retried.
              case retried of
                None \<Rightarrow> Inr (r, checked, 1)
              | Some r' \<Rightarrow> bindE (guard_validate (bc_guard cfg) r') (\<lambda>c'. Inr (r', c', 1)))
       else Inr (r, checked, 0))"

section \<open>The report\<close>

definition citations_of :: "citation list \<Rightarrow> string \<Rightarrow> citation list" where
  "citations_of cs i = sort_key ci_chunk_id (filter (\<lambda>c. i \<in> set (ci_finding_ids c)) cs)"

definition build_finding ::
  "builder_config \<Rightarrow> citation list \<Rightarrow> (string \<times> report_explanation) list \<Rightarrow> string \<times> finding
     \<Rightarrow> report_exn + report_finding" where
  "build_finding cfg cs explanations = (\<lambda>(i, f).
     bindE (case map_of explanations i of
              Some e \<Rightarrow> Inr e
            | None \<Rightarrow> template_explanation (fd_rule_id f) (fd_old_api f)) (\<lambda>e.
       make_report_finding (bc_digest cfg)
         \<lparr>rf_finding_id = i, rf_finding = f, rf_explanation = e, rf_citations = citations_of cs i,
          rf_status = (if citations_of cs i = [] then CITATION_UNAVAILABLE else CITATION_VALID)\<rparr>))"

definition report_findings ::
  "builder_config \<Rightarrow> run_result \<Rightarrow> guard_result \<Rightarrow> report_exn + report_finding list" where
  "report_findings cfg r checked =
     bindE (validated_explanations r (df_explanations (rr_draft r)) []) (\<lambda>explanations.
       if length (rr_finding_ids r) \<noteq> length (rr_findings r) then Inl ReportLookupErr
       else traverseE (build_finding cfg (gd_citations checked) explanations)
              (zip (rr_finding_ids r) (rr_findings r)))"

definition report_build :: "builder_config \<Rightarrow> run_result \<Rightarrow> report_exn + final_report" where
  "report_build cfg source =
     bindE (checked_source cfg source) (\<lambda>(r, checked, retry_count).
     bindE (report_findings cfg r checked) (\<lambda>findings.
     bindE (merged_human_review r findings) (\<lambda>human.
       make_final_report
         \<lparr>fr_analysis_id = rr_analysis_id r,
          fr_status = (if rr_terminal r = RUN_COMPLETED then RUN_COMPLETED else RUN_DEGRADED),
          fr_degraded = rr_degraded r, fr_summary = rr_summary r, fr_findings = findings,
          fr_importers = rr_importers r, fr_retry_count = retry_count,
          fr_validation = gd_items checked, fr_human = human\<rparr>)))"

end
