(* ===== verification/GuardProps.thy ===== *)
theory GuardProps
  imports ReportBuilder
begin

text \<open>
  The citation guard against a declarative reading of its checks: which candidates of a draft
  become valid citations.
\<close>

section \<open>The parts of the checks\<close>

text \<open>A retrieved chunk is a copy of a trusted one, up to the cut of its text.\<close>

definition copy_of :: "doc_chunk \<Rightarrow> provenance \<Rightarrow> bool" where
  "copy_of c t \<longleftrightarrow>
     (hs_provenance (oc_result c))\<lparr>pv_text := pv_text t, pv_chunk_id := pv_chunk_id t\<rparr> = t
     \<and> oc_full_text_characters c = length (pv_text t) \<and> prefix (oc_text c) (pv_text t)
     \<and> oc_text_truncated c = (oc_text c \<noteq> pv_text t)"

lemma take_length_prefix: "xs = take (length xs) ys \<longleftrightarrow> prefix xs ys"
  by (metis append_eq_conv_conj prefix_def take_is_prefix)

lemma prefix_shorter: "prefix xs ys \<Longrightarrow> length xs < length ys \<longleftrightarrow> xs \<noteq> ys"
  by (auto simp: prefix_def)

lemma provenance_error_None: "retrieved_provenance_error c t = None \<longleftrightarrow> copy_of c t"
  unfolding retrieved_provenance_error_def copy_of_def Let_def
  by (cases "hs_provenance (oc_result c)"; cases t)
    (auto simp: oc_text_def take_length_prefix prefix_shorter)

definition current_in :: "citation_guard \<Rightarrow> run_result \<Rightarrow> string \<Rightarrow> bool" where
  "current_in g r i \<longleftrightarrow>
     (\<exists>c \<in> set (rr_chunks r). oc_chunk_id c = i \<and> (\<exists>t. trusted_chunk g i = Some t \<and> copy_of c t))"

lemma fst_classify:
  "set (map fst (fst (classify_retrieved g c d))) = set (map fst (fst d)) \<union>
     (if \<exists>t. trusted_chunk g (oc_chunk_id c) = Some t \<and> copy_of c t then {oc_chunk_id c} else {})"
  by (cases d) (auto simp: classify_retrieved_def keys_dict_store set_map [symmetric]
      provenance_error_None [symmetric] simp del: set_map split: option.splits)

lemma current_keys:
  "set (map fst (fst (fold (classify_retrieved g) cs d))) = set (map fst (fst d)) \<union>
     {oc_chunk_id c | c. c \<in> set cs \<and> (\<exists>t. trusted_chunk g (oc_chunk_id c) = Some t \<and> copy_of c t)}"
proof (induction cs arbitrary: d)
  case (Cons c cs)
  show ?case
    unfolding fold_simps Cons.IH fst_classify by (auto split: if_splits)
qed simp

corollary current_keys_run:
  assumes "fold (classify_retrieved g) (rr_chunks r) ([], []) = (current, errors)"
  shows "i \<in> set (map fst current) \<longleftrightarrow> current_in g r i"
  using current_keys [of g "rr_chunks r" "([], [])"] by (auto simp: assms current_in_def)

section \<open>One candidate\<close>

text \<open>The words of which one has to occur in the text of a chunk cited for a group.\<close>

definition rule_words :: "run_result \<Rightarrow> ambiguous_group \<Rightarrow> string set" where
  "rule_words r grp =
     {casefold w | w spec. get_rule_spec (ag_rule_id grp) = Inr spec \<and> w \<noteq> []
        \<and> (w = rule_id_value (ag_rule_id grp)
           \<or> w = remove_prefix ''pydantic_v1_'' (rule_id_value (ag_rule_id grp))
           \<or> w = category_value (spec_category spec)
           \<or> w = replace_char (CHR ''_'') (CHR '' '') (category_value (spec_category spec))
           \<or> w \<in> set (spec_old_apis spec)
           \<or> (\<exists>i \<in> set (ag_finding_ids grp). \<exists>f. finding_with_id r i = Some f \<and> w = fd_old_api f))}"

definition same_rule :: "run_result \<Rightarrow> ambiguous_group \<Rightarrow> bool" where
  "same_rule r grp \<longleftrightarrow>
     (\<forall>i \<in> set (ag_finding_ids grp). \<exists>f. finding_with_id r i = Some f \<and> fd_rule_id f = ag_rule_id grp)"

definition searched_for :: "run_result \<Rightarrow> ambiguous_group \<Rightarrow> string \<Rightarrow> bool" where
  "searched_for r grp i \<longleftrightarrow>
     (\<exists>b. sole_binding r grp i = [b] \<and> rb_rule_id b = ag_rule_id grp
        \<and> rb_finding_ids b = ag_finding_ids grp \<and> rb_matched_terms b \<noteq> []
        \<and> casefold ` set (rb_matched_terms b) \<subseteq> rule_words r grp)"

lemma group_findings_Inr:
  assumes "group_findings r grp = Inr fs"
  shows "set fs = {f. \<exists>i \<in> set (ag_finding_ids grp). finding_with_id r i = Some f}"
    and "\<forall>i \<in> set (ag_finding_ids grp). \<exists>f. finding_with_id r i = Some f"
    and "fs = [] \<longleftrightarrow> ag_finding_ids grp = []"
proof -
  have *: "list_all2 (\<lambda>i f. finding_with_id r i = Some f) (ag_finding_ids grp) fs"
    using assms by (auto simp: group_findings_def traverseE_Inr split: if_splits option.splits
        elim!: list_all2_mono)
  then show "set fs = {f. \<exists>i \<in> set (ag_finding_ids grp). finding_with_id r i = Some f}"
    by (induction rule: list_all2_induct) auto
  from * show "\<forall>i \<in> set (ag_finding_ids grp). \<exists>f. finding_with_id r i = Some f"
    by (induction rule: list_all2_induct) auto
  from * show "fs = [] \<longleftrightarrow> ag_finding_ids grp = []"
    by (auto dest: list_all2_lengthD)
qed

lemma expected_rule_terms_set:
  assumes "group_findings r grp = Inr fs" "list_all (\<lambda>f. fd_rule_id f = ag_rule_id grp) fs"
    and "expected_rule_terms fs = Inr terms"
  shows "set terms = rule_words r grp"
proof (cases fs)
  case Nil
  then show ?thesis using assms(3) by (simp add: expected_rule_terms_def)
next
  case (Cons f fs')
  then have f: "fd_rule_id f = ag_rule_id grp" using assms(2) by simp
  obtain spec where spec: "get_rule_spec (ag_rule_id grp) = Inr spec"
    using get_rule_spec_total by blast
  have terms: "set terms = casefold ` {w. w \<noteq> [] \<and> w \<in>
      {rule_id_value (ag_rule_id grp),
       remove_prefix ''pydantic_v1_'' (rule_id_value (ag_rule_id grp)),
       category_value (spec_category spec),
       replace_char (CHR ''_'') (CHR '' '') (category_value (spec_category spec))}
      \<union> set (spec_old_apis spec) \<union> fd_old_api ` set fs}"
  proof -
    have "terms = map casefold (filter (\<lambda>t. t \<noteq> [])
        ([rule_id_value (ag_rule_id grp),
          remove_prefix ''pydantic_v1_'' (rule_id_value (ag_rule_id grp)),
          category_value (spec_category spec),
          replace_char (CHR ''_'') (CHR '' '') (category_value (spec_category spec))]
         @ spec_old_apis spec @ map fd_old_api fs))"
      using assms(3)
      unfolding expected_rule_terms_def Let_def Cons list.case f spec sum.case by (rule Inr_inject [symmetric])
    then have "set terms = casefold ` {w. w \<in> {rule_id_value (ag_rule_id grp),
       remove_prefix ''pydantic_v1_'' (rule_id_value (ag_rule_id grp)),
       category_value (spec_category spec),
       replace_char (CHR ''_'') (CHR '' '') (category_value (spec_category spec))}
       \<union> set (spec_old_apis spec) \<union> fd_old_api ` set fs \<and> w \<noteq> []}"
      by (simp only: set_map set_filter set_append list.set Un_assoc)
    then show ?thesis by (simp only: conj_commute)
  qed
  show ?thesis
    unfolding terms rule_words_def group_findings_Inr(1) [OF assms(1)] spec
    by (auto simp: image_iff)
qed

definition citation_for :: "run_result \<Rightarrow> ambiguous_group \<Rightarrow> provenance \<Rightarrow> citation" where
  "citation_for r grp t =
     \<lparr>ci_analysis_id = rr_analysis_id r, ci_group_id = ag_group_id grp,
      ci_finding_ids = ag_finding_ids grp, ci_rule_id = ag_rule_id grp, ci_chunk = t\<rparr>"

definition documents :: "citation_guard \<Rightarrow> run_result \<Rightarrow> string \<Rightarrow> ambiguous_group \<Rightarrow> provenance \<Rightarrow> bool"
where
  "documents g r i grp t \<longleftrightarrow>
     searched_for r grp i \<and> trusted_chunk g i = Some t
     \<and> (\<exists>w \<in> rule_words r grp. sublist w (casefold (pv_text t)))"

lemma candidate_error_None: "candidate_error r c e b = Inr (i, oc) \<Longrightarrow> oc = None"
  by (auto simp: candidate_error_def bindE_eq_Inr)

lemma make_citation_Inr: "make_citation c = Inr c' \<Longrightarrow> c' = c"
  by (auto simp: make_citation_def Let_def split: if_splits)

lemma bound_citation_exact:
  assumes run: "bound_citation g r c grp fs = Inr (i, oc)"
    and fs: "group_findings r grp = Inr fs" "list_all (\<lambda>f. fd_rule_id f = ag_rule_id grp) fs"
  shows "oc = Some cit \<longleftrightarrow> (\<exists>t. documents g r (dc_chunk_id c) grp t \<and> cit = citation_for r grp t)"
proof (cases "sole_binding r grp (dc_chunk_id c)")
  case Nil
  then show ?thesis
    using run by (auto simp: bound_citation_def documents_def searched_for_def dest: candidate_error_None)
next
  case (Cons b bs)
  show ?thesis
  proof (cases "bs \<noteq> [] \<or> rb_rule_id b \<noteq> ag_rule_id grp \<or> rb_finding_ids b \<noteq> ag_finding_ids grp")
    case True
    then show ?thesis
      using run Cons
      by (auto simp: bound_citation_def documents_def searched_for_def dest: candidate_error_None)
  next
    case no_mismatch: False
    then obtain terms where terms: "expected_rule_terms fs = Inr terms"
      using run Cons by (auto simp: bound_citation_def bindE_eq_Inr)
    note words = expected_rule_terms_set [OF fs terms]
    have searched: "searched_for r grp (dc_chunk_id c) \<longleftrightarrow>
        rb_matched_terms b \<noteq> [] \<and> list_all (\<lambda>t. casefold t \<in> set terms) (rb_matched_terms b)"
      using no_mismatch Cons words by (auto simp: searched_for_def list_all_iff)
    show ?thesis
    proof (cases "searched_for r grp (dc_chunk_id c)")
      case False
      with searched no_mismatch show ?thesis
        using run Cons terms
        by (auto simp: bound_citation_def documents_def dest: candidate_error_None)
    next
      case True
      with searched no_mismatch obtain t where t: "trusted_chunk g (dc_chunk_id c) = Some t"
        using run Cons terms by (auto simp: bound_citation_def split: option.splits)
      show ?thesis
        using run Cons terms True searched t words no_mismatch
        by (auto simp: bound_citation_def documents_def bindE_eq_Inr list_ex_iff citation_for_def
            dest: candidate_error_None make_citation_Inr split: if_splits)
    qed
  qed
qed

definition cites :: "citation_guard \<Rightarrow> run_result \<Rightarrow> doc_candidate \<Rightarrow> citation \<Rightarrow> bool" where
  "cites g r c cit \<longleftrightarrow>
     dc_analysis_id c = rr_analysis_id r
     \<and> \<not> duplicate_in (df_doc_candidates (rr_draft r)) c
     \<and> current_in g r (dc_chunk_id c)
     \<and> (\<exists>grp t. group_with_id r (dc_group_id c) = Some grp \<and> dc_finding_ids c = ag_finding_ids grp
          \<and> set (ag_finding_ids grp) \<subseteq> set (rr_finding_ids r) \<and> same_rule r grp
          \<and> documents g r (dc_chunk_id c) grp t \<and> cit = citation_for r grp t)"

lemma validate_candidate_exact:
  assumes run: "validate_candidate g r current errors
      (duplicate_in (df_doc_candidates (rr_draft r)) c) c = Inr (i, oc)"
    and current: "\<And>i. i \<in> set (map fst current) \<longleftrightarrow> current_in g r i"
  shows "oc = Some cit \<longleftrightarrow> cites g r c cit"
proof (cases "group_with_id r (dc_group_id c)")
  case None
  then show ?thesis
    using run by (auto simp: validate_candidate_def cites_def dest: candidate_error_None split: if_splits)
next
  case (Some grp)
  show ?thesis
  proof (cases "dc_analysis_id c = rr_analysis_id r \<and> set (dc_finding_ids c) \<subseteq> set (rr_finding_ids r)
      \<and> dc_finding_ids c = ag_finding_ids grp")
    case False
    then show ?thesis
      using run Some
      by (auto simp: validate_candidate_def cites_def dest: candidate_error_None split: if_splits)
  next
    case True
    then obtain fs where fs: "group_findings r grp = Inr fs"
      using run Some by (auto simp: validate_candidate_def bindE_eq_Inr)
    have rules: "list_all (\<lambda>f. fd_rule_id f = ag_rule_id grp) fs \<longleftrightarrow> same_rule r grp"
      using group_findings_Inr [OF fs] by (fastforce simp: same_rule_def list_all_iff)
    show ?thesis
    proof (cases "same_rule r grp \<and> \<not> duplicate_in (df_doc_candidates (rr_draft r)) c
        \<and> current_in g r (dc_chunk_id c)")
      case False
      then show ?thesis
        using run Some True fs rules current
        by (auto simp: validate_candidate_def cites_def dest: candidate_error_None
            split: if_splits option.splits)
    next
      case ok: True
      have "dc_analysis_id c = rr_analysis_id r" "set (ag_finding_ids grp) \<subseteq> set (rr_finding_ids r)"
        "dc_finding_ids c = ag_finding_ids grp"
        using True by auto
      then have "bound_citation g r c grp fs = Inr (i, oc)"
        using run ok Some fs rules current [of "dc_chunk_id c"] by (simp add: validate_candidate_def)
      from bound_citation_exact [OF this fs] rules ok True Some show ?thesis
        by (auto simp: cites_def)
    qed
  qed
qed

section \<open>The guard\<close>

lemma make_guard_result_Inr: "make_guard_result x = Inr x' \<Longrightarrow> x' = x"
  by (auto simp: make_guard_result_def Let_def split: if_splits)

lemma make_guard_result_citations:
  "make_guard_result x = Inr x' \<Longrightarrow> \<not> gd_trust x \<Longrightarrow> gd_citations x = []"
  by (auto simp: make_guard_result_def Let_def split: if_splits)

lemma guard_citations:
  assumes run: "guard_validate g r = Inr res" and trust: "cg_available g"
  shows "cit \<in> set (gd_citations res) \<longleftrightarrow>
     (\<exists>c \<in> set (df_doc_candidates (rr_draft r)). cites g r c cit)"
proof -
  let ?cs = "df_doc_candidates (rr_draft r)"
  obtain current errors where fold: "fold (classify_retrieved g) (rr_chunks r) ([], []) = (current, errors)"
    by (cases "fold (classify_retrieved g) (rr_chunks r) ([], [])")
  let ?check = "\<lambda>c. validate_candidate g r current errors (duplicate_in ?cs c) c"
  obtain checked where checked: "traverseE ?check ?cs = Inr checked"
    and cits: "gd_citations res = sort_key citation_key (List.map_filter snd checked)"
    using run trust unfolding guard_validate_def fold prod.case Let_def
    by (auto simp: bindE_eq_Inr dest!: make_guard_result_Inr)
  from checked have all: "list_all2 (\<lambda>c p. ?check c = Inr p) ?cs checked"
    by (simp add: traverseE_Inr)
  have "(\<exists>p \<in> set checked. snd p = Some cit) \<longleftrightarrow> (\<exists>c \<in> set ?cs. cites g r c cit)"
  proof
    assume "\<exists>p \<in> set checked. snd p = Some cit"
    then obtain n where n: "n < length checked" "snd (checked ! n) = Some cit"
      by (auto simp: in_set_conv_nth)
    with all have "?check (?cs ! n) = Inr (fst (checked ! n), Some cit)" "n < length ?cs"
      by (simp_all add: list_all2_conv_all_nth prod_eq_iff)
    with validate_candidate_exact [OF this(1) current_keys_run [OF fold]]
    have "cites g r (?cs ! n) cit" by blast
    with \<open>n < length ?cs\<close> show "\<exists>c \<in> set ?cs. cites g r c cit" by auto
  next
    assume "\<exists>c \<in> set ?cs. cites g r c cit"
    then obtain n where n: "n < length ?cs" "cites g r (?cs ! n) cit"
      by (auto simp: in_set_conv_nth)
    with all have "?check (?cs ! n) = Inr (fst (checked ! n), snd (checked ! n))"
      "n < length checked"
      by (simp_all add: list_all2_conv_all_nth)
    with validate_candidate_exact [OF this(1) current_keys_run [OF fold]] n
    have "snd (checked ! n) = Some cit" by blast
    with \<open>n < length checked\<close> show "\<exists>p \<in> set checked. snd p = Some cit"
      using nth_mem by blast
  qed
  moreover have "cit \<in> set (List.map_filter snd checked) \<longleftrightarrow> (\<exists>p \<in> set checked. snd p = Some cit)"
    by (induction checked) (auto simp: List.map_filter_simps split: option.split)
  ultimately show ?thesis
    by (simp add: cits)
qed

lemma guard_without_trust:
  assumes "guard_validate g r = Inr res" "\<not> cg_available g"
  shows "gd_citations res = []"
  using assms by (auto simp: guard_validate_def bindE_eq_Inr dest!: make_guard_result_Inr)

lemma guard_fields:
  assumes "guard_validate g r = Inr res"
  shows "gd_analysis_id res = rr_analysis_id r" "gd_trust res = cg_available g"
    "distinct (map citation_key (gd_citations res))"
    "make_guard_result res = Inr res"
proof -
  have "\<exists>x. make_guard_result x = Inr res \<and> gd_analysis_id x = rr_analysis_id r
      \<and> gd_trust x = cg_available g"
    using assms unfolding guard_validate_def Let_def
    by (cases "cg_available g"; cases "fold (classify_retrieved g) (rr_chunks r) ([], [])")
      (force simp: bindE_eq_Inr)+
  then obtain x where x: "make_guard_result x = Inr res" "gd_analysis_id x = rr_analysis_id r"
    "gd_trust x = cg_available g" by blast
  have "res = x" by (rule make_guard_result_Inr [OF x(1)])
  with x show "gd_analysis_id res = rr_analysis_id r" "gd_trust res = cg_available g"
    "make_guard_result res = Inr res" by simp_all
  then show "distinct (map citation_key (gd_citations res))"
    by (simp add: make_guard_result_def Let_def split: if_splits)
qed

end
