(* ===== verification/ReportSamples.thy ===== *)
theory ReportSamples
  imports GuardProps AgentSamples
begin

text \<open>
  A finished run for the witnesses: the two findings of the agent samples, a document cited for
  the first group and an explanation of the second; and a request with 351 findings.
\<close>

definition settings_page :: provenance where
  "settings_page =
     \<lparr>pv_chunk_id = ''sha256:'' @ replicate 64 (CHR ''a''), pv_heading_path = [''Settings''],
      pv_text = ''BaseSettings has moved'', pv_content_sha256 = replicate 64 (CHR ''b''),
      pv_source_id = ''pydantic-v2-migration'', pv_source_url = ''u'', pv_git_ref = ''main'',
      pv_commit_sha = replicate 40 (CHR ''c''), pv_source_path = ''docs/migration.md'',
      pv_snapshot_sha256 = replicate 64 (CHR ''d'')\<rparr>"

definition page_guard :: citation_guard where
  "page_guard = \<lparr>cg_trusted = [settings_page], cg_available = True\<rparr>"

text \<open>The retrieved chunk holds the first twelve characters of the page.\<close>

definition retrieved_page :: doc_chunk where
  "retrieved_page =
     \<lparr>oc_result = \<lparr>hs_rank = 1, hs_rrf_score = 1, hs_bm25_rank = Some 1, hs_dense_rank = None,
        hs_bm25_score = Some 1, hs_dense_score = None,
        hs_provenance = settings_page\<lparr>pv_text := ''BaseSettings''\<rparr>\<rparr>,
      oc_full_text_characters = 22, oc_text_truncated = True\<rparr>"

definition finished_run :: run_result where
  "finished_run =
     (let one = sample_group one_hit; other = sample_group other_hit
      in \<lparr>rr_analysis_id = ''run-1'', rr_summary = rq_summary sample_request,
          rr_findings = [one_hit, other_hit],
          rr_finding_ids = map (finding_identity length_digest) [one_hit, other_hit],
          rr_importers = [], rr_groups = [one, other], rr_chunks = [retrieved_page],
          rr_bindings = [\<lparr>rb_group_id = ag_group_id one, rb_rule_id = ag_rule_id one,
            rb_finding_ids = ag_finding_ids one, rb_query_sha256 = replicate 64 (CHR ''e''),
            rb_matched_terms = [''BaseSettings''], rb_chunk_ids = [pv_chunk_id settings_page]\<rparr>],
          rr_steps = [],
          rr_draft =
            \<lparr>df_explanations = [\<lparr>ex_group_id = ag_group_id other,
               ex_finding_ids = ag_finding_ids other, ex_text = ''moved'', ex_model = ''m''\<rparr>],
             df_doc_candidates = [\<lparr>dc_analysis_id = ''run-1'', dc_group_id = ag_group_id one,
               dc_finding_ids = ag_finding_ids one, dc_chunk_id = pv_chunk_id settings_page\<rparr>],
             df_human_items = []\<rparr>,
          rr_errors = [], rr_degraded = None, rr_terminal = RUN_COMPLETED, rr_tool_calls = 1,
          rr_llm_calls = 2, rr_reviewed = [], rr_retry_count = 0\<rparr>)"

section \<open>What the guard does with it\<close>

lemma page_facts:
  "trusted_chunk page_guard (pv_chunk_id settings_page) = Some settings_page"
  "oc_chunk_id retrieved_page = pv_chunk_id settings_page"
  "retrieved_provenance_error retrieved_page settings_page = None"
  "is_sha256_id (pv_chunk_id settings_page)"
  "casefold ''BaseSettings'' \<in> set (projr (expected_rule_terms [one_hit]))"
  "sublist (casefold ''BaseSettings'') (casefold (pv_text settings_page))"
  by code_simp+

lemma finished_current: "fold (classify_retrieved page_guard) (rr_chunks finished_run) ([], [])
   = ([(pv_chunk_id settings_page, retrieved_page)], [])"
  by (simp add: finished_run_def Let_def classify_retrieved_def page_facts)

lemma finished_lookups:
  "finding_with_id finished_run (finding_identity length_digest one_hit) = Some one_hit"
  "finding_with_id finished_run (finding_identity length_digest other_hit) = Some other_hit"
  "group_with_id finished_run (ag_group_id (sample_group one_hit)) = Some (sample_group one_hit)"
  "group_with_id finished_run (ag_group_id (sample_group other_hit)) = Some (sample_group other_hit)"
  using sample_distinct
  by (simp_all add: finding_with_id_def group_with_id_def finished_run_def Let_def)

lemma sample_group_rule [simp]: "ag_rule_id (sample_group f) = fd_rule_id f"
  by (simp add: sample_group_def group_of_def)

definition page_citation :: citation where
  "page_citation = citation_for finished_run (sample_group one_hit) settings_page"

lemma page_citation_made: "make_citation page_citation = Inr page_citation"
proof -
  have "is_commit (pv_commit_sha settings_page)" "is_digest (pv_content_sha256 settings_page)"
    "is_digest (pv_snapshot_sha256 settings_page)" by code_simp+
  then show ?thesis
    using page_facts(4)
    by (simp add: make_citation_def page_citation_def citation_for_def finished_run_def Let_def settings_page_def)
qed


definition valid_item_for :: "run_result \<Rightarrow> ambiguous_group \<Rightarrow> provenance \<Rightarrow> validation_item" where
  "valid_item_for r grp t =
     \<lparr>vi_analysis_id = rr_analysis_id r, vi_group_id = Some (ag_group_id grp),
      vi_finding_ids = ag_finding_ids grp, vi_chunk_id = Some (pv_chunk_id t), vi_valid = True,
      vi_error = None, vi_retry = False\<rparr>"

lemma bound_citation_Inr:
  assumes "sole_binding r grp (dc_chunk_id c) = [b]" "rb_rule_id b = ag_rule_id grp"
    "rb_finding_ids b = ag_finding_ids grp" "expected_rule_terms fs = Inr ts"
    "rb_matched_terms b \<noteq> []" "list_all (\<lambda>t. casefold t \<in> set ts) (rb_matched_terms b)"
    "trusted_chunk g (dc_chunk_id c) = Some t"
    "list_ex (\<lambda>w. sublist w (casefold (pv_text t))) ts"
    "make_citation (citation_for r grp t) = Inr cit" "make_item (valid_item_for r grp t) = Inr i"
  shows "bound_citation g r c grp fs = Inr (i, Some cit)"
  using assms by (simp add: bound_citation_def citation_for_def valid_item_for_def)

lemma finished_run_simps:
  "rr_analysis_id finished_run = ''run-1''"
    "rr_finding_ids finished_run = [finding_identity length_digest one_hit, finding_identity length_digest other_hit]"
    "rr_findings finished_run = [one_hit, other_hit]"
    "rr_groups finished_run = [sample_group one_hit, sample_group other_hit]"
    "df_doc_candidates (rr_draft finished_run) = 
     [\<lparr>dc_analysis_id = ''run-1'', dc_group_id = ag_group_id (sample_group one_hit),
       dc_finding_ids = [finding_identity length_digest one_hit], dc_chunk_id = pv_chunk_id settings_page\<rparr>]"
    by (simp_all add: finished_run_def Let_def)

lemma finished_candidate:
  assumes "dc_analysis_id c = ''run-1''" "dc_group_id c = ag_group_id (sample_group one_hit)"
       "dc_finding_ids c = [finding_identity length_digest one_hit]" "dc_chunk_id c = pv_chunk_id settings_page"
 shows
  "validate_candidate page_guard finished_run [(pv_chunk_id settings_page, retrieved_page)] [] False c
   = Inr (valid_item_for finished_run (sample_group one_hit) settings_page, Some page_citation)"
proof -
  obtain b where b: "sole_binding finished_run (sample_group one_hit) (pv_chunk_id settings_page) = [b]"
     "rb_rule_id b = fd_rule_id one_hit"
      "rb_finding_ids b = [finding_identity length_digest one_hit]"
      "rb_matched_terms b = [''BaseSettings'']"
    by (simp add: sole_binding_def finished_run_def Let_def)
  obtain ts where ts: "expected_rule_terms [one_hit] = Inr ts" 
  proof -
    obtain spec where "get_rule_spec (fd_rule_id one_hit) = Inr spec" using get_rule_spec_total by blast
    then show thesis using that by (simp add: expected_rule_terms_def Let_def)
  qed
  have w: "list_ex (\<lambda>w. sublist w (casefold (pv_text settings_page))) ts"
    using page_facts(5,6) ts by (auto simp: list_ex_iff)
  have fs: "group_findings finished_run (sample_group one_hit) = Inr [one_hit]"
    by (simp add: group_findings_def finished_run_simps finished_lookups)
  have item: "make_item (valid_item_for finished_run (sample_group one_hit) settings_page) = Inr (valid_item_for finished_run (sample_group one_hit) settings_page)"
    using page_facts(4) by (simp add: make_item_def valid_item_for_def finished_run_simps)
  have "bound_citation page_guard finished_run c (sample_group one_hit) [one_hit] =
     Inr (valid_item_for finished_run (sample_group one_hit) settings_page, Some page_citation)"
   using b ts page_facts w page_citation_made[unfolded page_citation_def] item assms
   unfolding page_citation_def
   by (intro bound_citation_Inr [where b = b and ts = ts and t = settings_page]) simp_all
  then show ?thesis using fs assms
    by (simp add: validate_candidate_def finished_lookups finished_run_simps)
qed

lemma finished_guard:
  "\<exists>res. guard_validate page_guard finished_run = Inr res \<and> gd_citations res = [page_citation]
     \<and> gd_trust res \<and> length (gd_items res) = 2"
proof -
  obtain c where cs: "df_doc_candidates (rr_draft finished_run) = [c]"
    and c: "dc_analysis_id c = ''run-1''" "dc_group_id c = ag_group_id (sample_group one_hit)"
      "dc_finding_ids c = [finding_identity length_digest one_hit]"
      "dc_chunk_id c = pv_chunk_id settings_page"
    by (rule that [OF finished_run_simps(5)]) simp_all
  let ?other = "sample_group other_hit"
  have ok: "cg_available page_guard" by (simp add: page_guard_def)
  have dup: "\<not> duplicate_in [c] c"
    by (simp add: duplicate_in_def)
  have cand: "validate_candidate page_guard finished_run [(pv_chunk_id settings_page, retrieved_page)] [] False c
   = Inr (valid_item_for finished_run (sample_group one_hit) settings_page, Some page_citation)"
    by (rule finished_candidate [OF c])
  obtain i where i: "invalid_item (rr_analysis_id finished_run) NO_CANDIDATE (Some (ag_group_id ?other)) (ag_finding_ids ?other) None True = Inr i"
    "vi_analysis_id i = ''run-1''"
    by (simp add: invalid_item_def make_item_def finished_run_simps)
  have groups: "filter (\<lambda>grp. ag_group_id grp \<notin> set (map dc_group_id [c])) (rr_groups finished_run) = [?other]"
    using sample_distinct c by (simp add: finished_run_simps)
  let ?item = "valid_item_for finished_run (sample_group one_hit) settings_page"
  let ?items = "sort_key item_sort_key [?item, i]"
  have t1: "traverseE (\<lambda>c. validate_candidate page_guard finished_run
       [(pv_chunk_id settings_page, retrieved_page)] [] (duplicate_in [c] c) c) [c] = Inr [(?item, Some page_citation)]"
    using dup cand by simp
  have t2: "traverseE (\<lambda>grp. invalid_item (rr_analysis_id finished_run) NO_CANDIDATE
      (Some (ag_group_id grp)) (ag_finding_ids grp) None True)
      (filter (\<lambda>grp. ag_group_id grp \<notin> set (map dc_group_id [c])) (rr_groups finished_run)) = Inr [i]"
    unfolding groups using i(1) by simp
  let ?res = "\<lparr>gd_analysis_id = rr_analysis_id finished_run, gd_trust = True,
      gd_allowlist = [pv_chunk_id settings_page], gd_citations = [page_citation], gd_items = ?items\<rparr>"
  have sort1: "sort_key citation_key [page_citation] = [page_citation]" "sort [pv_chunk_id settings_page] = [pv_chunk_id settings_page]" by simp_all
  have "guard_validate page_guard finished_run = make_guard_result ?res"
    unfolding guard_validate_def finished_current prod.case Let_def cs t1 t2 bindE.simps 
    using ok dup cand sort1 by (simp add: List.map_filter_simps del: sort_key_simps)
  moreover have "ci_analysis_id page_citation = ''run-1''" "ci_chunk_id page_citation = pv_chunk_id settings_page"
    "vi_analysis_id ?item = ''run-1''"
    by (simp_all add: page_citation_def citation_for_def valid_item_for_def finished_run_simps ci_chunk_id_def)
  then have "make_guard_result ?res = Inr ?res"
    using i(2)  by (simp add: make_guard_result_def Let_def finished_run_simps(1) list_all_iff report_limits)
  ultimately show ?thesis by simp
qed

section \<open>A project with 351 findings\<close>

text \<open>One file that imports \<open>BaseSettings\<close> on 351 lines, and a digest that numbers them.\<close>

definition nth_hit :: "nat \<Rightarrow> finding" where
  "nth_hit k = one_hit\<lparr>fd_location := \<lparr>fl_start_line = k + 1, fl_start_column = 0,
     fl_end_line = k + 1, fl_end_column = 5\<rparr>\<rparr>"

definition many_hits :: "finding list" where
  "many_hits = map nth_hit [0..<351]"

definition number_id :: "nat \<Rightarrow> string" where
  "number_id k = map digit_char [k mod 16, k div 16 mod 16, k div 256 mod 16] @ replicate 61 (CHR ''0'')"

definition number_digest :: "string \<Rightarrow> string" where
  "number_digest s =
     (case List.find (\<lambda>k. s = finding_text (nth_hit k)) [0..<351] of
        None \<Rightarrow> number_id 0
      | Some k \<Rightarrow> number_id k)"

definition many_request :: run_request where
  "many_request =
     \<lparr>rq_analysis_id = ''run-1'',
      rq_summary = \<lparr>su_python_files = 1, su_python_loc = 351, su_direct_finding_count = 351,
        su_directly_affected_files = 1, su_one_hop_dependent_files = 0\<rparr>,
      rq_findings = many_hits, rq_importers = [], rq_llm_review = False\<rparr>"

lemma nth_hit_inject: "nth_hit j = nth_hit k \<longleftrightarrow> j = k"
  by (auto simp: nth_hit_def dest: arg_cong [where f = "\<lambda>f. fl_start_line (fd_location f)"])

lemma number_id_hex: "is_digest (number_id k)"
  using hex_digit [of k] hex_digit [of "k div 16"] hex_digit [of "k div 256"]
  by (auto simp: is_digest_def number_id_def)

lemma number_id_inject: "j < 4096 \<Longrightarrow> k < 4096 \<Longrightarrow> number_id j = number_id k \<Longrightarrow> j = k"
proof -
  assume "j < 4096" "k < 4096" "number_id j = number_id k"
  then have "j mod 16 = k mod 16" "j div 16 mod 16 = k div 16 mod 16" "j div 16 div 16 = k div 16 div 16"
    by (simp_all add: number_id_def digit_char_inject div_mult2_eq [symmetric])
  then show "j = k" by (metis div_mod_decomp)
qed

lemma number_digest_hit: "k < 351 \<Longrightarrow> number_digest (finding_text (nth_hit k)) = number_id k"
proof -
  assume k: "k < 351"
  then obtain j where "List.find (\<lambda>j. finding_text (nth_hit k) = finding_text (nth_hit j)) [0..<351] = Some j"
    by (cases "List.find (\<lambda>j. finding_text (nth_hit k) = finding_text (nth_hit j)) [0..<351]")
     (auto simp: find_None_iff)
  moreover from this have "j = k"
    by (auto simp: find_Some_iff finding_text_inject nth_hit_inject)
  ultimately show ?thesis by (simp add: number_digest_def)
qed

lemma many_digest: "good_digest number_digest many_hits"
proof -
  have "is_digest (number_digest s)" for s
    by (simp add: number_digest_def number_id_hex split: option.split)
  moreover have "inj_on number_digest (finding_text ` set many_hits)"
  proof (rule inj_onI)
    fix x y
    assume "x \<in> finding_text ` set many_hits" "y \<in> finding_text ` set many_hits"
      and same: "number_digest x = number_digest y"
    then obtain j k where "x = finding_text (nth_hit j)" "j < 351"
      "y = finding_text (nth_hit k)" "k < 351"
      by (auto simp: many_hits_def)
    with same number_id_inject [of j k] show "x = y" by (simp add: number_digest_hit)
  qed
  ultimately show ?thesis by (simp add: good_digest_def)
qed

lemma nth_hit_valid: "valid_finding (nth_hit k)"
  using sample_values(1)
  by (simp add: valid_finding_def nth_hit_def valid_finding_location_def split: sum.splits)

lemma many_valid: "valid_run_request many_request"
proof -
  have "sorted (map finding_sort_key many_hits)"
    by (simp add: many_hits_def sorted_map sorted_wrt_iff_nth_less finding_sort_key_def nth_hit_def)
  moreover have "distinct many_hits"
    by (simp add: many_hits_def distinct_map inj_on_def nth_hit_inject)
  moreover have "set (map fd_path many_hits) = {fd_path one_hit}"
  proof -
    have "map fd_path many_hits = replicate 351 (fd_path one_hit)"
      by (simp add: many_hits_def nth_hit_def comp_def map_replicate_const)
    then show ?thesis by simp
  qed
  moreover have "length many_hits = 351" "\<forall>f \<in> set many_hits. valid_finding f"
    by (auto simp: many_hits_def nth_hit_valid)
  ultimately show ?thesis
    using sample_values(7)
    unfolding valid_run_request_def many_request_def make_rule_scan_result_def run_request.simps Let_def
    by (simp add: valid_summary_def sort_key_id del: set_map)
qed

end
