(* ===== verification/ReportFacts.thy ===== *)
theory ReportFacts
  imports GuardProps
begin

text \<open>
  The report builder step by step: which explanation a finding gets, what its view in the report
  is, and which human review items the report has.
\<close>

section \<open>Dictionaries\<close>

lemma map_of_dict_default:
  "map_of (dict_default k v d) i =
     (case map_of d i of None \<Rightarrow> if i = k then Some v else None | Some x \<Rightarrow> Some x)"
proof -
  have "k \<in> set (map fst d) \<longleftrightarrow> map_of d k \<noteq> None"
    by (simp add: map_of_eq_None_iff)
  then show ?thesis
    by (auto simp: dict_default_def map_add_def split: option.splits)
qed

lemma map_of_fold_default:
  "map_of (fold (\<lambda>k d. dict_default k v d) ks d) i =
     (case map_of d i of None \<Rightarrow> if i \<in> set ks then Some v else None | Some x \<Rightarrow> Some x)"
  by (induction ks arbitrary: d) (auto simp: map_of_dict_default split: option.splits)

lemma fold_default_keys:
  "set (map fst (fold (\<lambda>h d. dict_default (key h) h d) hs d)) = set (map fst d) \<union> key ` set hs"
  by (induction hs arbitrary: d) (auto simp: dict_default_def)

lemma fold_default_distinct:
  "distinct (map fst d) \<Longrightarrow> distinct (map fst (fold (\<lambda>h d. dict_default (key h) h d) hs d))"
  by (induction hs arbitrary: d) (auto simp: dict_default_def)

lemma fold_default_values:
  "(\<And>k h. (k, h) \<in> set d \<Longrightarrow> k = key h) \<Longrightarrow>
   (k, h) \<in> set (fold (\<lambda>h d. dict_default (key h) h d) hs d) \<Longrightarrow>
   k = key h \<and> (h \<in> set hs \<or> (k, h) \<in> set d)"
proof (induction hs arbitrary: d)
  case (Cons x hs)
  have "k = key h \<and> (h \<in> set hs \<or> (k, h) \<in> set (dict_default (key x) x d))"
    by (rule Cons.IH) (use Cons.prems in \<open>auto simp: dict_default_def split: if_splits\<close>)
  then show ?case by (auto simp: dict_default_def split: if_splits)
qed simp

section \<open>The merged items\<close>

lemma merge_items_entries:
  obtains d where "merge_items hs = map snd d" "distinct (map fst d)"
    "set (map fst d) = human_key ` set hs"
    "\<forall>e \<in> set d. fst e = human_key (snd e) \<and> snd e \<in> set hs"
    "sorted (map (\<lambda>e. human_sort_key (fst e)) d)"
proof -
  let ?u = "fold (\<lambda>h d. dict_default (human_key h) h d) hs []"
  let ?d = "sort_key (\<lambda>e. human_sort_key (fst e)) ?u"
  show thesis
  proof (rule that [of ?d])
    show "merge_items hs = map snd ?d" by (simp add: merge_items_def)
    show "distinct (map fst ?d)"
      using fold_default_distinct [of "[]" human_key hs] by (simp add: distinct_map)
    show "set (map fst ?d) = human_key ` set hs"
      using fold_default_keys [of human_key hs "[]"] by simp
    show "\<forall>e \<in> set ?d. fst e = human_key (snd e) \<and> snd e \<in> set hs"
      using fold_default_values [of "[]" human_key _ _ hs] by auto
    show "sorted (map (\<lambda>e. human_sort_key (fst e)) ?d)" by simp
  qed
qed

lemma merge_items_keys:
  "human_key ` set (merge_items hs) = human_key ` set hs"
  "distinct (map human_key (merge_items hs))"
  "set (merge_items hs) \<subseteq> set hs"
  "sorted (map (human_sort_key \<circ> human_key) (merge_items hs))"
proof -
  obtain d where d: "merge_items hs = map snd d" "distinct (map fst d)"
    "set (map fst d) = human_key ` set hs"
    "\<forall>e \<in> set d. fst e = human_key (snd e) \<and> snd e \<in> set hs"
    "sorted (map (\<lambda>e. human_sort_key (fst e)) d)"
    using merge_items_entries [of hs] .
  have keys: "map human_key (merge_items hs) = map fst d"
    unfolding d(1) map_map using d(4) by (intro map_cong) auto
  then show "distinct (map human_key (merge_items hs))" using d(2) by simp
  have "human_key ` set (merge_items hs) = set (map human_key (merge_items hs))" by simp
  then show "human_key ` set (merge_items hs) = human_key ` set hs" unfolding keys d(3) .
  show "set (merge_items hs) \<subseteq> set hs" using d(1,4) by auto
  have "map (human_sort_key \<circ> human_key) (merge_items hs) = map human_sort_key (map human_key (merge_items hs))"
    by simp
  also have "\<dots> = map (\<lambda>e. human_sort_key (fst e)) d" unfolding keys by simp
  finally show "sorted (map (human_sort_key \<circ> human_key) (merge_items hs))" using d(5) by simp
qed

lemma length_merge_items: "length (merge_items hs) = card (human_key ` set hs)"
  using distinct_card [OF merge_items_keys(2) [of hs]] merge_items_keys(1) [of hs] by simp

section \<open>Explanations\<close>

text \<open>The explanation speaks of the finding, is bound to all findings of its group and is safe.\<close>

definition explains :: "run_result \<Rightarrow> string \<Rightarrow> explanation \<Rightarrow> bool" where
  "explains r i e \<longleftrightarrow>
     (case group_with_id r (ex_group_id e) of
        None \<Rightarrow> False
      | Some g \<Rightarrow> ex_finding_ids e = ag_finding_ids g \<and> safe_explanation (ex_text e)
          \<and> i \<in> set (ag_finding_ids g))"

definition agent_explanation :: "explanation \<Rightarrow> report_explanation" where
  "agent_explanation e =
     \<lparr>re_source = AGENT_CANDIDATE, re_text = code_points (ex_text e), re_model = Some (ex_model e)\<rparr>"

definition template_for :: "finding \<Rightarrow> report_explanation" where
  "template_for f =
     \<lparr>re_source = TEMPLATE_FALLBACK,
      re_text = rule_summary (fd_rule_id f) @ rule_scope (fd_rule_id f) @ detected_text
        @ code_points (fd_old_api f) @ fallback_text,
      re_model = None\<rparr>"

definition explanation_for :: "run_result \<Rightarrow> string \<Rightarrow> finding \<Rightarrow> report_explanation" where
  "explanation_for r i f =
     (case List.find (explains r i) (df_explanations (rr_draft r)) of
        Some e \<Rightarrow> agent_explanation e
      | None \<Rightarrow> template_for f)"

lemma make_report_explanation_Inr: "make_report_explanation e = Inr e' \<Longrightarrow> e' = e"
  by (simp add: make_report_explanation_def split: if_splits)

lemma validated_explanations_find:
  assumes "validated_explanations r es d = Inr d'"
  shows "map_of d' i =
    (case map_of d i of
       Some x \<Rightarrow> Some x
     | None \<Rightarrow> map_option agent_explanation (List.find (explains r i) es))"
  using assms
proof (induction es arbitrary: d)
  case Nil
  then show ?case by (simp split: option.split)
next
  case (Cons e es)
  show ?case
  proof (cases "\<exists>g. group_with_id r (ex_group_id e) = Some g
      \<and> ex_finding_ids e = ag_finding_ids g \<and> safe_explanation (ex_text e)")
    case False
    then have "validated_explanations r es d = Inr d'" "\<not> explains r i e"
      using Cons.prems by (auto simp: explains_def split: option.splits if_splits)
    with Cons.IH [OF this(1)] show ?thesis by (simp split: option.split)
  next
    case True
    then obtain g where g: "group_with_id r (ex_group_id e) = Some g"
      "ex_finding_ids e = ag_finding_ids g" "safe_explanation (ex_text e)" by blast
    then have next_es: "validated_explanations r es
        (fold (\<lambda>i. dict_default i (agent_explanation e)) (ag_finding_ids g) d) = Inr d'"
      using Cons.prems
      by (auto simp: bindE_eq_Inr agent_explanation_def dest!: make_report_explanation_Inr)
    have "explains r i e \<longleftrightarrow> i \<in> set (ag_finding_ids g)" using g by (simp add: explains_def)
    then show ?thesis
      using Cons.IH [OF next_es] by (simp add: map_of_fold_default split: option.splits)
  qed
qed

lemma template_explanation_Inr:
  "template_explanation (fd_rule_id f) (fd_old_api f) = Inr x \<Longrightarrow> x = template_for f"
  using get_rule_spec_total [of "fd_rule_id f"]
  by (auto simp: template_explanation_def template_for_def dest: make_report_explanation_Inr)

section \<open>The findings\<close>

text \<open>The view of a finding in the report.\<close>

definition finding_view :: "run_result \<Rightarrow> guard_result \<Rightarrow> string \<Rightarrow> finding \<Rightarrow> report_finding" where
  "finding_view r checked i f =
     \<lparr>rf_finding_id = i, rf_finding = f, rf_explanation = explanation_for r i f,
      rf_citations = citations_of (gd_citations checked) i,
      rf_status = (if citations_of (gd_citations checked) i = [] then CITATION_UNAVAILABLE
                   else CITATION_VALID)\<rparr>"

lemma make_report_finding_Inr: "make_report_finding digest f = Inr f' \<Longrightarrow> f' = f"
  by (simp add: make_report_finding_def Let_def split: if_splits)

lemma build_finding_Inr:
  assumes "validated_explanations r (df_explanations (rr_draft r)) [] = Inr d"
    and "build_finding cfg (gd_citations checked) d (i, f) = Inr rf"
  shows "rf = finding_view r checked i f"
proof -
  obtain e where e: "(case map_of d i of Some e \<Rightarrow> Inr e
      | None \<Rightarrow> template_explanation (fd_rule_id f) (fd_old_api f)) = Inr e"
    and rf: "rf = \<lparr>rf_finding_id = i, rf_finding = f, rf_explanation = e,
      rf_citations = citations_of (gd_citations checked) i,
      rf_status = (if citations_of (gd_citations checked) i = [] then CITATION_UNAVAILABLE
                   else CITATION_VALID)\<rparr>"
    using assms(2) unfolding build_finding_def prod.case bindE_eq_Inr
    by (blast dest: make_report_finding_Inr)
  have "e = explanation_for r i f"
    using e validated_explanations_find [OF assms(1), of i]
    by (auto simp: explanation_for_def dest: template_explanation_Inr split: option.splits)
  with rf show ?thesis by (simp add: finding_view_def)
qed

lemma report_findings_Inr:
  assumes "report_findings cfg r checked = Inr fs"
  shows "fs = map2 (finding_view r checked) (rr_finding_ids r) (rr_findings r)"
    and "length (rr_finding_ids r) = length (rr_findings r)"
proof -
  obtain d where d: "validated_explanations r (df_explanations (rr_draft r)) [] = Inr d"
    and fs: "traverseE (build_finding cfg (gd_citations checked) d)
        (zip (rr_finding_ids r) (rr_findings r)) = Inr fs"
    and len: "length (rr_finding_ids r) = length (rr_findings r)"
    using assms by (auto simp: report_findings_def bindE_eq_Inr split: if_splits)
  show "length (rr_finding_ids r) = length (rr_findings r)" by (rule len)
  from fs have "list_all2 (\<lambda>p rf. rf = case_prod (finding_view r checked) p)
      (zip (rr_finding_ids r) (rr_findings r)) fs"
    unfolding traverseE_Inr
    by (rule list_all2_mono) (auto dest: build_finding_Inr [OF d])
  then show "fs = map2 (finding_view r checked) (rr_finding_ids r) (rr_findings r)"
    using len by (auto simp: list_all2_conv_all_nth list_eq_iff_nth_eq)
qed

section \<open>Human review\<close>

definition review_keys :: "run_result \<Rightarrow> report_finding \<Rightarrow> (string option \<times> string list \<times> string) list"
where
  "review_keys r f =
     map (\<lambda>reason. (group_by_finding r (rf_finding_id f), [rf_finding_id f], reason))
       ((if re_source (rf_explanation f) = TEMPLATE_FALLBACK then [''explanation_template_fallback'']
         else [])
        @ [if rf_status f = CITATION_UNAVAILABLE then ''citation_unavailable''
           else ''citation_support_not_evaluated''])"

lemma finding_item_key:
  "finding_item r f reason = Inr h \<Longrightarrow>
     human_key h = (group_by_finding r (rf_finding_id f), [rf_finding_id f], reason)"
  by (auto simp: finding_item_def make_report_human_def make_human_item_def human_key_def
      split: sum.splits if_splits)

lemma review_items_keys:
  assumes "review_items r f = Inr hs"
  shows "map human_key hs = review_keys r f"
proof -
  obtain hs' h where hs: "hs = hs' @ [h]"
    and tmpl: "(if re_source (rf_explanation f) = TEMPLATE_FALLBACK
            then bindE (finding_item r f ''explanation_template_fallback'') (\<lambda>h. Inr [h])
            else Inr []) = Inr hs'"
    and h: "finding_item r f (if rf_status f = CITATION_UNAVAILABLE then ''citation_unavailable''
               else ''citation_support_not_evaluated'') = Inr h"
    using assms unfolding review_items_def bindE_eq_Inr by blast
  have "map human_key hs' = map (\<lambda>reason. (group_by_finding r (rf_finding_id f), [rf_finding_id f], reason))
      (if re_source (rf_explanation f) = TEMPLATE_FALLBACK then [''explanation_template_fallback''] else [])"
    using tmpl by (auto simp: bindE_eq_Inr dest: finding_item_key split: if_splits)
  then show ?thesis
    using finding_item_key [OF h] by (simp add: hs review_keys_def)
qed

lemma merged_human_review_Inr:
  assumes "merged_human_review r fs = Inr hs"
  shows "human_key ` set hs = human_key ` set (df_human_items (rr_draft r))
      \<union> (\<Union>f \<in> set fs. set (review_keys r f))"
    and "distinct (map human_key hs)" "sorted (map (human_sort_key \<circ> human_key) hs)"
proof -
  obtain hss where items: "traverseE (review_items r) fs = Inr hss"
    and hs: "hs = merge_items (df_human_items (rr_draft r) @ concat hss)"
    using assms by (auto simp: merged_human_review_def bindE_eq_Inr)
  from items have "list_all2 (\<lambda>f hs. map human_key hs = review_keys r f) fs hss"
    unfolding traverseE_Inr by (rule list_all2_mono) (rule review_items_keys)
  then have "human_key ` set (concat hss) = (\<Union>f \<in> set fs. set (review_keys r f))"
  proof (induction rule: list_all2_induct)
    case (Cons f fs hs hss)
    have "human_key ` set hs = set (review_keys r f)"
      using arg_cong [OF Cons(1), of set] by simp
    with Cons.IH show ?case by (simp add: image_Un)
  qed simp
  then show "human_key ` set hs = human_key ` set (df_human_items (rr_draft r))
      \<union> (\<Union>f \<in> set fs. set (review_keys r f))"
    unfolding hs merge_items_keys(1) by (simp add: image_Un)
  show "distinct (map human_key hs)" "sorted (map (human_sort_key \<circ> human_key) hs)"
    unfolding hs by (rule merge_items_keys)+
qed

section \<open>The retry\<close>

text \<open>The retry may only replace document candidates.\<close>

definition with_candidates :: "run_result \<Rightarrow> doc_candidate list \<Rightarrow> run_result" where
  "with_candidates r cs = r\<lparr>rr_draft := (rr_draft r)\<lparr>df_doc_candidates := cs\<rparr>\<rparr>"

lemma with_candidates_same: "with_candidates r (df_doc_candidates (rr_draft r)) = r"
  by (simp add: with_candidates_def)

lemma retry_once_candidates:
  assumes "retry_once client r checked = Inr (Some r')"
  shows "\<exists>cs. r' = with_candidates r cs"
proof -
  obtain g :: ambiguous_group and request where "(case client request of
      ClientFailed \<Rightarrow> Inr None
    | ClientRaised \<Rightarrow> Inl ReportClientErr
    | ClientSelected answer \<Rightarrow>
        (case make_selection answer of
           None \<Rightarrow> Inr None
         | Some s \<Rightarrow>
             if se_group_id s \<noteq> ag_group_id g \<or> se_finding_ids s \<noteq> ag_finding_ids g then Inr None
             else (case make_doc_candidate
                     \<lparr>dc_analysis_id = rr_analysis_id r, dc_group_id = se_group_id s,
                      dc_finding_ids = se_finding_ids s, dc_chunk_id = se_chunk_id s\<rparr> of
                    Inl _ \<Rightarrow> Inl ReportValidationErr
                  | Inr c \<Rightarrow>
                      Inr (Some (r\<lparr>rr_draft := (rr_draft r)\<lparr>df_doc_candidates :=
                        filter (\<lambda>x. dc_group_id x \<noteq> ag_group_id g)
                          (df_doc_candidates (rr_draft r)) @ [c]\<rparr>\<rparr>))))) = Inr (Some r')"
  proof -
    let ?item = "List.find (\<lambda>i. vi_retry i \<and> vi_group_id i \<noteq> None) (gd_items checked)"
    obtain i where i: "?item = Some i" using assms unfolding retry_once_def by (cases ?item) simp_all
    let ?group = "List.find (\<lambda>g. Some (ag_group_id g) = vi_group_id i) (rr_groups r)"
    obtain g where g: "?group = Some g"
      using assms unfolding retry_once_def i option.case by (cases ?group) simp_all
    show thesis
      using assms that [of g] unfolding retry_once_def i g option.case bindE_eq_Inr by blast
  qed
  then show ?thesis
    by (auto simp: with_candidates_def split: client_outcome.splits option.splits if_splits sum.splits)
qed

lemma checked_source_Inr:
  assumes "checked_source cfg r = Inr (r', checked, n)"
  obtains cs where "r' = with_candidates r cs" "guard_validate (bc_guard cfg) r' = Inr checked"
    "n \<le> 1" "n = 0 \<longrightarrow> cs = df_doc_candidates (rr_draft r)"
proof -
  obtain c where c: "guard_validate (bc_guard cfg) r = Inr c"
    and rest: "(if should_retry cfg c
       then bindE (retry_once (the (bc_complete cfg)) r c) (\<lambda>retried.
              case retried of
                None \<Rightarrow> Inr (r, c, 1)
              | Some r' \<Rightarrow> bindE (guard_validate (bc_guard cfg) r') (\<lambda>c'. Inr (r', c', 1)))
       else Inr (r, c, 0)) = Inr (r', checked, n)"
    using assms unfolding checked_source_def bindE_eq_Inr by blast
  show thesis
  proof (cases "should_retry cfg c")
    case False
    then show thesis
      using rest c with_candidates_same [of r] by (intro that [of "df_doc_candidates (rr_draft r)"]) auto
  next
    case True
    then obtain o' where o': "retry_once (the (bc_complete cfg)) r c = Inr o'"
      using rest by (auto simp: bindE_eq_Inr)
    show thesis
    proof (cases o')
      case None
      then show thesis
        using True rest c o' with_candidates_same [of r]
        by (intro that [of "df_doc_candidates (rr_draft r)"]) auto
    next
      case (Some r'')
      then obtain cs where "r'' = with_candidates r cs"
        using o' retry_once_candidates by blast
      then show thesis
        using True rest o' Some by (intro that [of cs]) (auto simp: bindE_eq_Inr)
    qed
  qed
qed

lemma finding_view_candidates [simp]:
  "finding_view (with_candidates r cs) checked i f = finding_view r checked i f"
  "review_keys (with_candidates r cs) rf = review_keys r rf"
  "df_human_items (rr_draft (with_candidates r cs)) = df_human_items (rr_draft r)"
  "rr_finding_ids (with_candidates r cs) = rr_finding_ids r"
  "rr_findings (with_candidates r cs) = rr_findings r"
  "rr_degraded (with_candidates r cs) = rr_degraded r"
  by (simp_all add: with_candidates_def finding_view_def explanation_for_def explains_def [abs_def]
      group_with_id_def review_keys_def group_by_finding_def)

section \<open>The report\<close>

lemma make_final_report_Inr: "make_final_report x = Inr x' \<Longrightarrow> x' = x"
  by (auto simp: make_final_report_def Let_def split: if_splits)

lemma make_final_report_limit:
  "make_final_report x = Inr x' \<Longrightarrow> length (fr_human x) \<le> MAX_REPORT_HUMAN_REVIEW_ITEMS"
  by (auto simp: make_final_report_def Let_def split: if_splits)

lemma report_build_Inr:
  assumes "report_build cfg source = Inr rep"
  obtains cs checked where "guard_validate (bc_guard cfg) (with_candidates source cs) = Inr checked"
    "fr_retry_count rep = 0 \<longrightarrow> cs = df_doc_candidates (rr_draft source)"
    "fr_findings rep = map2 (finding_view source checked) (rr_finding_ids source) (rr_findings source)"
    "length (rr_finding_ids source) = length (rr_findings source)"
    "human_key ` set (fr_human rep) = human_key ` set (df_human_items (rr_draft source))
       \<union> (\<Union>f \<in> set (fr_findings rep). set (review_keys source f))"
    "distinct (map human_key (fr_human rep))"
    "sorted (map (human_sort_key \<circ> human_key) (fr_human rep))"
    "length (fr_human rep) \<le> MAX_REPORT_HUMAN_REVIEW_ITEMS"
    "fr_validation rep = gd_items checked" "fr_degraded rep = rr_degraded source"
proof -
  obtain r checked n fs hs where c: "checked_source cfg source = Inr (r, checked, n)"
    and fs: "report_findings cfg r checked = Inr fs"
    and hs: "merged_human_review r fs = Inr hs"
    and rep: "rep = \<lparr>fr_analysis_id = rr_analysis_id r,
          fr_status = (if rr_terminal r = RUN_COMPLETED then RUN_COMPLETED else RUN_DEGRADED),
          fr_degraded = rr_degraded r, fr_summary = rr_summary r, fr_findings = fs,
          fr_importers = rr_importers r, fr_retry_count = n,
          fr_validation = gd_items checked, fr_human = hs\<rparr>"
    and limit: "length hs \<le> MAX_REPORT_HUMAN_REVIEW_ITEMS"
  proof -
    from assms obtain p where "checked_source cfg source = Inr p"
      and run: "(case p of (r, checked, retry_count) \<Rightarrow>
         bindE (report_findings cfg r checked) (\<lambda>findings.
         bindE (merged_human_review r findings) (\<lambda>human.
           make_final_report
             \<lparr>fr_analysis_id = rr_analysis_id r,
              fr_status = (if rr_terminal r = RUN_COMPLETED then RUN_COMPLETED else RUN_DEGRADED),
              fr_degraded = rr_degraded r, fr_summary = rr_summary r, fr_findings = findings,
              fr_importers = rr_importers r, fr_retry_count = retry_count,
              fr_validation = gd_items checked, fr_human = human\<rparr>))) = Inr rep"
      unfolding report_build_def bindE_eq_Inr by blast
    obtain r checked n where p: "p = (r, checked, n)" by (cases p)
    from run obtain fs hs where "report_findings cfg r checked = Inr fs"
      "merged_human_review r fs = Inr hs"
      and made: "make_final_report
        \<lparr>fr_analysis_id = rr_analysis_id r,
         fr_status = (if rr_terminal r = RUN_COMPLETED then RUN_COMPLETED else RUN_DEGRADED),
         fr_degraded = rr_degraded r, fr_summary = rr_summary r, fr_findings = fs,
         fr_importers = rr_importers r, fr_retry_count = n,
         fr_validation = gd_items checked, fr_human = hs\<rparr> = Inr rep"
      unfolding p prod.case bindE_eq_Inr by blast
    from that [OF _ this(1,2)] \<open>checked_source cfg source = Inr p\<close> show thesis
      unfolding p using make_final_report_Inr [OF made] make_final_report_limit [OF made] by simp
  qed
  obtain cs where cs: "r = with_candidates source cs" "guard_validate (bc_guard cfg) r = Inr checked"
    "n = 0 \<longrightarrow> cs = df_doc_candidates (rr_draft source)"
    using checked_source_Inr [OF c] .
  show thesis
    by (rule that [of cs checked])
      (use cs limit report_findings_Inr [OF fs] merged_human_review_Inr [OF hs] in
        \<open>simp_all add: rep\<close>)
qed

end
