(* ===== verification/ReportTotal.thy ===== *)
theory ReportTotal
  imports ReportFacts
begin

text \<open>
  When the builder returns a report: for a result as the agent returns it the only check that
  can fail is the limit on the human review items.
\<close>

lemma make_explanation_report:
  "make_explanation e = Inr e \<Longrightarrow>
     make_report_explanation \<lparr>re_source = AGENT_CANDIDATE, re_text = code_points (ex_text e),
       re_model = Some (ex_model e)\<rparr> = Inr (agent_explanation e)"
  by (auto simp: make_explanation_def make_report_explanation_def agent_explanation_def
      code_points_def split: if_splits)

lemma validated_explanations_total:
  "\<forall>e \<in> set es. make_explanation e = Inr e \<Longrightarrow> \<exists>d'. validated_explanations r es d = Inr d'"
proof (induction es arbitrary: d)
  case (Cons e es)
  then show ?case
    by (auto simp: make_explanation_report split: option.split)
qed simp

lemma template_explanation_total:
  assumes "valid_finding f"
  shows "template_explanation (fd_rule_id f) (fd_old_api f) = Inr (template_for f)"
proof -
  obtain s where s: "get_rule_spec (fd_rule_id f) = Inr s" "spec_rule_id s = fd_rule_id f"
    using get_rule_spec_total by blast
  have "length (fd_old_api f) \<le> 128" using assms by (simp add: valid_finding_def)
  moreover have "length (rule_summary (fd_rule_id f)) \<le> 64" "length (rule_scope (fd_rule_id f)) \<le> 64"
    by (rule rule_texts_short)+
  ultimately have "1 \<le> length (re_text (template_for f))" "length (re_text (template_for f)) \<le> 1200"
    by (simp_all add: template_for_def code_points_def detected_text_def fallback_text_def)
  then show ?thesis
    by (simp add: template_explanation_def s make_report_explanation_def template_for_def)
qed

text \<open>What a run result and its checked citations bring along.\<close>

definition reportable :: "(string \<Rightarrow> string) \<Rightarrow> run_result \<Rightarrow> citation list \<Rightarrow> bool" where
  "reportable digest r cs \<longleftrightarrow>
     valid_run_result digest r \<and> distinct (rr_finding_ids r)
     \<and> (\<forall>s. is_digest (digest s)) \<and> (\<forall>f \<in> set (rr_findings r). valid_finding f)
     \<and> (\<forall>g \<in> set (rr_groups r). make_group g = Inr g)
     \<and> (\<forall>e \<in> set (df_explanations (rr_draft r)). make_explanation e = Inr e)
     \<and> (\<forall>h \<in> set (df_human_items (rr_draft r)). set (hi_finding_ids h) \<subseteq> set (rr_finding_ids r))
     \<and> (\<forall>f \<in> set (rr_findings r).
          let own = citations_of cs (finding_identity digest f)
          in length own \<le> 5 \<and> distinct (map ci_chunk_id own)
             \<and> (\<forall>c \<in> set own. ci_rule_id c = fd_rule_id f \<and> ci_analysis_id c = rr_analysis_id r))
     \<and> su_direct_finding_count (rr_summary r) = length (rr_findings r)
     \<and> su_directly_affected_files (rr_summary r) = card (set (map fd_path (rr_findings r)))
     \<and> su_one_hop_dependent_files (rr_summary r) = card (set (map oh_importer_path (rr_importers r)))
     \<and> sort_key importer_key (rr_importers r) = rr_importers r \<and> distinct (rr_importers r)"

lemma make_report_finding_view:
  assumes "reportable digest r (gd_citations checked)" "f \<in> set (rr_findings r)"
  shows "make_report_finding digest (finding_view r checked (finding_identity digest f) f)
      = Inr (finding_view r checked (finding_identity digest f) f)"
proof -
  have "is_sha256_id (finding_identity digest f)"
    using assms by (auto simp: reportable_def finding_identity_def is_sha256_id_def is_digest_def)
  then show ?thesis
    using assms
    by (auto simp: reportable_def make_report_finding_def finding_view_def Let_def list_all_iff
        citations_of_def sorted_sort_id)
qed

lemma zip_map_self: "zip (map f xs) xs = map (\<lambda>x. (f x, x)) xs"
  by (induction xs) simp_all

lemma report_findings_total:
  assumes "reportable digest r (gd_citations checked)" "bc_digest cfg = digest"
  shows "report_findings cfg r checked
      = Inr (map2 (finding_view r checked) (rr_finding_ids r) (rr_findings r))"
proof -
  have ids: "rr_finding_ids r = map (finding_identity digest) (rr_findings r)"
    and valid: "\<forall>f \<in> set (rr_findings r). valid_finding f"
    using assms(1) by (auto simp: reportable_def valid_run_result_def)
  obtain d where d: "validated_explanations r (df_explanations (rr_draft r)) [] = Inr d"
    using validated_explanations_total assms(1) unfolding reportable_def by blast
  have "build_finding cfg (gd_citations checked) d p = Inr (case_prod (finding_view r checked) p)"
    if p: "p \<in> set (zip (rr_finding_ids r) (rr_findings r))" for p
  proof -
    obtain f where f: "p = (finding_identity digest f, f)" "f \<in> set (rr_findings r)"
      using p unfolding ids zip_map_self by auto
    let ?i = "finding_identity digest f"
    have "(case map_of d ?i of Some e \<Rightarrow> Inr e
        | None \<Rightarrow> template_explanation (fd_rule_id f) (fd_old_api f)) = Inr (explanation_for r ?i f)"
      using validated_explanations_find [OF d, of ?i] template_explanation_total valid f(2)
      by (auto simp: explanation_for_def split: option.splits)
    then show ?thesis
      using make_report_finding_view [OF assms(1) f(2)] assms(2)
      by (simp add: f(1) build_finding_def finding_view_def)
  qed
  then have "traverseE (build_finding cfg (gd_citations checked) d) (zip (rr_finding_ids r) (rr_findings r))
      = Inr (map2 (finding_view r checked) (rr_finding_ids r) (rr_findings r))"
    by (rule traverseE_total)
  with d ids show ?thesis by (simp add: report_findings_def)
qed

section \<open>The human review items\<close>

lemma map_of_Some_concat:
  "map_of (rev (concat (map (\<lambda>g. map (\<lambda>j. (j, k g)) (ids g)) gs))) i = Some x \<Longrightarrow>
     \<exists>g \<in> set gs. x = k g"
  by (drule map_of_SomeD) auto

lemma finding_item_total:
  assumes "\<forall>g \<in> set (rr_groups r). make_group g = Inr g" "is_reason_text reason"
  shows "\<exists>h. finding_item r f reason = Inr h \<and> hi_finding_ids h = [rf_finding_id f]"
proof -
  have "optional_id (group_by_finding r (rf_finding_id f))"
  proof (cases "group_by_finding r (rf_finding_id f)")
    case (Some x)
    then obtain g where "g \<in> set (rr_groups r)" "x = ag_group_id g"
      using map_of_Some_concat [where k = ag_group_id and ids = ag_finding_ids]
      unfolding group_by_finding_def by blast
    with assms(1) Some show ?thesis by (auto simp: make_group_def split: if_splits)
  qed simp
  then show ?thesis
    using assms(2)
    by (simp add: finding_item_def make_report_human_def make_human_item_def group_sized_def
        MAX_FINDINGS_PER_GROUP_def)
qed

lemma report_reasons: "is_reason_text ''explanation_template_fallback''"
  "is_reason_text ''citation_unavailable''" "is_reason_text ''citation_support_not_evaluated''"
  by (simp_all add: is_reason_text_def is_rule_char_def)

lemma review_items_total:
  assumes "\<forall>g \<in> set (rr_groups r). make_group g = Inr g"
  shows "\<exists>hs. review_items r f = Inr hs \<and> (\<forall>h \<in> set hs. hi_finding_ids h = [rf_finding_id f])"
proof -
  obtain h1 where "finding_item r f ''explanation_template_fallback'' = Inr h1"
    "hi_finding_ids h1 = [rf_finding_id f]"
    using finding_item_total [OF assms report_reasons(1)] by blast
  moreover obtain h2 where "finding_item r f (if rf_status f = CITATION_UNAVAILABLE
      then ''citation_unavailable'' else ''citation_support_not_evaluated'') = Inr h2"
    "hi_finding_ids h2 = [rf_finding_id f]"
    using finding_item_total [OF assms] report_reasons(2,3) by (cases "rf_status f") fastforce+
  ultimately show ?thesis by (simp add: review_items_def)
qed

lemma merged_human_review_total:
  assumes "\<forall>g \<in> set (rr_groups r). make_group g = Inr g"
    and "\<forall>h \<in> set (df_human_items (rr_draft r)). set (hi_finding_ids h) \<subseteq> ids"
    and "rf_finding_id ` set fs \<subseteq> ids"
  shows "\<exists>hs. merged_human_review r fs = Inr hs \<and> (\<forall>h \<in> set hs. set (hi_finding_ids h) \<subseteq> ids)"
proof -
  obtain items where items: "\<forall>f. review_items r f = Inr (items f)
      \<and> (\<forall>h \<in> set (items f). hi_finding_ids h = [rf_finding_id f])"
    using review_items_total [OF assms(1)] by metis
  then have "traverseE (review_items r) fs = Inr (map items fs)"
    by (simp add: traverseE_total)
  then have "merged_human_review r fs
      = Inr (merge_items (df_human_items (rr_draft r) @ concat (map items fs)))"
    by (simp add: merged_human_review_def)
  moreover have "set (hi_finding_ids h) \<subseteq> ids"
    if "h \<in> set (df_human_items (rr_draft r) @ concat (map items fs))" for h
    using that assms(2,3) items by fastforce
  ultimately show ?thesis using merge_items_keys(3) by blast
qed

lemma merged_human_review_length:
  assumes "merged_human_review r fs = Inr hs"
  shows "length hs \<le> length (df_human_items (rr_draft r)) + 2 * length fs"
proof -
  have "length hs = card (human_key ` set hs)"
    using distinct_card [OF merged_human_review_Inr(2) [OF assms]] by simp
  also have "\<dots> = card (set (map human_key (df_human_items (rr_draft r)) @ concat (map (review_keys r) fs)))"
    unfolding merged_human_review_Inr(1) [OF assms] by simp
  also have "\<dots> \<le> length (df_human_items (rr_draft r)) + length (concat (map (review_keys r) fs))"
    using card_length by (metis length_append length_map)
  also have "length (concat (map (review_keys r) fs)) \<le> 2 * length fs"
    by (induction fs) (simp_all add: review_keys_def)
  finally show ?thesis by simp
qed

section \<open>The report\<close>

text \<open>The report that \<open>build\<close> hands to the constructor.\<close>

lemma finding_views:
  assumes "length ids = length fs"
  shows "map rf_finding_id (map2 (finding_view r checked) ids fs) = ids"
    "map rf_finding (map2 (finding_view r checked) ids fs) = fs"
  using assms by (induction ids fs rule: list_induct2) (simp_all add: finding_view_def)

lemma report_decision:
  assumes checked: "checked_source cfg source = Inr (r, checked, n)" and "n \<le> 1"
    and ok: "reportable (bc_digest cfg) r (gd_citations checked)"
    and items: "length (gd_items checked) \<le> MAX_CITATION_VALIDATION_ITEMS"
  obtains hs where
    "merged_human_review r (map2 (finding_view r checked) (rr_finding_ids r) (rr_findings r)) = Inr hs"
    "if length hs \<le> MAX_REPORT_HUMAN_REVIEW_ITEMS then \<exists>rep. report_build cfg source = Inr rep
     else report_build cfg source = Inl ReportValidationErr"
proof -
  let ?fs = "map2 (finding_view r checked) (rr_finding_ids r) (rr_findings r)"
  have run: "valid_run_result (bc_digest cfg) r" using ok by (simp add: reportable_def)
  then have ids: "rr_finding_ids r = map (finding_identity (bc_digest cfg)) (rr_findings r)"
    and len: "length (rr_finding_ids r) = length (rr_findings r)"
    by (simp_all add: valid_run_result_def)
  have fs: "map rf_finding_id ?fs = rr_finding_ids r" "map rf_finding ?fs = rr_findings r"
    using len by (rule finding_views)+
  obtain hs where hs: "merged_human_review r ?fs = Inr hs"
    and hs_ids: "\<forall>h \<in> set hs. set (hi_finding_ids h) \<subseteq> set (rr_finding_ids r)"
    using merged_human_review_total [of r "set (rr_finding_ids r)" ?fs] ok
      arg_cong [OF fs(1), of set] by (auto simp: reportable_def)
  let ?rep = "\<lparr>fr_analysis_id = rr_analysis_id r,
          fr_status = (if rr_terminal r = RUN_COMPLETED then RUN_COMPLETED else RUN_DEGRADED),
          fr_degraded = rr_degraded r, fr_summary = rr_summary r, fr_findings = ?fs,
          fr_importers = rr_importers r, fr_retry_count = n,
          fr_validation = gd_items checked, fr_human = hs\<rparr>"
  have build: "report_build cfg source = make_final_report ?rep"
    unfolding report_build_def checked bindE.simps prod.case report_findings_total [OF ok refl] hs ..
  have cites: "list_all (\<lambda>f. list_all (\<lambda>c. ci_analysis_id c = rr_analysis_id r) (rf_citations f)) ?fs"
    using ok unfolding ids zip_map_self
    by (auto simp: reportable_def list_all_iff finding_view_def Let_def)
  have "make_final_report ?rep
      = (if length hs \<le> MAX_REPORT_HUMAN_REVIEW_ITEMS then Inr ?rep else Inl ReportValidationErr)"
    using run ok assms(2) items cites hs_ids len
    unfolding make_final_report_def Let_def final_report.simps fs
    by (auto simp: reportable_def valid_run_result_def list_all_iff)
  with build show thesis by (intro that [OF hs]) simp
qed

end
