(* ===== verification/ReportOffline.thy ===== *)
theory ReportOffline
  imports ReportTotal AgentOffline
begin

text \<open>
  The report of a run without review: the agent's result has no candidates and no chunks, so
  the guard finds nothing, nothing is retried, and every finding has the template explanation
  and two items for human review beside those of the agent.
\<close>

section \<open>The guard on a result without documents\<close>

lemma invalid_group_item:
  assumes "make_group g = Inr g" "1 \<le> length a" "length a \<le> 128"
  shows "\<exists>i. invalid_item a e (Some (ag_group_id g)) (ag_finding_ids g) None retry = Inr i
    \<and> vi_analysis_id i = a"
  using assms by (auto simp: invalid_item_def make_item_def make_group_def split: if_splits)

lemma invalid_group_items:
  assumes "\<forall>g \<in> set gs. make_group g = Inr g" "1 \<le> length a" "length a \<le> 128"
  shows "\<exists>is. traverseE (\<lambda>g. invalid_item a e (Some (ag_group_id g)) (ag_finding_ids g) None retry) gs
      = Inr is \<and> length is = length gs \<and> (\<forall>i \<in> set is. vi_analysis_id i = a)"
  using assms
proof (induction gs)
  case (Cons g gs)
  then show ?case using invalid_group_item [of g a e retry] by auto
qed simp

lemma guard_without_documents:
  assumes "rr_chunks r = []" "df_doc_candidates (rr_draft r) = []"
    and "\<forall>g \<in> set (rr_groups r). make_group g = Inr g"
    and "valid_run_result digest r"
  shows "\<exists>checked. guard_validate g r = Inr checked \<and> gd_citations checked = []
    \<and> gd_allowlist checked = [] \<and> length (gd_items checked) \<le> MAX_CITATION_VALIDATION_ITEMS"
proof -
  have a: "1 \<le> length (rr_analysis_id r)" "length (rr_analysis_id r) \<le> 128"
    and len: "length (rr_groups r) \<le> MAX_CITATION_VALIDATION_ITEMS"
    using assms(4)
    by (simp_all add: valid_run_result_def MAX_AMBIGUOUS_GROUPS_def MAX_CITATION_VALIDATION_ITEMS_def)
  have res: "make_guard_result \<lparr>gd_analysis_id = rr_analysis_id r, gd_trust = t, gd_allowlist = [],
        gd_citations = [], gd_items = items\<rparr>
      = Inr \<lparr>gd_analysis_id = rr_analysis_id r, gd_trust = t, gd_allowlist = [],
        gd_citations = [], gd_items = items\<rparr>"
    if "length items = length (rr_groups r)" "\<forall>i \<in> set items. vi_analysis_id i = rr_analysis_id r"
    for items t
    using that a len by (simp add: make_guard_result_def list_all_iff)
  obtain missing where m: "traverseE (\<lambda>g. invalid_item (rr_analysis_id r) NO_CANDIDATE
      (Some (ag_group_id g)) (ag_finding_ids g) None True) (rr_groups r) = Inr missing"
    "length missing = length (rr_groups r)" "\<forall>i \<in> set missing. vi_analysis_id i = rr_analysis_id r"
    using invalid_group_items [OF assms(3) a] by blast
  obtain failed where f: "trusted_source_failure_items r = Inr failed"
    "length failed = length (rr_groups r)" "\<forall>i \<in> set failed. vi_analysis_id i = rr_analysis_id r"
    unfolding trusted_source_failure_items_def
    using invalid_group_items [OF assms(3) a, of TRUSTED_SOURCE_INVALID False] by blast
  show ?thesis
  proof (cases "cg_available g")
    case False
    then show ?thesis using f res [OF f(2,3)] len by (simp add: guard_validate_def)
  next
    case True
    then show ?thesis
      using m res [of "sort_key item_sort_key missing" True] len assms(1,2)
      by (simp add: guard_validate_def List.map_filter_simps)
  qed
qed

section \<open>The items for human review\<close>

lemma finding_view_offline:
  assumes "df_explanations (rr_draft r) = []" "gd_citations checked = []"
  shows "review_keys r (finding_view r checked i f) =
    [(group_by_finding r i, [i], ''explanation_template_fallback''),
     (group_by_finding r i, [i], ''citation_unavailable'')]"
    and "rf_explanation (finding_view r checked i f) = template_for f"
    and "rf_citations (finding_view r checked i f) = []"
  using assms
  by (simp_all add: review_keys_def finding_view_def explanation_for_def template_for_def citations_of_def)

lemma card_review_keys:
  assumes "distinct ids" and "a \<noteq> b"
  shows "card (\<Union>i \<in> set ids. {(g i, [i], a), (g i, [i], b :: string)}) = 2 * length ids"
proof -
  have "card (\<Union>i \<in> set ids. {(g i, [i], a), (g i, [i], b)})
      = (\<Sum>i \<in> set ids. card {(g i, [i], a), (g i, [i], b)})"
    by (rule card_UN_disjoint) auto
  also have "\<dots> = (\<Sum>i \<in> set ids. 2)" using assms(2) by (intro sum.cong) auto
  finally show ?thesis using assms(1) by (simp add: distinct_card)
qed

lemma degraded_values_other:
  "''explanation_template_fallback'' \<notin> range degraded_value" "''citation_unavailable'' \<notin> range degraded_value"
proof -
  have "degraded_value x \<noteq> ''explanation_template_fallback'' \<and> degraded_value x \<noteq> ''citation_unavailable''" for x
    by (cases x) simp_all
  then show "''explanation_template_fallback'' \<notin> range degraded_value" "''citation_unavailable'' \<notin> range degraded_value"
    by (auto simp: image_iff) metis+
qed

lemma offline_items_count:
  assumes merged: "merged_human_review r (map2 (finding_view r checked) (rr_finding_ids r) (rr_findings r))
      = Inr hs"
    and draft: "offline_draft (rr_draft r)" "gd_citations checked = []"
    and ids: "distinct (rr_finding_ids r)" "length (rr_finding_ids r) = length (rr_findings r)"
  shows "length hs = length (df_human_items (rr_draft r)) + 2 * length (rr_findings r)"
proof -
  let ?fs = "map2 (finding_view r checked) (rr_finding_ids r) (rr_findings r)"
  let ?old = "human_key ` set (df_human_items (rr_draft r))"
  let ?new = "\<Union>i \<in> set (rr_finding_ids r).
    {(group_by_finding r i, [i], ''explanation_template_fallback''),
     (group_by_finding r i, [i], ''citation_unavailable'')}"
  have explanations: "df_explanations (rr_draft r) = []" using draft(1) by (simp add: offline_draft_def)
  have "(\<Union>f \<in> set ?fs. set (review_keys r f)) = (\<Union>i \<in> rf_finding_id ` set ?fs.
    {(group_by_finding r i, [i], ''explanation_template_fallback''),
     (group_by_finding r i, [i], ''citation_unavailable'')})"
    using finding_view_offline(1) [OF explanations draft(2)]
    by (auto simp: finding_view_def [of _ _ i f for i f])
  moreover have "rf_finding_id ` set ?fs = set (rr_finding_ids r)"
    unfolding set_map [symmetric, of rf_finding_id] finding_views(1) [OF ids(2)] ..
  ultimately have keys: "human_key ` set hs = ?old \<union> ?new"
    using merged_human_review_Inr(1) [OF merged] by (simp only:)
  have "snd (snd k) \<in> range degraded_value" if "k \<in> ?old" for k
    using that draft(1) by (auto simp: offline_draft_def human_key_def)
  then have "?old \<inter> ?new = {}" using degraded_values_other by fastforce
  then have "card (?old \<union> ?new) = card ?old + card ?new"
    by (intro card_Un_disjoint) auto
  moreover have "card ?old = length (df_human_items (rr_draft r))"
    using distinct_card [of "map human_key (df_human_items (rr_draft r))"] draft(1)
    by (simp add: offline_draft_def)
  moreover have "card ?new = 2 * length (rr_findings r)"
    using card_review_keys [OF ids(1), of "''explanation_template_fallback''"
      "''citation_unavailable''" "group_by_finding r"] ids(2) by simp
  moreover have "card (human_key ` set hs) = length hs"
    using distinct_card [OF merged_human_review_Inr(2) [OF merged]] by simp
  ultimately show ?thesis using keys by simp
qed

section \<open>The report of a run without review\<close>

lemma offline_reportable:
  assumes rq: "valid_run_request rq" and digest: "good_digest (ac_digest cfg) (rq_findings rq)"
    and importers: "sort_key importer_key (rq_importers rq) = rq_importers rq"
      "distinct (rq_importers rq)"
    and r: "handed_over cfg rq r"
  shows "reportable (ac_digest cfg) r []"
proof -
  have f: "rr_findings r = rq_findings rq" and run: "valid_run_result (ac_digest cfg) r"
    and d: "offline_draft (rr_draft r)" "handed (rr_draft r) = finding_identity (ac_digest cfg) ` set (rq_findings rq)"
    using r by (simp_all add: handed_over_def)
  have ids: "rr_finding_ids r = map (finding_identity (ac_digest cfg)) (rq_findings rq)"
    and "distinct (rq_findings rq)"
    using run f by (simp_all add: valid_run_result_def)
  then have "distinct (rr_finding_ids r)"
    using finding_identity_inj [OF digest] by (simp add: distinct_map)
  moreover have "set (hi_finding_ids h) \<subseteq> set (rr_finding_ids r)"
    if "h \<in> set (df_human_items (rr_draft r))" for h
  proof -
    have "set (hi_finding_ids h) \<subseteq> handed (rr_draft r)" using that by (auto simp: handed_def)
    then show ?thesis by (simp add: d ids)
  qed
  moreover have "df_explanations (rr_draft r) = []" using d(1) by (simp add: offline_draft_def)
  ultimately show ?thesis
    using r rq importers digest run f
    by (simp add: reportable_def handed_over_def valid_run_request_def good_digest_def citations_of_def)
qed

lemma offline_report_decided:
  assumes rq: "valid_run_request rq" and digest: "good_digest (ac_digest cfg) (rq_findings rq)"
    and importers: "sort_key importer_key (rq_importers rq) = rq_importers rq"
      "distinct (rq_importers rq)"
    and r: "handed_over cfg rq r" and same: "bc_digest bcfg = ac_digest cfg"
  shows "if length (df_human_items (rr_draft r)) + 2 * length (rq_findings rq)
       \<le> MAX_REPORT_HUMAN_REVIEW_ITEMS
     then \<exists>rep. report_build bcfg r = Inr rep else report_build bcfg r = Inl ReportValidationErr"
proof -
  have off: "rr_chunks r = []" "df_doc_candidates (rr_draft r) = []" "offline_draft (rr_draft r)"
    "\<forall>g \<in> set (rr_groups r). make_group g = Inr g" "valid_run_result (ac_digest cfg) r"
    "rr_findings r = rq_findings rq"
    using r by (simp_all add: handed_over_def offline_draft_def)
  obtain checked where c: "guard_validate (bc_guard bcfg) r = Inr checked" "gd_citations checked = []"
    "gd_allowlist checked = []" "length (gd_items checked) \<le> MAX_CITATION_VALIDATION_ITEMS"
    using guard_without_documents [OF off(1,2,4,5)] by blast
  have source: "checked_source bcfg r = Inr (r, checked, 0)"
    using c(1,3) by (simp add: checked_source_def should_retry_def)
  have ok: "reportable (bc_digest bcfg) r (gd_citations checked)"
    using offline_reportable [OF rq digest importers r] same c(2) by simp
  obtain hs where hs: "merged_human_review r
      (map2 (finding_view r checked) (rr_finding_ids r) (rr_findings r)) = Inr hs"
    and result: "if length hs \<le> MAX_REPORT_HUMAN_REVIEW_ITEMS then \<exists>rep. report_build bcfg r = Inr rep
       else report_build bcfg r = Inl ReportValidationErr"
    using report_decision [OF source _ ok c(4)] by auto
  have "distinct (rr_finding_ids r)" "length (rr_finding_ids r) = length (rr_findings r)"
    using ok off(5) by (auto simp: reportable_def valid_run_result_def)
  from offline_items_count [OF hs off(3) c(2) this] result off(6) show ?thesis by simp
qed

end
