(* ===== verification/ReportProps.thy ===== *)
theory ReportProps
  imports ReportSamples ReportOffline
begin

text \<open>
  What the citation guard and the report builder guarantee.
\<close>

section \<open>Citations\<close>

text \<open>C38: the citation guard cites exactly the documented candidates.  When the guard returns,
  a citation is valid exactly when the trusted bundle is available and some candidate of the
  draft earns it: the candidate is of this analysis, occurs once, names an evidence group with
  exactly its findings, all of the group's rule; its chunk was retrieved in this run as an
  unaltered copy of a trusted chunk (same provenance, the text a prefix); exactly one search of
  the group returned the chunk and that search was for words of the rule; and one of those words
  is in the trusted text.  The citation then carries the trusted chunk and the group's identity.
  No citation occurs twice, and each is on the allowlist.\<close>

theorem citations_exact:
  assumes "guard_validate g r = Inr res"
  shows "(cit \<in> set (gd_citations res) \<longleftrightarrow>
       cg_available g \<and> (\<exists>c \<in> set (df_doc_candidates (rr_draft r)). cites g r c cit))
     \<and> distinct (map citation_key (gd_citations res))
     \<and> ci_chunk_id ` set (gd_citations res) \<subseteq> set (gd_allowlist res)
     \<and> gd_trust res = cg_available g"
proof -
  have "make_guard_result res = Inr res" by (rule guard_fields(4) [OF assms])
  then have "ci_chunk_id ` set (gd_citations res) \<subseteq> set (gd_allowlist res)"
    by (auto simp: make_guard_result_def Let_def list_all_iff split: if_splits)
  with guard_fields(2,3) [OF assms] guard_citations [OF assms] guard_without_trust [OF assms]
  show ?thesis by auto
qed

theorem citations_exact_witness:
  "\<exists>res c. guard_validate page_guard finished_run = Inr res \<and> gd_citations res = [page_citation]
     \<and> c \<in> set (df_doc_candidates (rr_draft finished_run)) \<and> cites page_guard finished_run c page_citation"
proof -
  obtain res where "guard_validate page_guard finished_run = Inr res" "gd_citations res = [page_citation]"
    using finished_guard by blast
  then show ?thesis
    using citations_exact [of page_guard finished_run res page_citation] by auto
qed

section \<open>Reports\<close>

definition plain_builder :: builder_config where
  "plain_builder = \<lparr>bc_digest = length_digest, bc_guard = page_guard, bc_complete = None, bc_review = True\<rparr>"

lemma finished_reportable: "reportable length_digest finished_run [page_citation]"
proof -
  let ?one = "finding_identity length_digest one_hit" and ?other = "finding_identity length_digest other_hit"
  note valid = sample_values(1,2)
  have groups: "make_group (sample_group one_hit) = Inr (sample_group one_hit)"
     "make_group (sample_group other_hit) = Inr (sample_group other_hit)"
    using sample_group_simps(2) valid
     by (simp_all add: make_group_def sample_group_def group_of_def valid_finding_def MAX_FINDINGS_PER_GROUP_def)
  have cit: "citations_of [page_citation] ?one = [page_citation]" "citations_of [page_citation] ?other = []"
    using sample_distinct
    by (simp_all add: citations_of_def page_citation_def citation_for_def)
  have fields: "ci_rule_id page_citation = fd_rule_id one_hit" "ci_analysis_id page_citation = ''run-1''"
    by (simp_all add: page_citation_def citation_for_def finished_run_simps)
  have run: "valid_run_result length_digest finished_run"
    using sample_sorted page_facts(2) sample_distinct
    by (simp add: valid_run_result_def finished_run_def Let_def binding_ok_def agent_limits)
  have explained: "\<forall>e \<in> set (df_explanations (rr_draft finished_run)). make_explanation e = Inr e"
  proof -
    show ?thesis
      using sample_values(13,14) by (simp add: finished_run_def Let_def make_explanation_def group_sized_def MAX_FINDINGS_PER_GROUP_def)
  qed
  note sample_values(8)
  moreover have "rr_summary finished_run = rq_summary sample_request" "rr_importers finished_run = []"
     "df_human_items (rr_draft finished_run) = []"
     by (simp_all add: finished_run_def Let_def)
  ultimately show ?thesis
    using run explained valid groups cit fields length_digest_hex sample_distinct(1)
    by (simp add: reportable_def finished_run_simps sample_request_def)
qed

lemma finished_report: "\<exists>rep. report_build plain_builder finished_run = Inr rep"
proof -
  obtain res where res: "guard_validate page_guard finished_run = Inr res" "gd_citations res = [page_citation]"
     "length (gd_items res) = 2"
    using finished_guard by blast
  have source: "checked_source plain_builder finished_run = Inr (finished_run, res, 0)"
    using res(1) by (simp add: checked_source_def should_retry_def plain_builder_def)
  have ok: "reportable (bc_digest plain_builder) finished_run (gd_citations res)"
    using finished_reportable res(2) by (simp add: plain_builder_def)
  have items: "length (gd_items res) \<le> MAX_CITATION_VALIDATION_ITEMS" using res(3) by (simp add: report_limits)
  obtain hs where hs: "merged_human_review finished_run
      (map2 (finding_view finished_run res) (rr_finding_ids finished_run) (rr_findings finished_run)) = Inr hs"
    and result: "if length hs \<le> MAX_REPORT_HUMAN_REVIEW_ITEMS then \<exists>rep. report_build plain_builder finished_run = Inr rep
       else report_build plain_builder finished_run = Inl ReportValidationErr"
    using report_decision [OF source _ ok items] by auto
  have "length hs \<le> 4"
    using merged_human_review_length [OF hs] by (simp add: finished_run_def Let_def)
  with result show ?thesis by (simp add: report_limits)
qed

text \<open>C39: a report shows exactly the run and its validated citations.  When \<open>build\<close> returns, its
  findings are those of the run, in order, and each has the first safe explanation that the
  draft gives for its whole group (or else the template for its rule and old API), exactly the
  citations that the guard validated for it, and the status that says whether there are any.
  The guard has checked the run itself, or after one retry the run with other document
  candidates.  The items for human review are those of the draft and those that the findings
  call for, each once and in order, and at most 700.\<close>

theorem report_faithful:
  assumes "report_build cfg source = Inr rep"
  shows "\<exists>cs checked. guard_validate (bc_guard cfg) (with_candidates source cs) = Inr checked
     \<and> (fr_retry_count rep = 0 \<longrightarrow> cs = df_doc_candidates (rr_draft source))
     \<and> fr_findings rep
         = map2 (finding_view source checked) (rr_finding_ids source) (rr_findings source)
     \<and> map rf_finding (fr_findings rep) = rr_findings source
     \<and> human_key ` set (fr_human rep) = human_key ` set (df_human_items (rr_draft source))
         \<union> (\<Union>f \<in> set (fr_findings rep). set (review_keys source f))
     \<and> distinct (map human_key (fr_human rep))
     \<and> sorted (map (human_sort_key \<circ> human_key) (fr_human rep))
     \<and> length (fr_human rep) \<le> 700 \<and> fr_validation rep = gd_items checked"
proof -
  from assms obtain cs checked where *:
    "guard_validate (bc_guard cfg) (with_candidates source cs) = Inr checked"
    "fr_retry_count rep = 0 \<longrightarrow> cs = df_doc_candidates (rr_draft source)"
    "fr_findings rep = map2 (finding_view source checked) (rr_finding_ids source) (rr_findings source)"
    "length (rr_finding_ids source) = length (rr_findings source)"
    "human_key ` set (fr_human rep) = human_key ` set (df_human_items (rr_draft source))
       \<union> (\<Union>f \<in> set (fr_findings rep). set (review_keys source f))"
    "distinct (map human_key (fr_human rep))"
    "sorted (map (human_sort_key \<circ> human_key) (fr_human rep))"
    "length (fr_human rep) \<le> MAX_REPORT_HUMAN_REVIEW_ITEMS"
    "fr_validation rep = gd_items checked" "fr_degraded rep = rr_degraded source"
    by (rule report_build_Inr)
  have "map rf_finding (fr_findings rep) = rr_findings source"
    unfolding *(3) by (rule finding_views(2) [OF *(4)])
  with * show ?thesis by (intro exI [of _ cs] exI [of _ checked]) (simp add: report_limits)
qed

theorem report_faithful_witness:
  "\<exists>rep. report_build plain_builder finished_run = Inr rep
     \<and> map rf_finding (fr_findings rep) = [one_hit, other_hit]"
proof -
  obtain rep where "report_build plain_builder finished_run = Inr rep"
    using finished_report by blast
  from this report_faithful [OF this] show ?thesis by (auto simp: finished_run_simps)
qed

text \<open>C40: without a review, the number of findings decides whether there is a report.  A run
  without a model or with the review disabled always returns, but \<open>build\<close> then returns a report
  exactly if the agent's items and two more for each finding are at most 700, and raises a
  \<open>ValidationError\<close> otherwise; so for more than 350 findings it always raises.\<close>

theorem offline_report_limit:
  assumes "valid_run_request rq" "good_digest (ac_digest cfg) (rq_findings rq)"
    and "valid_limits (ac_limits cfg)" and "\<not> rq_llm_review rq \<or> \<not> ac_has_model cfg"
    and "sort_key importer_key (rq_importers rq) = rq_importers rq" "distinct (rq_importers rq)"
    and "bc_digest bcfg = ac_digest cfg"
  shows "\<exists>r. agent_run cfg envs started tools rq = Inr r
     \<and> (if length (df_human_items (rr_draft r)) + 2 * length (rq_findings rq) \<le> 700
        then \<exists>rep. report_build bcfg r = Inr rep
        else report_build bcfg r = Inl ReportValidationErr)
     \<and> (350 < length (rq_findings rq) \<longrightarrow> report_build bcfg r = Inl ReportValidationErr)"
proof -
  obtain r where r: "agent_run cfg envs started tools rq = Inr r" "handed_over cfg rq r"
    using offline_run_handed [OF assms(1-4)] by blast
  from offline_report_decided [OF assms(1,2,5,6) r(2) assms(7)] r(1) show ?thesis
    by (intro exI [of _ r]) (auto simp: report_limits split: if_splits)
qed

theorem offline_report_limit_witness:
  "\<exists>r. agent_run (sample_config\<lparr>ac_digest := number_digest, ac_has_model := False\<rparr>) prompt_answers 0
       no_tool_calls many_request = Inr r
     \<and> report_build (plain_builder\<lparr>bc_digest := number_digest\<rparr>) r = Inl ReportValidationErr"
proof -
  let ?cfg = "sample_config\<lparr>ac_digest := number_digest, ac_has_model := False\<rparr>"
  have "valid_limits (ac_limits ?cfg)" using sample_values(18) by simp
  moreover have rq: "rq_findings many_request = many_hits" "rq_importers many_request = []"
    "length many_hits = 351"
    by (simp_all add: many_request_def many_hits_def)
  ultimately show ?thesis
    using many_digest offline_report_limit [OF many_valid, of ?cfg
      "plain_builder\<lparr>bc_digest := number_digest\<rparr>" prompt_answers 0 no_tool_calls]
    by (auto simp: plain_builder_def)
qed

end
