(* ===== verification/Spec2Isabelle.thy ===== *)
theory Spec2Isabelle
  imports ZipProps ScanProps RuleProps GraphProps RetrievalProps AgentProps AgentOffline
    MarkdownProps ReportProps
begin

text \<open>
  A model of MigrationLens (the \<open>app\<close> package under \<open>src/app\<close>), which takes an uploaded ZIP of a
  Python project, finds the uses of the pydantic v1 API in it, looks up the official migration
  guide and writes a report.  The theories follow the data through the program.

  \<^bold>\<open>Parts and theories\<close>

  \<^item> \<open>Prelude\<close>, \<open>OrderedDict\<close>, \<open>PyText\<close>, \<open>Json\<close>: what the components share.  A fallible operation
    returns \<open>'e + 'a\<close> (\<open>bindE\<close>, \<open>raise_if\<close>, \<open>traverseE\<close>), with an exception type of its own for
    each component; a Python \<open>dict\<close> whose order matters is an association list; strings, paths,
    UTF-8 and line splitting; \<open>json.dumps\<close> with its injectivity, for the canonical texts that
    are hashed.  The locale \<open>canonical_order\<close> (a sort key that determines the element) is
    interpreted for findings and for import edges.
  \<^item> \<open>ZipGuard\<close>, \<open>BoundedRead\<close>, \<open>ZipReader\<close>, \<open>ZipLifecycle\<close>, \<open>ZipProps\<close>: \<open>security/zip_guard.py\<close>.
    Plans and checks of the archive members, the bounded reads (locale \<open>bounded_reader\<close>,
    interpreted for the upload, the members and the scanner's reader), the file system as a map
    that extraction and cleanup update, and the context manager.
  \<^item> \<open>PyAst\<close>, \<open>ScannerModels\<close>, \<open>AstScanner\<close>, \<open>SymbolCollector\<close>, \<open>ClassInheritance\<close>, \<open>AstScan\<close>:
    \<open>scanner/models.py\<close> and \<open>scanner/ast_scanner.py\<close>, from the inventory of the guard to the
    registry of modules, imports and classes.
  \<^item> \<open>RuleModels\<close>, \<open>BindingIndex\<close>, \<open>RuleScanner\<close>: \<open>scanner/rule_models.py\<close> and
    \<open>scanner/rule_scanner.py\<close>, the findings.  \<open>ImportGraph\<close>: \<open>scanner/import_graph.py\<close>, the files
    one import away (locale \<open>importer_lookup\<close>).  Properties: \<open>ScanProps\<close>, \<open>RuleProps\<close>,
    \<open>GraphProps\<close>.
  \<^item> \<open>MarkdownText\<close>, \<open>MarkdownChunks\<close>, \<open>MarkdownParse\<close>, \<open>MarkdownCover\<close>, \<open>MarkdownSamples\<close>,
    \<open>MarkdownProps\<close>: \<open>ingestion/markdown_chunker.py\<close>, which cuts the guide into chunks and audits
    the result.  \<open>Bm25\<close>, \<open>HybridRrf\<close>, \<open>RetrievalProps\<close>: \<open>retrieval/bm25.py\<close> and
    \<open>retrieval/hybrid.py\<close>, which rank the chunks.
  \<^item> \<open>ToolModels\<close>, \<open>Tools\<close>, \<open>ToolProps\<close>: \<open>agent/tool_models.py\<close> and \<open>agent/tools.py\<close>, the five
    audited tools (locale \<open>checked_tools\<close>).  \<open>AgentModels\<close>, \<open>AgentGroups\<close>, \<open>AgentGraph\<close>:
    \<open>agent/graph_models.py\<close> and \<open>agent/graph.py\<close>, the review graph as a step function over nodes;
    \<open>AgentInvariant\<close> and \<open>AgentRank\<close> hold its invariant and its rank (locale \<open>bounded_graph\<close>,
    interpreted twice), \<open>AgentSamples\<close> its sample runs, \<open>AgentProps\<close> and \<open>AgentOffline\<close> the
    properties.
  \<^item> \<open>ReportModels\<close>, \<open>ReportTexts\<close>, \<open>CitationGuard\<close>, \<open>ReportBuilder\<close>: \<open>reporting/models.py\<close>,
    \<open>reporting/citation.py\<close> and \<open>reporting/builder.py\<close>.  The guard checks the documents a run
    selected against the chunks of the trusted bundle (the artifact of the chunker), the builder
    retries at most once and composes the report.  \<open>GuardProps\<close>, \<open>ReportFacts\<close>, \<open>ReportTotal\<close> and
    \<open>ReportOffline\<close> hold the lemmas, \<open>ReportSamples\<close> a run and a large project, \<open>ReportProps\<close> the
    properties.

  \<^bold>\<open>State and operations\<close>

  A dataclass or pydantic model is a record (or a datatype of its variants) and its validators
  are the function \<open>make_\<dots>\<close> that returns the record or the error.  The state of an object is a
  record passed along: the guard with its task root and the world of files, the symbol
  collector, the tool state with its audit log, the agent state.  The review graph is run by
  \<open>run_graph\<close> along \<open>node_step\<close>; the deadline of a run can cancel it before or in any node, and a
  tool that is in flight then (\<open>te_cancelled\<close>).  A failing file operation leaves behind what it
  had done (\<open>make_dirs\<close>, \<open>write_python_payload\<close>).  Loops are structural recursion, or functions with a
  termination proof (the cursor of the chunker, the slices of \<open>chunks_of\<close>, decimal numbers).

  \<^bold>\<open>What is shown\<close>

  \<^item> Untrusted input: the decision on an archive, exact extraction, all-or-nothing entry and
    exit, safe paths, bounded reads (\<open>ZipProps\<close>).
  \<^item> Scanning: the scanner reads what was extracted, when a scan succeeds, the inheritance
    fixed point against an inductive definition, module names that determine their paths, the
    search of the scopes from the inside out, findings in canonical order whatever the order
    of the walks, exact import edges and one-hop files.
  \<^item> Documents: chunks cover the source, cut no fence and keep to the limits; built artifacts
    pass their audit up to one check; tokens, BM25 results and fused ranks and their order are
    characterised.
  \<^item> Review: the groups partition the findings; the run ends, stays within its limits, settles
    every group and always returns without a model; every tool call is audited unless the run
    cancels it.
  \<^item> Report: which candidates become citations, what a report shows, and when there is one.
  \<^item> Faults of the code, as properties of kind error: an over-long field keyword, two retries
    in one run, backticks inside a line, more than 350 unexplained findings.

  \<^bold>\<open>Bounds and fuel\<close>

  The limits are those of the code.  The only fuel is the recursion limit of the graph engine,
  a number of the code itself (twice the step limit and 16): \<open>agent_run_terminates\<close> shows that no
  run uses it up, with a rank that drops at every node.  The reading loops of the chunker and
  the guard need none: a rank drops in each round.

  \<^bold>\<open>Parameters\<close>

  Code outside the repository is an argument with documented behaviour as hypothesis: SHA-256
  (hexadecimal, without collisions on the texts at hand), the ZIP decoder, Unicode folding,
  \<open>ast.parse\<close> and \<open>ast.dump\<close>, the rounding of floating-point operations and \<open>log1p\<close>, the
  operating system's answers, the dense retriever, the clock, the model clients and the JSON
  reader of pydantic.

  \<^bold>\<open>Characters\<close>

  Source text and the text the chunker works on are lists of all code points.  Every other
  string (a path, a name, a query, the text of a retrieved or trusted chunk) is a \<^typ>\<open>string\<close> of
  the code points below 256, on which \<open>casefold\<close>, \<open>strip\<close>, the word characters of the tokenizer
  and \<open>str.isidentifier\<close> are those of Python (\<open>PyText\<close> names the one folding that leaves the
  range).  Texts with characters beyond U+00FF are outside the model there; \<open>as_text\<close>, which
  turns a chunk of the artifact into a trusted one, is partial for this reason.

  \<^bold>\<open>Not modelled\<close>

  The renderers of the report, the HTTP API, the SQLite storage, the performance and evaluation
  scripts, the clients of the embedding, model and Qdrant services, configuration and logging,
  the download of the snapshot, the publication of files and the command lines: input and
  output, services outside the repository, or scripts around the components above.  Checks of
  \<open>isinstance\<close> are the types of the model.
\<close>

end
